(* ===== verification/NanoNet_Prelude.thy ===== *)
theory NanoNet_Prelude
  imports Main "HOL-Library.Word" "HOL-Library.Monad_Syntax"
begin

text \<open>
  What every component theory shares: the machine integers of the C code, the bytes of
  a little-endian memory, the byte-order macros, decimal printing, the return codes, and
  two interfaces used throughout the library: fixed-size struct layouts and machines
  with an invariant.

  The module is built for the machine it runs on (\<open>-march=native\<close> in the Makefile; the
  tuning guide names Intel Xeon and AMD EPYC), so memory is little-endian and
  \<open>ntohs\<close>/\<open>ntohl\<close> swap bytes.
\<close>

section \<open>Machine integers\<close>

type_synonym u8 = "8 word"
type_synonym u16 = "16 word"
type_synonym u32 = "32 word"
type_synonym u64 = "64 word"

named_theorems byte_simps \<open>loads and stores of little-endian integers\<close>
named_theorems frame_simps \<open>which parts of the module state an operation leaves alone\<close>

text \<open>The conversion of a \<open>size_t\<close> value to \<open>int\<close>: the low 32 bits, read as signed.\<close>

definition int_of_size_t :: "u64 \<Rightarrow> int" where
  "int_of_size_t w = sint (ucast w :: u32)"

lemma int_of_size_t_of_int:
  assumes "- (2 ^ 31) \<le> i" and "i < 2 ^ 31"
  shows "int_of_size_t (of_int i) = i"
proof -
  have "sint (ucast (of_int i :: u64) :: u32) = signed_take_bit 31 (take_bit 32 i)"
    by (simp add: sint_uint unsigned_ucast_eq uint_word_of_int_eq)
  also have "\<dots> = signed_take_bit 31 i"
    by (simp add: signed_take_bit_take_bit)
  also have "\<dots> = i"
    using assms by (simp add: signed_take_bit_int_eq_self)
  finally show ?thesis by (simp add: int_of_size_t_def)
qed

section \<open>Bytes in memory\<close>

text \<open>The value of a run of bytes, least significant first, and the run that stores a value.\<close>

fun le_val :: "u8 list \<Rightarrow> nat" where
  "le_val [] = 0"
| "le_val (b # bs) = unat b + 256 * le_val bs"

fun le_bytes :: "nat \<Rightarrow> nat \<Rightarrow> u8 list" where
  "le_bytes 0 n = []"
| "le_bytes (Suc k) n = of_nat (n mod 256) # le_bytes k (n div 256)"

lemma length_le_bytes [simp]: "length (le_bytes k n) = k"
  by (induction k arbitrary: n) auto

lemma le_bytes_numeral:
  "le_bytes (numeral k) n = of_nat (n mod 256) # le_bytes (pred_numeral k) (n div 256)"
  by (simp only: numeral_eq_Suc [of k] le_bytes.simps)

lemma unat_byte_lt [simp]: "unat (b :: u8) < 256"
  using unsigned_less [of b] by simp

lemma le_val_lt: "le_val bs < 256 ^ length bs"
proof (induction bs)
  case (Cons b bs)
  have "unat b + 256 * le_val bs < 256 + 256 * le_val bs"
    by simp
  also have "\<dots> \<le> 256 * 256 ^ length bs"
    using Cons.IH by (simp add: mult_Suc_right [symmetric] Suc_leI del: mult_Suc_right)
  finally show ?case by simp
qed simp

lemma le_bytes_le_val [simp]: "length bs = k \<Longrightarrow> le_bytes k (le_val bs) = bs"
proof (induction bs arbitrary: k)
  case (Cons b bs)
  have "(unat b + 256 * le_val bs) mod 256 = unat b" "(unat b + 256 * le_val bs) div 256 = le_val bs"
    by (simp_all add: mod_less div_less)
  with Cons show ?case by (cases k) auto
qed simp

lemma le_val_le_bytes [simp]: "le_val (le_bytes k n) = n mod 256 ^ k"
proof (induction k arbitrary: n)
  case (Suc k)
  have "unat (of_nat (n mod 256) :: u8) = n mod 256"
    by (simp add: unat_of_nat)
  then show ?case
    by (simp add: Suc.IH mod_mult2_eq)
qed simp

lemma le_val_append: "le_val (xs @ ys) = le_val xs + 256 ^ length xs * le_val ys"
  by (induction xs) (auto simp: algebra_simps)

text \<open>Loading and storing an integer of the width of the word type.\<close>

definition ldw :: "u8 list \<Rightarrow> 'a::len word" where
  "ldw bs = of_nat (le_val bs)"

definition stw :: "nat \<Rightarrow> 'a::len word \<Rightarrow> u8 list" where
  "stw k w = le_bytes k (unat w)"

lemma length_stw [simp]: "length (stw k w) = k"
  by (simp add: stw_def)

lemma ldw_stw [byte_simps]: "LENGTH('a) = 8 * k \<Longrightarrow> ldw (stw k w) = (w :: 'a::len word)"
proof -
  assume k: "LENGTH('a) = 8 * k"
  have "(256 :: nat) ^ k = 2 ^ LENGTH('a)"
    by (simp add: k power_mult)
  then have "unat w mod 256 ^ k = unat w"
    using unsigned_less [of w] by simp
  then show ?thesis by (simp add: ldw_def stw_def)
qed

lemma stw_ldw [byte_simps]:
  "LENGTH('a) = 8 * length bs \<Longrightarrow> k = length bs \<Longrightarrow> stw k (ldw bs :: 'a::len word) = bs"
proof -
  assume k: "LENGTH('a) = 8 * length bs" "k = length bs"
  have "(256 :: nat) ^ length bs = 2 ^ LENGTH('a)"
    by (simp add: k power_mult)
  then have "unat (ldw bs :: 'a word) = le_val bs"
    using le_val_lt [of bs] by (simp add: ldw_def unat_of_nat)
  with k show ?thesis by (simp add: stw_def)
qed

lemma unat_ldw: "LENGTH('a) = 8 * length bs \<Longrightarrow> unat (ldw bs :: 'a::len word) = le_val bs"
  using le_val_lt [of bs] by (simp add: ldw_def unat_of_nat power_mult)

lemma unat_byte_le: "unat (b :: u8) \<le> 255"
  using unat_byte_lt [of b] by linarith

lemma unat_u16_le: "unat (w :: u16) \<le> 65535"
proof -
  have "unat w < 2 ^ 16" by (rule order_less_le_trans [OF unsigned_less]) simp
  then show ?thesis by simp
qed

lemma unat_ldw_pair: "unat (ldw [a, b] :: u16) = unat a + 256 * unat b"
  by (simp add: unat_ldw)

lemma pair_le: "unat (a :: u8) + 256 * unat (b :: u8) \<le> 65535"
  using unat_byte_le [of a] unat_byte_le [of b] by linarith

section \<open>Byte order\<close>

text \<open>\<open>ntohs\<close>/\<open>htons\<close> and \<open>ntohl\<close>/\<open>htonl\<close> on a little-endian host reverse the bytes.\<close>

definition ntohs :: "u16 \<Rightarrow> u16" where
  "ntohs w = ldw (rev (stw 2 w))"

definition ntohl :: "u32 \<Rightarrow> u32" where
  "ntohl w = ldw (rev (stw 4 w))"

definition htobe64 :: "u64 \<Rightarrow> u64" where
  "htobe64 w = ldw (rev (stw 8 w))"

abbreviation htons :: "u16 \<Rightarrow> u16" where "htons \<equiv> ntohs"
abbreviation htonl :: "u32 \<Rightarrow> u32" where "htonl \<equiv> ntohl"

lemma ntohs_ntohs [simp]: "ntohs (ntohs w) = w"
  by (simp add: ntohs_def byte_simps)

lemma ntohl_ntohl [simp]: "ntohl (ntohl w) = w"
  by (simp add: ntohl_def byte_simps)

lemma stw_ntohs: "stw 2 (ntohs w) = rev (stw 2 w)"
  by (simp add: ntohs_def byte_simps)


section \<open>Reading and writing a buffer\<close>

text \<open>
  A read or write that leaves the buffer is undefined behaviour in C; here it is the value
  \<open>None\<close>.
\<close>

definition peek :: "u8 list \<Rightarrow> nat \<Rightarrow> nat \<Rightarrow> u8 list option" where
  "peek buf i n = (if i + n \<le> length buf then Some (take n (drop i buf)) else None)"

definition poke :: "u8 list \<Rightarrow> nat \<Rightarrow> u8 list \<Rightarrow> u8 list option" where
  "poke buf i bs =
     (if i + length bs \<le> length buf
      then Some (take i buf @ bs @ drop (i + length bs) buf) else None)"

lemma peek_Some_iff:
  "peek buf i n = Some bs \<longleftrightarrow> i + n \<le> length buf \<and> bs = take n (drop i buf)"
  by (auto simp: peek_def)

lemma peek_None_iff: "peek buf i n = None \<longleftrightarrow> length buf < i + n"
  by (auto simp: peek_def)

lemma length_peek: "peek buf i n = Some bs \<Longrightarrow> length bs = n"
  by (auto simp: peek_def split: if_splits)

lemma length_poke: "poke buf i bs = Some buf' \<Longrightarrow> length buf' = length buf"
  by (auto simp: poke_def split: if_splits)

lemma peek_poke_same: "poke buf i bs = Some buf' \<Longrightarrow> peek buf' i (length bs) = Some bs"
  by (auto simp: poke_def peek_def split: if_splits)

lemma peek_poke_before:
  "poke buf i bs = Some buf' \<Longrightarrow> j + n \<le> i \<Longrightarrow> peek buf' j n = peek buf j n"
  by (auto simp: poke_def peek_def min_def drop_take split: if_splits)

text \<open>A run of bytes read in two pieces.\<close>

lemma peek_split:
  "peek buf i m = Some xs \<Longrightarrow> peek buf (i + m) n = Some ys \<Longrightarrow> peek buf i (m + n) = Some (xs @ ys)"
  by (auto simp: peek_def take_add add.commute add.left_commute split: if_splits)

section \<open>Decimal output\<close>

fun dec_digits :: "nat \<Rightarrow> nat list" where
  "dec_digits n = (if n < 10 then [n] else dec_digits (n div 10) @ [n mod 10])"

declare dec_digits.simps [simp del]

definition fmt_u :: "nat \<Rightarrow> string" where
  "fmt_u n = map (\<lambda>d. char_of (48 + d)) (dec_digits n)"

definition fmt_d :: "int \<Rightarrow> string" where
  "fmt_d i = (if i < 0 then CHR ''-'' # fmt_u (nat (- i)) else fmt_u (nat i))"

definition dec_val :: "nat list \<Rightarrow> nat" where
  "dec_val = foldl (\<lambda>v d. 10 * v + d) 0"

lemma dec_val_dec_digits: "dec_val (dec_digits n) = n"
proof (induction n rule: dec_digits.induct)
  case (1 n)
  then show ?case
    by (cases "n < 10") (simp_all add: dec_digits.simps [of n] dec_val_def)
qed

lemma dec_digits_lt: "d \<in> set (dec_digits n) \<Longrightarrow> d < 10"
proof (induction n rule: dec_digits.induct)
  case (1 n)
  then show ?case
    by (cases "n < 10") (auto simp: dec_digits.simps [of n])
qed

lemma fmt_u_eq_iff: "fmt_u m = fmt_u n \<longleftrightarrow> m = n"
proof
  assume eq: "fmt_u m = fmt_u n"
  have "inj_on (\<lambda>d. char_of (48 + d) :: char) {..<10 :: nat}"
  proof (rule inj_onI)
    fix x y :: nat
    assume "x \<in> {..<10}" "y \<in> {..<10}" "(char_of (48 + x) :: char) = char_of (48 + y)"
    then have "(of_char (char_of (48 + x) :: char) :: nat) = of_char (char_of (48 + y) :: char)" "x < 10" "y < 10" by simp_all
    then show "x = y" by simp
  qed
  then have "inj_on (\<lambda>d. char_of (48 + d) :: char) (set (dec_digits m) \<union> set (dec_digits n))"
    by (rule inj_on_subset) (use dec_digits_lt in blast)
  with eq have "dec_digits m = dec_digits n"
    unfolding fmt_u_def by (simp add: inj_on_map_eq_map)
  then show "m = n" by (metis dec_val_dec_digits)
qed simp

lemma dec_digits_div:
  "0 < k \<Longrightarrow> 10 ^ k \<le> n \<Longrightarrow> take (length (dec_digits n) - k) (dec_digits n) = dec_digits (n div 10 ^ k)"
proof (induction k arbitrary: n)
  case (Suc k)
  from Suc.prems have "\<not> n < 10"
    by (metis One_nat_def leD le_trans one_le_numeral power_increasing power_one_right Suc_leI)
  then have n: "dec_digits n = dec_digits (n div 10) @ [n mod 10]"
    by (simp add: dec_digits.simps [of n])
  show ?case
  proof (cases k)
    case 0
    with n show ?thesis by simp
  next
    case (Suc j)
    have "10 ^ k \<le> n div 10"
      using Suc.prems by (simp add: less_eq_div_iff_mult_less_eq mult.commute)
    moreover have "n div 10 div 10 ^ k = n div 10 ^ Suc k"
      by (simp add: div_mult2_eq)
    ultimately show ?thesis
      using Suc.IH [of "n div 10"] Suc n by (simp del: power_Suc)
  qed
qed simp

lemma length_dec_digits_eq:
  "10 ^ k \<le> n \<Longrightarrow> n < 10 ^ Suc k \<Longrightarrow> length (dec_digits n) = Suc k"
proof (induction k arbitrary: n)
  case 0
  then show ?case by (simp add: dec_digits.simps)
next
  case (Suc k)
  then have "length (dec_digits (n div 10)) = Suc k"
    by (intro Suc.IH) (auto simp: less_eq_div_iff_mult_less_eq div_less_iff_less_mult mult.commute)
  moreover have "\<not> n < 10"
    using Suc.prems(1) by (metis One_nat_def leD le_trans one_le_numeral power_increasing power_one_right Suc_leI zero_less_Suc)
  ultimately show ?case by (simp add: dec_digits.simps [of n])
qed

section \<open>Return codes and faults\<close>

text \<open>Linux error numbers (asm-generic/errno-base.h and errno.h).\<close>

definition EPERM :: int where [simp]: "EPERM = 1"
definition EIO :: int where [simp]: "EIO = 5"
definition ENOMEM :: int where [simp]: "ENOMEM = 12"
definition EFAULT :: int where [simp]: "EFAULT = 14"
definition EBUSY :: int where [simp]: "EBUSY = 16"
definition ENODEV :: int where [simp]: "ENODEV = 19"
definition EINVAL :: int where [simp]: "EINVAL = 22"
definition ENOTTY :: int where [simp]: "ENOTTY = 25"
definition EPROTONOSUPPORT :: int where [simp]: "EPROTONOSUPPORT = 93"

text \<open>
  What the C code may run into beyond returning: an access outside a buffer or through a
  null pointer, \<open>skb_over_panic\<close>, a division by zero.
\<close>

datatype fault = MemFault | SkbOverPanic | DivideError

text \<open>A step that may fault, and the rest of the function after it.\<close>

definition need :: "'e \<Rightarrow> 'a option \<Rightarrow> 'e + 'a" where
  "need e x = (case x of None \<Rightarrow> Inl e | Some y \<Rightarrow> Inr y)"

definition and_then :: "'e + 'a \<Rightarrow> ('a \<Rightarrow> 'e + 'b) \<Rightarrow> 'e + 'b" where
  "and_then x f = (case x of Inl e \<Rightarrow> Inl e | Inr y \<Rightarrow> f y)"

lemma need_simps [simp]: "need e None = Inl e" "need e (Some y) = Inr y"
  by (simp_all add: need_def)

lemma and_then_simps [simp]: "and_then (Inl e) f = Inl e" "and_then (Inr y) f = f y"
  by (simp_all add: and_then_def)

lemma need_eq_Inr: "need e x = Inr y \<longleftrightarrow> x = Some y"
  by (cases x) auto

lemma and_then_eq_Inr: "and_then x f = Inr z \<longleftrightarrow> (\<exists>y. x = Inr y \<and> f y = Inr z)"
  by (cases x) auto

section \<open>Struct layouts\<close>

text \<open>
  A struct of \<open>sz\<close> bytes: \<open>enc\<close> lays a value out, \<open>dec\<close> reads one back. Values that
  hold byte arrays satisfy \<open>ok\<close> when the arrays have their declared lengths.
\<close>

locale struct_layout =
  fixes sz :: nat
    and ok :: "'a \<Rightarrow> bool"
    and enc :: "'a \<Rightarrow> u8 list"
    and dec :: "u8 list \<Rightarrow> 'a"
  assumes length_enc: "ok x \<Longrightarrow> length (enc x) = sz"
    and dec_enc: "ok x \<Longrightarrow> dec (enc x) = x"
    and ok_dec: "length bs = sz \<Longrightarrow> ok (dec bs)"
begin

lemma enc_eq_iff: "ok x \<Longrightarrow> ok y \<Longrightarrow> enc x = enc y \<longleftrightarrow> x = y"
  by (metis dec_enc)

lemma load_stored:
  "ok x \<Longrightarrow> poke buf i (enc x) = Some buf' \<Longrightarrow> map_option dec (peek buf' i sz) = Some x"
  using peek_poke_same [of buf i "enc x" buf'] by (simp add: length_enc dec_enc)

lemma load_ok: "map_option dec (peek buf i sz) = Some x \<Longrightarrow> ok x"
  using length_peek [of buf i sz] by (auto intro: ok_dec)

end

text \<open>A packed struct whose fields cover all of its bytes.\<close>

locale packed_layout = struct_layout +
  assumes enc_dec: "length bs = sz \<Longrightarrow> enc (dec bs) = bs"
begin

lemma dec_eq_iff: "length a = sz \<Longrightarrow> length b = sz \<Longrightarrow> dec a = dec b \<longleftrightarrow> a = b"
  by (metis enc_dec)

end

section \<open>Machines with an invariant\<close>

text \<open>A step function whose steps, on the events that satisfy \<open>ok\<close>, keep an invariant.\<close>

locale machine =
  fixes step :: "'e \<Rightarrow> 's \<Rightarrow> 's"
    and ok :: "'e \<Rightarrow> bool"
    and inv :: "'s \<Rightarrow> bool"
  assumes step_inv: "ok e \<Longrightarrow> inv s \<Longrightarrow> inv (step e s)"
begin

lemma run_inv: "list_all ok es \<Longrightarrow> inv s \<Longrightarrow> inv (fold step es s)"
  by (induction es arbitrary: s) (auto intro: step_inv)

end

end
