(* ===== verification/Headers.thy ===== *)
theory Headers
  imports NanoNet_Prelude
begin

text \<open>
  The packet headers of include/nanonet.h as records, with the layout of each packed
  struct as a pair of functions between the record and its bytes. Integers declared
  \<open>__be16\<close>/\<open>__be32\<close> hold what a little-endian load of the field gives: the code turns
  them into host order itself, where it does, with \<open>ntohs\<close> and \<open>ntohl\<close>.
\<close>

unbundle bit_operations_syntax

section \<open>The structs\<close>

record ull_ethhdr =
  h_dest :: "u8 list"
  h_source :: "u8 list"
  h_proto :: u16

record ull_iphdr =
  version_ihl :: u8
  tos :: u8
  tot_len :: u16
  ip_id :: u16
  frag_off :: u16
  ttl :: u8
  ip_protocol :: u8
  ip_check :: u16
  saddr :: u32
  daddr :: u32

text \<open>The bit fields of \<open>struct ull_tcphdr\<close>: two nibbles and eight flags.\<close>

record ull_tcphdr =
  tcp_source :: u16
  tcp_dest :: u16
  seq :: u32
  ack_seq :: u32
  res1 :: "4 word"
  doff :: "4 word"
  fin :: bool
  syn :: bool
  rst :: bool
  psh :: bool
  ack :: bool
  urg :: bool
  ece :: bool
  cwr :: bool
  window :: u16
  tcp_check :: u16
  urg_ptr :: u16

record ull_udphdr =
  udp_source :: u16
  udp_dest :: u16
  udp_len :: u16
  udp_check :: u16

definition sizeof_ethhdr :: nat where [simp]: "sizeof_ethhdr = 14"
definition sizeof_iphdr :: nat where [simp]: "sizeof_iphdr = 20"
definition sizeof_tcphdr :: nat where [simp]: "sizeof_tcphdr = 20"
definition sizeof_udphdr :: nat where [simp]: "sizeof_udphdr = 8"

definition ETH_P_IP :: u16 where [simp]: "ETH_P_IP = 0x0800"
definition IPPROTO_TCP :: u8 where [simp]: "IPPROTO_TCP = 6"
definition IPPROTO_UDP :: u8 where [simp]: "IPPROTO_UDP = 17"
definition IP_DF :: u16 where [simp]: "IP_DF = 0x4000"

section \<open>Their bytes\<close>

definition ethhdr_bytes :: "ull_ethhdr \<Rightarrow> u8 list" where
  "ethhdr_bytes h = h_dest h @ h_source h @ stw 2 (h_proto h)"

definition ethhdr_of :: "u8 list \<Rightarrow> ull_ethhdr" where
  "ethhdr_of bs = \<lparr>h_dest = take 6 bs, h_source = take 6 (drop 6 bs),
     h_proto = ldw (take 2 (drop 12 bs))\<rparr>"

definition ethhdr_ok :: "ull_ethhdr \<Rightarrow> bool" where
  "ethhdr_ok h \<longleftrightarrow> length (h_dest h) = 6 \<and> length (h_source h) = 6"

definition iphdr_bytes :: "ull_iphdr \<Rightarrow> u8 list" where
  "iphdr_bytes h =
     [version_ihl h, tos h] @ stw 2 (tot_len h) @ stw 2 (ip_id h) @ stw 2 (frag_off h) @
     [ttl h, ip_protocol h] @ stw 2 (ip_check h) @ stw 4 (saddr h) @ stw 4 (daddr h)"

definition iphdr_of :: "u8 list \<Rightarrow> ull_iphdr" where
  "iphdr_of bs = \<lparr>version_ihl = bs ! 0, tos = bs ! 1, tot_len = ldw (take 2 (drop 2 bs)),
     ip_id = ldw (take 2 (drop 4 bs)), frag_off = ldw (take 2 (drop 6 bs)),
     ttl = bs ! 8, ip_protocol = bs ! 9, ip_check = ldw (take 2 (drop 10 bs)),
     saddr = ldw (take 4 (drop 12 bs)), daddr = ldw (take 4 (drop 16 bs))\<rparr>"

definition tcp_flags :: "ull_tcphdr \<Rightarrow> u8" where
  "tcp_flags h = horner_sum of_bool 2 [fin h, syn h, rst h, psh h, ack h, urg h, ece h, cwr h]"

definition tcphdr_bytes :: "ull_tcphdr \<Rightarrow> u8 list" where
  "tcphdr_bytes h =
     stw 2 (tcp_source h) @ stw 2 (tcp_dest h) @ stw 4 (seq h) @ stw 4 (ack_seq h) @
     [ucast (res1 h) OR push_bit 4 (ucast (doff h)), tcp_flags h] @
     stw 2 (window h) @ stw 2 (tcp_check h) @ stw 2 (urg_ptr h)"

definition tcphdr_of :: "u8 list \<Rightarrow> ull_tcphdr" where
  "tcphdr_of bs = \<lparr>tcp_source = ldw (take 2 bs), tcp_dest = ldw (take 2 (drop 2 bs)),
     seq = ldw (take 4 (drop 4 bs)), ack_seq = ldw (take 4 (drop 8 bs)),
     res1 = ucast (bs ! 12), doff = ucast (drop_bit 4 (bs ! 12)),
     fin = bit (bs ! 13) 0, syn = bit (bs ! 13) 1, rst = bit (bs ! 13) 2, psh = bit (bs ! 13) 3,
     ack = bit (bs ! 13) 4, urg = bit (bs ! 13) 5, ece = bit (bs ! 13) 6, cwr = bit (bs ! 13) 7,
     window = ldw (take 2 (drop 14 bs)), tcp_check = ldw (take 2 (drop 16 bs)),
     urg_ptr = ldw (take 2 (drop 18 bs))\<rparr>"

definition udphdr_bytes :: "ull_udphdr \<Rightarrow> u8 list" where
  "udphdr_bytes h = stw 2 (udp_source h) @ stw 2 (udp_dest h) @ stw 2 (udp_len h) @ stw 2 (udp_check h)"

definition udphdr_of :: "u8 list \<Rightarrow> ull_udphdr" where
  "udphdr_of bs = \<lparr>udp_source = ldw (take 2 bs), udp_dest = ldw (take 2 (drop 2 bs)),
     udp_len = ldw (take 2 (drop 4 bs)), udp_check = ldw (take 2 (drop 6 bs))\<rparr>"

section \<open>Each pair is a packed layout\<close>

interpretation eth: packed_layout 14 ethhdr_ok ethhdr_bytes ethhdr_of
proof unfold_locales
  fix bs :: "u8 list"
  assume len: "length bs = 14"
  have s2: "stw 2 (ldw (take 2 (drop 12 bs)) :: u16) = take 2 (drop 12 bs)"
    by (rule stw_ldw) (simp_all add: len)
  from len obtain b0 b1 b2 b3 b4 b5 b6 b7 b8 b9 b10 b11 b12 b13 where
    "bs = [b0, b1, b2, b3, b4, b5, b6, b7, b8, b9, b10, b11, b12, b13]"
    by (auto simp: numeral_eq_Suc length_Suc_conv)
  then show "ethhdr_bytes (ethhdr_of bs) = bs"
    using s2 by (simp add: ethhdr_bytes_def ethhdr_of_def)
qed (auto simp: ethhdr_bytes_def ethhdr_of_def ethhdr_ok_def byte_simps)

interpretation udp: packed_layout 8 "\<lambda>_. True" udphdr_bytes udphdr_of
proof unfold_locales
  fix bs :: "u8 list"
  assume len: "length bs = 8"
  have s2: "stw 2 (ldw (take 2 (drop i bs)) :: u16) = take 2 (drop i bs)" if "i \<le> 6" for i
    by (rule stw_ldw) (use that len in simp_all)
  from len obtain b0 b1 b2 b3 b4 b5 b6 b7 where "bs = [b0, b1, b2, b3, b4, b5, b6, b7]"
    by (auto simp: numeral_eq_Suc length_Suc_conv)
  then show "udphdr_bytes (udphdr_of bs) = bs"
    using s2 [of 0] s2 [of 2] s2 [of 4] s2 [of 6] by (simp add: udphdr_bytes_def udphdr_of_def)
qed (auto simp: udphdr_bytes_def udphdr_of_def byte_simps)

interpretation ip: packed_layout 20 "\<lambda>_. True" iphdr_bytes iphdr_of
proof unfold_locales
  fix bs :: "u8 list"
  assume len: "length bs = 20"
  have s2: "stw 2 (ldw (take 2 (drop i bs)) :: u16) = take 2 (drop i bs)" if "i \<le> 18" for i
    by (rule stw_ldw) (use that len in simp_all)
  have s4: "stw 4 (ldw (take 4 (drop i bs)) :: u32) = take 4 (drop i bs)" if "i \<le> 16" for i
    by (rule stw_ldw) (use that len in simp_all)
  from len obtain b0 b1 b2 b3 b4 b5 b6 b7 b8 b9 b10 b11 b12 b13 b14 b15 b16 b17 b18 b19 where
    "bs = [b0, b1, b2, b3, b4, b5, b6, b7, b8, b9, b10, b11, b12, b13, b14, b15, b16, b17, b18, b19]"
    by (auto simp: numeral_eq_Suc length_Suc_conv)
  then show "iphdr_bytes (iphdr_of bs) = bs"
    using s2 [of 2] s2 [of 4] s2 [of 6] s2 [of 10] s4 [of 12] s4 [of 16]
    by (simp add: iphdr_bytes_def iphdr_of_def)
qed (auto simp: iphdr_bytes_def iphdr_of_def byte_simps nth_append)

text \<open>The bit fields of byte 12 and the flags of byte 13.\<close>

lemma nibbles_join: "ucast (ucast b :: 4 word) OR push_bit 4 (ucast (ucast (drop_bit 4 b) :: 4 word)) = (b :: u8)"
  by (rule bit_word_eqI) (auto simp: bit_simps)

lemma low_nibble_join: "ucast (ucast (r :: 4 word) OR push_bit 4 (ucast (d :: 4 word)) :: u8) = r"
  by (rule bit_word_eqI) (auto simp: bit_simps)

lemma high_nibble_join:
  "ucast (drop_bit 4 (ucast (r :: 4 word) :: u8) OR drop_bit 4 (push_bit 4 (ucast (d :: 4 word)))) = d"
  by (rule bit_word_eqI) (auto simp: bit_simps dest: bit_imp_le_length)

lemma bit_tcp_flags:
  "bit (tcp_flags h) n \<longleftrightarrow> n < 8 \<and> [fin h, syn h, rst h, psh h, ack h, urg h, ece h, cwr h] ! n"
  unfolding tcp_flags_def by (subst bit_horner_sum_bit_word_iff) (simp add: numeral_eq_Suc)

lemma flags_of_byte:
  "horner_sum of_bool 2 [bit b 0, bit b 1, bit b 2, bit b 3, bit b 4, bit b 5, bit b 6, bit b 7] = (b :: u8)"
proof -
  have "[bit b 0, bit b 1, bit b 2, bit b 3, bit b 4, bit b 5, bit b 6, bit b 7] = map (bit b) [0..<8]"
    by (simp add: upt_conv_Cons numeral_eq_Suc)
  then have "horner_sum of_bool 2 [bit b 0, bit b 1, bit b 2, bit b 3, bit b 4, bit b 5, bit b 6, bit b 7] = take_bit 8 b"
    by (simp only: horner_sum_bit_eq_take_bit)
  then show ?thesis by (simp add: take_bit_word_eq_self)
qed

interpretation tcp: packed_layout 20 "\<lambda>_. True" tcphdr_bytes tcphdr_of
proof unfold_locales
  fix h :: ull_tcphdr
  show "tcphdr_of (tcphdr_bytes h) = h"
    by (simp add: tcphdr_bytes_def tcphdr_of_def byte_simps nth_append low_nibble_join
        high_nibble_join bit_tcp_flags)
next
  fix bs :: "u8 list"
  assume len: "length bs = 20"
  have s2: "stw 2 (ldw (take 2 (drop i bs)) :: u16) = take 2 (drop i bs)" if "i \<le> 18" for i
    by (rule stw_ldw) (use that len in simp_all)
  have s4: "stw 4 (ldw (take 4 (drop i bs)) :: u32) = take 4 (drop i bs)" if "i \<le> 16" for i
    by (rule stw_ldw) (use that len in simp_all)
  from len obtain b0 b1 b2 b3 b4 b5 b6 b7 b8 b9 b10 b11 b12 b13 b14 b15 b16 b17 b18 b19 where
    "bs = [b0, b1, b2, b3, b4, b5, b6, b7, b8, b9, b10, b11, b12, b13, b14, b15, b16, b17, b18, b19]"
    by (auto simp: numeral_eq_Suc length_Suc_conv)
  then show "tcphdr_bytes (tcphdr_of bs) = bs"
    using s2 [of 0] s2 [of 2] s4 [of 4] s4 [of 8] s2 [of 14] s2 [of 16] s2 [of 18]
    by (simp add: tcphdr_bytes_def tcphdr_of_def nibbles_join tcp_flags_def
        flags_of_byte [unfolded One_nat_def] del: horner_sum_simps)
qed (auto simp: tcphdr_bytes_def)

end
