(* ===== verification/NanoNet_State.thy ===== *)
theory NanoNet_State
  imports Headers
begin

text \<open>
  The state of the module: the structs of include/nanonet.h that are not packet headers,
  the globals of the eight source files gathered in one record, the socket buffers the
  module reads and builds, and the kernel services it calls.

  The services are code outside the repository. They are the fields of the record
  \<open>kernel\<close>, an argument of every definition that calls one: functions on a state
  \<open>'w\<close> of the rest of the kernel of which nothing is assumed. What the module relies on
  is named where it is used. Byte order, atomic counters, hash lists, \<open>memcpy\<close> and
  \<open>snprintf\<close>, and the head/data/tail/end arithmetic of a linear \<open>sk_buff\<close> are the
  library of the language the module is written in; they are written out.
\<close>

section \<open>Configuration, statistics, connections\<close>

record ull_config =
  enabled :: bool
  target_ip :: u32
  target_port :: u16
  cfg_protocol :: u8
  response_ip :: u32
  response_port :: u16
  cfg_seq_num :: u32
  application_logic_type :: u8
  multicast :: bool
  multicast_group :: u32

record ull_stats =
  packets_processed :: u64
  packets_bypassed :: u64
  responses_sent :: u64
  stat_errors :: u64
  last_process_time_ns :: u64
  min_process_time_ns :: u64
  max_process_time_ns :: u64
  avg_process_time_ns :: u64
  connections_active :: u64
  connections_dropped :: u64

text \<open>The list node \<open>hash_node\<close> is the position of the record in its bucket's list.\<close>

record ull_tcp_conn =
  src_ip :: u32
  dst_ip :: u32
  src_port :: u16
  dst_port :: u16
  conn_seq_num :: u32
  conn_ack_num :: u32
  conn_state :: u8
  last_seen :: u64
  conn_addr :: nat

record ull_debug_stats =
  total_interrupts :: u64
  cache_misses :: u64
  memory_allocations :: u64
  queue_full_events :: u64
  checksum_errors :: u64
  last_error :: string

text \<open>
  The natural alignment of the non-packed \<open>struct ull_config\<close>: 32 bytes, with padding
  after \<open>enabled\<close>, \<open>protocol\<close>, \<open>response_port\<close> and \<open>multicast\<close>. A \<open>bool\<close> is one
  byte; any nonzero byte reads as true.
\<close>

definition sizeof_config :: nat where [simp]: "sizeof_config = 32"
definition sizeof_stats :: nat where [simp]: "sizeof_stats = 80"

definition bool_byte :: "bool \<Rightarrow> u8" where
  "bool_byte b = (if b then 1 else 0)"

definition config_bytes :: "ull_config \<Rightarrow> u8 list" where
  "config_bytes c =
     [bool_byte (enabled c), 0, 0, 0] @ stw 4 (target_ip c) @ stw 2 (target_port c) @
     [cfg_protocol c, 0] @ stw 4 (response_ip c) @ stw 2 (response_port c) @ [0, 0] @
     stw 4 (cfg_seq_num c) @ [application_logic_type c, bool_byte (multicast c), 0, 0] @
     stw 4 (multicast_group c)"

definition config_of :: "u8 list \<Rightarrow> ull_config" where
  "config_of bs = \<lparr>enabled = (bs ! 0 \<noteq> 0), target_ip = ldw (take 4 (drop 4 bs)),
     target_port = ldw (take 2 (drop 8 bs)), cfg_protocol = bs ! 10,
     response_ip = ldw (take 4 (drop 12 bs)), response_port = ldw (take 2 (drop 16 bs)),
     cfg_seq_num = ldw (take 4 (drop 20 bs)), application_logic_type = bs ! 24,
     multicast = (bs ! 25 \<noteq> 0), multicast_group = ldw (take 4 (drop 28 bs))\<rparr>"

interpretation cfg: struct_layout sizeof_config "\<lambda>_. True" config_bytes config_of
  by unfold_locales
    (simp_all add: config_bytes_def config_of_def byte_simps nth_append bool_byte_def)

definition stats_bytes :: "ull_stats \<Rightarrow> u8 list" where
  "stats_bytes t = concat (map (stw 8)
     [packets_processed t, packets_bypassed t, responses_sent t, stat_errors t,
      last_process_time_ns t, min_process_time_ns t, max_process_time_ns t,
      avg_process_time_ns t, connections_active t, connections_dropped t])"

definition stats_of :: "u8 list \<Rightarrow> ull_stats" where
  "stats_of bs = \<lparr>packets_processed = ldw (take 8 bs), packets_bypassed = ldw (take 8 (drop 8 bs)),
     responses_sent = ldw (take 8 (drop 16 bs)), stat_errors = ldw (take 8 (drop 24 bs)),
     last_process_time_ns = ldw (take 8 (drop 32 bs)), min_process_time_ns = ldw (take 8 (drop 40 bs)),
     max_process_time_ns = ldw (take 8 (drop 48 bs)), avg_process_time_ns = ldw (take 8 (drop 56 bs)),
     connections_active = ldw (take 8 (drop 64 bs)), connections_dropped = ldw (take 8 (drop 72 bs))\<rparr>"

interpretation sts: struct_layout sizeof_stats "\<lambda>_. True" stats_bytes stats_of
  by unfold_locales (simp_all add: stats_bytes_def stats_of_def byte_simps)

section \<open>Socket buffers\<close>

text \<open>
  A linear \<open>sk_buff\<close>: its address, the bytes from \<open>head\<close> to \<open>end\<close>, the offset of
  \<open>data\<close>, the length \<open>len\<close> (so that \<open>tail = data + len\<close>), device and protocol.
\<close>

record net_device =
  dev_name :: string
  ifindex :: int

record sk_buff =
  skb_addr :: nat
  skb_buf :: "u8 list"
  skb_off :: nat
  skb_len :: u32
  skb_dev :: "net_device option"
  skb_protocol :: u16

definition skb_wf :: "sk_buff \<Rightarrow> bool" where
  "skb_wf skb \<longleftrightarrow> skb_off skb + unat (skb_len skb) \<le> length (skb_buf skb)"

text \<open>The bytes between \<open>data\<close> and \<open>tail\<close>.\<close>

definition skb_bytes :: "sk_buff \<Rightarrow> u8 list" where
  "skb_bytes skb = take (unat (skb_len skb)) (drop (skb_off skb) (skb_buf skb))"

text \<open>\<open>n\<close> bytes at \<open>skb->data + i\<close>.\<close>

definition skb_peek :: "sk_buff \<Rightarrow> nat \<Rightarrow> nat \<Rightarrow> u8 list option" where
  "skb_peek skb i n = peek (skb_buf skb) (skb_off skb + i) n"

text \<open>
  \<open>skb_reserve\<close> moves \<open>data\<close> and \<open>tail\<close>; \<open>skb_put\<close> moves \<open>tail\<close> and gives the
  offset of the new area, or panics when the area would pass \<open>end\<close>.
\<close>

definition skb_reserve :: "nat \<Rightarrow> sk_buff \<Rightarrow> sk_buff" where
  "skb_reserve n skb = skb\<lparr>skb_off := skb_off skb + n\<rparr>"

definition skb_put :: "nat \<Rightarrow> sk_buff \<Rightarrow> (nat \<times> sk_buff) option" where
  "skb_put n skb =
     (let tail = skb_off skb + unat (skb_len skb)
      in if tail + n \<le> length (skb_buf skb)
         then Some (tail, skb\<lparr>skb_len := skb_len skb + of_nat n\<rparr>) else None)"

text \<open>\<open>skb_put\<close> followed by filling the whole new area with \<open>bs\<close>.\<close>

definition skb_put_bytes :: "u8 list \<Rightarrow> sk_buff \<Rightarrow> sk_buff option" where
  "skb_put_bytes bs skb =
     (case skb_put (length bs) skb of None \<Rightarrow> None
      | Some (p, skb') \<Rightarrow>
          map_option (\<lambda>buf. skb'\<lparr>skb_buf := buf\<rparr>) (poke (skb_buf skb') p bs))"

section \<open>Kernel services\<close>

text \<open>
  The two rate limits the module declares, and the one inside the only \<open>printk_ratelimited\<close>,
  a macro that asks a static limit of its own before it prints.
\<close>

datatype ratelimit_state = nanonet_ratelimit | nanonet_error_ratelimit | printk_site_ratelimit

text \<open>The fields of the trace event of a processed packet.\<close>

record packet_event =
  ev_src_ip :: u32
  ev_src_port :: u16
  ev_dst_ip :: u32
  ev_dst_port :: u16
  ev_process_time_ns :: u64
  ev_result :: int

record 'w kernel =
  ktime_get_real_ts64 :: "'w \<Rightarrow> (u64 \<times> u64) \<times> 'w"
  k_ratelimit :: "ratelimit_state \<Rightarrow> 'w \<Rightarrow> bool \<times> 'w"
  k_printk :: "string \<Rightarrow> 'w \<Rightarrow> 'w"
  k_jiffies :: "'w \<Rightarrow> u64"
  jhash_3words :: "u32 \<Rightarrow> u32 \<Rightarrow> u32 \<Rightarrow> u32 \<Rightarrow> u32"
  NET_IP_ALIGN :: nat
  k_kmalloc :: "nat \<Rightarrow> 'w \<Rightarrow> (nat \<times> u8 list) option \<times> 'w"
  k_kfree :: "nat \<Rightarrow> 'w \<Rightarrow> 'w"
  k_alloc_skb :: "nat \<Rightarrow> 'w \<Rightarrow> sk_buff option \<times> 'w"
  k_kfree_skb :: "sk_buff \<Rightarrow> 'w \<Rightarrow> 'w"
  k_dev_queue_xmit :: "sk_buff \<Rightarrow> 'w \<Rightarrow> int \<times> 'w"
  k_dev_get_by_name :: "string \<Rightarrow> 'w \<Rightarrow> net_device option \<times> 'w"
  k_dev_put :: "net_device \<Rightarrow> 'w \<Rightarrow> 'w"
  capable_net_admin :: "'w \<Rightarrow> bool"
  k_copy_from_user :: "u64 \<Rightarrow> nat \<Rightarrow> 'w \<Rightarrow> (nat \<times> u8 list) \<times> 'w"
  k_copy_to_user :: "u64 \<Rightarrow> u8 list \<Rightarrow> 'w \<Rightarrow> nat \<times> 'w"
  k_alloc_chrdev_region :: "'w \<Rightarrow> (int \<times> nat) \<times> 'w"
  k_unregister_chrdev_region :: "nat \<Rightarrow> 'w \<Rightarrow> 'w"
  k_cdev_add :: "nat \<Rightarrow> 'w \<Rightarrow> int \<times> 'w"
  k_cdev_del :: "'w \<Rightarrow> 'w"
  k_class_create :: "'w \<Rightarrow> (int + nat) \<times> 'w"
  k_class_destroy :: "nat \<Rightarrow> 'w \<Rightarrow> 'w"
  k_device_create :: "nat \<Rightarrow> nat \<Rightarrow> 'w \<Rightarrow> (int + nat) \<times> 'w"
  k_device_destroy :: "nat \<Rightarrow> nat \<Rightarrow> 'w \<Rightarrow> 'w"
  k_proc_create :: "'w \<Rightarrow> bool \<times> 'w"
  k_remove_proc_entry :: "'w \<Rightarrow> 'w"
  k_debugfs_create_dir :: "'w \<Rightarrow> nat option \<times> 'w"
  k_debugfs_create_file :: "nat \<Rightarrow> 'w \<Rightarrow> nat option \<times> 'w"
  k_debugfs_remove_recursive :: "nat option \<Rightarrow> 'w \<Rightarrow> 'w"
  k_ip_mc_join_group :: "u32 \<Rightarrow> int \<Rightarrow> 'w \<Rightarrow> int \<times> 'w"
  k_nf_register_net_hook :: "'w \<Rightarrow> int \<times> 'w"
  k_nf_unregister_net_hook :: "'w \<Rightarrow> 'w"
  k_trace_packet :: "packet_event \<Rightarrow> 'w \<Rightarrow> 'w"
  k_set_cpus_allowed :: "nat set \<Rightarrow> 'w \<Rightarrow> 'w"

section \<open>The globals\<close>

definition RESPONSE_POOL_SIZE :: nat where [simp]: "RESPONSE_POOL_SIZE = 256"
definition CONN_HASH_SIZE :: u32 where [simp]: "CONN_HASH_SIZE = 1024"

record response_pool =
  pool :: "nat \<Rightarrow> sk_buff option"
  pool_head :: nat
  pool_tail :: nat

record 'w nanonet =
  world :: 'w
  global_config :: ull_config
  global_stats :: ull_stats
  target_dev :: "net_device option"
  connection_hash :: "nat \<Rightarrow> ull_tcp_conn list"
  the_pool :: response_pool
  debug_stats :: ull_debug_stats
  nanonet_dev_number :: nat
  nanonet_class :: "nat option"
  nanonet_device :: "nat option"
  nanonet_debug_dir :: "nat option"
  nanonet_debug_stats :: "nat option"

text \<open>The initialisers of src/nanonet.c; everything else static is zero.\<close>

definition initial_config :: ull_config where
  "initial_config = \<lparr>enabled = False, target_ip = 0, target_port = 0, cfg_protocol = IPPROTO_UDP,
     response_ip = 0, response_port = 0, cfg_seq_num = 0, application_logic_type = 0,
     multicast = False, multicast_group = 0\<rparr>"

definition initial_stats :: ull_stats where
  "initial_stats = \<lparr>packets_processed = 0, packets_bypassed = 0, responses_sent = 0, stat_errors = 0,
     last_process_time_ns = 0, min_process_time_ns = - 1, max_process_time_ns = 0,
     avg_process_time_ns = 0, connections_active = 0, connections_dropped = 0\<rparr>"

definition initial_nanonet :: "'w \<Rightarrow> 'w nanonet" where
  "initial_nanonet w = \<lparr>world = w, global_config = initial_config, global_stats = initial_stats,
     target_dev = None, connection_hash = (\<lambda>_. []),
     the_pool = \<lparr>pool = (\<lambda>_. None), pool_head = 0, pool_tail = 0\<rparr>,
     debug_stats = \<lparr>total_interrupts = 0, cache_misses = 0, memory_allocations = 0,
       queue_full_events = 0, checksum_errors = 0, last_error = []\<rparr>,
     nanonet_dev_number = 0, nanonet_class = None, nanonet_device = None,
     nanonet_debug_dir = None, nanonet_debug_stats = None\<rparr>"

text \<open>A call of a service, with and without a result.\<close>

definition call :: "('w \<Rightarrow> 'a \<times> 'w) \<Rightarrow> 'w nanonet \<Rightarrow> 'a \<times> 'w nanonet" where
  "call f s = (let (r, w) = f (world s) in (r, s\<lparr>world := w\<rparr>))"

definition callu :: "('w \<Rightarrow> 'w) \<Rightarrow> 'w nanonet \<Rightarrow> 'w nanonet" where
  "callu f s = s\<lparr>world := f (world s)\<rparr>"

lemma call_eq: "call f s = (fst (f (world s)), s\<lparr>world := snd (f (world s))\<rparr>)"
  by (simp add: call_def split: prod.split)

text \<open>
  \<open>printk\<close> lines are passed to the kernel as they are; \<open>get_timestamp_ns\<close>, which four
  files define alike, multiplies and adds in 64 bits.
\<close>

definition printk :: "'w kernel \<Rightarrow> string \<Rightarrow> 'w nanonet \<Rightarrow> 'w nanonet" where
  "printk K msg = callu (k_printk K msg)"

definition printk_ratelimited :: "'w kernel \<Rightarrow> string \<Rightarrow> 'w nanonet \<Rightarrow> 'w nanonet" where
  "printk_ratelimited K msg s =
     (let (ok, s) = call (k_ratelimit K printk_site_ratelimit) s in if ok then printk K msg s else s)"

definition get_timestamp_ns :: "'w kernel \<Rightarrow> 'w nanonet \<Rightarrow> u64 \<times> 'w nanonet" where
  "get_timestamp_ns K s =
     (let ((tv_sec, tv_nsec), s) = call (ktime_get_real_ts64 K) s
      in (tv_sec * 1000000000 + tv_nsec, s))"

lemma get_timestamp_ns_eq:
  "get_timestamp_ns K s =
     (let r = ktime_get_real_ts64 K (world s)
      in (fst (fst r) * 1000000000 + snd (fst r), s\<lparr>world := snd r\<rparr>))"
  by (simp add: get_timestamp_ns_def call_eq Let_def split: prod.split)

end
