(* ===== verification/Kernel_Laws.thy ===== *)
theory Kernel_Laws
  imports NanoNet_State "HOL-Library.Multiset"
begin

text \<open>
  What the module relies on in the kernel, as named hypotheses: \<open>kernel_ledger\<close> says which
  resource each service acquires or releases, \<open>user_memory\<close> that a copy to user memory can
  be read back. The properties that need them assume them; nothing else is assumed of the
  services.
\<close>

section \<open>Resources\<close>

datatype resource =
    Block nat
  | SkBuff nat
  | Netdev net_device
  | Chrdev nat
  | Cdev
  | DevClass nat
  | ClassDevice nat nat
  | ProcEntry
  | DebugDir nat
  | McGroup u32 int
  | NfHook

definition acquired :: "('a \<Rightarrow> resource) \<Rightarrow> 'a option \<Rightarrow> resource multiset" where
  "acquired f r = (case r of None \<Rightarrow> {#} | Some x \<Rightarrow> {#f x#})"

lemma acquired_simps [simp]: "acquired f None = {#}" "acquired f (Some x) = {#f x#}"
  by (simp_all add: acquired_def)

text \<open>
  \<open>held w\<close> is what the module owns in the kernel state \<open>w\<close>. A call that fails acquires
  nothing; error numbers are negative; \<open>dev_queue_xmit\<close> consumes its buffer whatever it
  returns; removing a debugfs directory removes the files in it, which are not counted apart.
\<close>

definition memory_ledger :: "'w kernel \<Rightarrow> ('w \<Rightarrow> resource multiset) \<Rightarrow> bool" where
  "memory_ledger K held \<longleftrightarrow>
     (\<forall>w. held (snd (ktime_get_real_ts64 K w)) = held w)
   \<and> (\<forall>r w. held (snd (k_ratelimit K r w)) = held w)
   \<and> (\<forall>m w. held (k_printk K m w) = held w)
   \<and> (\<forall>e w. held (k_trace_packet K e w) = held w)
   \<and> (\<forall>n w. held (snd (k_kmalloc K n w)) = held w + acquired (Block \<circ> fst) (fst (k_kmalloc K n w)))
   \<and> (\<forall>a w. held (k_kfree K a w) = held w - {#Block a#})
   \<and> (\<forall>n w. held (snd (k_alloc_skb K n w)) = held w + acquired (SkBuff \<circ> skb_addr) (fst (k_alloc_skb K n w)))
   \<and> (\<forall>b w. held (k_kfree_skb K b w) = held w - {#SkBuff (skb_addr b)#})
   \<and> (\<forall>b w. held (snd (k_dev_queue_xmit K b w)) = held w - {#SkBuff (skb_addr b)#})
   \<and> (\<forall>n w. held (snd (k_dev_get_by_name K n w)) = held w + acquired Netdev (fst (k_dev_get_by_name K n w)))
   \<and> (\<forall>d w. held (k_dev_put K d w) = held w - {#Netdev d#})"

definition device_ledger :: "'w kernel \<Rightarrow> ('w \<Rightarrow> resource multiset) \<Rightarrow> bool" where
  "device_ledger K held \<longleftrightarrow>
     (\<forall>w. held (snd (k_alloc_chrdev_region K w)) = held w +
        (if fst (fst (k_alloc_chrdev_region K w)) < 0 then {#} else {#Chrdev (snd (fst (k_alloc_chrdev_region K w)))#}))
   \<and> (\<forall>n w. held (k_unregister_chrdev_region K n w) = held w - {#Chrdev n#})
   \<and> (\<forall>n w. held (snd (k_cdev_add K n w)) = held w + (if fst (k_cdev_add K n w) < 0 then {#} else {#Cdev#}))
   \<and> (\<forall>w. held (k_cdev_del K w) = held w - {#Cdev#})
   \<and> (\<forall>w. case fst (k_class_create K w) of
          Inl e \<Rightarrow> e < 0 \<and> held (snd (k_class_create K w)) = held w
        | Inr c \<Rightarrow> held (snd (k_class_create K w)) = held w + {#DevClass c#})
   \<and> (\<forall>c w. held (k_class_destroy K c w) = held w - {#DevClass c#})
   \<and> (\<forall>c n w. case fst (k_device_create K c n w) of
          Inl e \<Rightarrow> e < 0 \<and> held (snd (k_device_create K c n w)) = held w
        | Inr _ \<Rightarrow> held (snd (k_device_create K c n w)) = held w + {#ClassDevice c n#})
   \<and> (\<forall>c n w. held (k_device_destroy K c n w) = held w - {#ClassDevice c n#})
   \<and> (\<forall>w. held (snd (k_proc_create K w)) = held w + (if fst (k_proc_create K w) then {#ProcEntry#} else {#}))
   \<and> (\<forall>w. held (k_remove_proc_entry K w) = held w - {#ProcEntry#})"

definition hook_ledger :: "'w kernel \<Rightarrow> ('w \<Rightarrow> resource multiset) \<Rightarrow> bool" where
  "hook_ledger K held \<longleftrightarrow>
     (\<forall>w. held (snd (k_debugfs_create_dir K w)) = held w + acquired DebugDir (fst (k_debugfs_create_dir K w)))
   \<and> (\<forall>d w. held (snd (k_debugfs_create_file K d w)) = held w)
   \<and> (\<forall>d w. held (k_debugfs_remove_recursive K d w) = held w - acquired DebugDir d)
   \<and> (\<forall>g i w. held (snd (k_ip_mc_join_group K g i w)) = held w +
        (if fst (k_ip_mc_join_group K g i w) < 0 then {#} else {#McGroup g i#}))
   \<and> (\<forall>w. held (snd (k_nf_register_net_hook K w)) = held w + (if fst (k_nf_register_net_hook K w) < 0 then {#} else {#NfHook#}))
   \<and> (\<forall>w. held (k_nf_unregister_net_hook K w) = held w - {#NfHook#})"

definition kernel_ledger :: "'w kernel \<Rightarrow> ('w \<Rightarrow> resource multiset) \<Rightarrow> bool" where
  "kernel_ledger K held \<longleftrightarrow> memory_ledger K held \<and> device_ledger K held \<and> hook_ledger K held"

section \<open>User memory\<close>

text \<open>What \<open>copy_to_user\<close> wrote is what \<open>copy_from_user\<close> reads next at the same address.\<close>

definition user_memory :: "'w kernel \<Rightarrow> bool" where
  "user_memory K \<longleftrightarrow> (\<forall>arg bs w. fst (k_copy_to_user K arg bs w) = 0 \<longrightarrow>
     fst (k_copy_from_user K arg (length bs) (snd (k_copy_to_user K arg bs w))) = (0, bs))"

end
