(* ===== verification/Samples.thy ===== *)
theory Samples
  imports Kernel_Laws
begin

text \<open>
  A concrete kernel in which every service succeeds, and concrete packets and configurations:
  the inputs on which the properties with hypotheses are instantiated.
\<close>

section \<open>A kernel\<close>

text \<open>Its state: the clock, the next free address, user memory, and what the module holds.\<close>

record sample_world =
  sw_now :: u64
  sw_next :: nat
  sw_user :: "u64 \<Rightarrow> u8 list"
  sw_held :: "resource multiset"

definition sample_dev :: net_device where
  "sample_dev = \<lparr>dev_name = ''eth0'', ifindex = 2\<rparr>"

definition take_res :: "resource \<Rightarrow> sample_world \<Rightarrow> sample_world" where
  "take_res r w = w\<lparr>sw_held := add_mset r (sw_held w), sw_next := Suc (sw_next w)\<rparr>"

definition drop_res :: "resource \<Rightarrow> sample_world \<Rightarrow> sample_world" where
  "drop_res r w = w\<lparr>sw_held := sw_held w - {#r#}\<rparr>"

definition sample_skb :: "nat \<Rightarrow> nat \<Rightarrow> sk_buff" where
  "sample_skb addr n = \<lparr>skb_addr = addr, skb_buf = replicate n 0, skb_off = 0, skb_len = 0,
     skb_dev = None, skb_protocol = 0\<rparr>"

definition sample_kernel :: "sample_world kernel" where
  "sample_kernel = \<lparr>
     ktime_get_real_ts64 = (\<lambda>w. ((1700000000, sw_now w), w\<lparr>sw_now := sw_now w + 250\<rparr>)),
     k_ratelimit = (\<lambda>_ w. (True, w)),
     k_printk = (\<lambda>_ w. w),
     k_jiffies = sw_now,
     jhash_3words = (\<lambda>a b c d. a + b + c + d),
     NET_IP_ALIGN = 2,
     k_kmalloc = (\<lambda>n w. (Some (sw_next w, replicate n 0), take_res (Block (sw_next w)) w)),
     k_kfree = (\<lambda>a. drop_res (Block a)),
     k_alloc_skb = (\<lambda>n w. (Some (sample_skb (sw_next w) n), take_res (SkBuff (sw_next w)) w)),
     k_kfree_skb = (\<lambda>b. drop_res (SkBuff (skb_addr b))),
     k_dev_queue_xmit = (\<lambda>b w. (0, drop_res (SkBuff (skb_addr b)) w)),
     k_dev_get_by_name = (\<lambda>_ w. (Some sample_dev, take_res (Netdev sample_dev) w)),
     k_dev_put = (\<lambda>d. drop_res (Netdev d)),
     capable_net_admin = (\<lambda>_. True),
     k_copy_from_user = (\<lambda>arg n w. ((0, take n (sw_user w arg)), w)),
     k_copy_to_user = (\<lambda>arg bs w. (0, w\<lparr>sw_user := (sw_user w)(arg := bs)\<rparr>)),
     k_alloc_chrdev_region = (\<lambda>w. ((0, sw_next w), take_res (Chrdev (sw_next w)) w)),
     k_unregister_chrdev_region = (\<lambda>n. drop_res (Chrdev n)),
     k_cdev_add = (\<lambda>_ w. (0, take_res Cdev w)),
     k_cdev_del = drop_res Cdev,
     k_class_create = (\<lambda>w. (Inr (sw_next w), take_res (DevClass (sw_next w)) w)),
     k_class_destroy = (\<lambda>c. drop_res (DevClass c)),
     k_device_create = (\<lambda>c n w. (Inr (sw_next w), take_res (ClassDevice c n) w)),
     k_device_destroy = (\<lambda>c n. drop_res (ClassDevice c n)),
     k_proc_create = (\<lambda>w. (True, take_res ProcEntry w)),
     k_remove_proc_entry = drop_res ProcEntry,
     k_debugfs_create_dir = (\<lambda>w. (Some (sw_next w), take_res (DebugDir (sw_next w)) w)),
     k_debugfs_create_file = (\<lambda>_ w. (Some (sw_next w), w)),
     k_debugfs_remove_recursive = (\<lambda>d. case d of None \<Rightarrow> id | Some n \<Rightarrow> drop_res (DebugDir n)),
     k_ip_mc_join_group = (\<lambda>g i w. (0, take_res (McGroup g i) w)),
     k_nf_register_net_hook = (\<lambda>w. (0, take_res NfHook w)),
     k_nf_unregister_net_hook = drop_res NfHook,
     k_trace_packet = (\<lambda>_ w. w),
     k_set_cpus_allowed = (\<lambda>_ w. w)\<rparr>"

lemma sample_services [simp]:
  "ktime_get_real_ts64 sample_kernel = (\<lambda>w. ((1700000000, sw_now w), w\<lparr>sw_now := sw_now w + 250\<rparr>))"
  "k_ratelimit sample_kernel = (\<lambda>_ w. (True, w))"
  "k_printk sample_kernel = (\<lambda>_ w. w)"
  "k_jiffies sample_kernel = sw_now"
  "jhash_3words sample_kernel = (\<lambda>a b c d. a + b + c + d)"
  "NET_IP_ALIGN sample_kernel = 2"
  "k_kmalloc sample_kernel = (\<lambda>n w. (Some (sw_next w, replicate n 0), take_res (Block (sw_next w)) w))"
  "k_kfree sample_kernel = (\<lambda>a. drop_res (Block a))"
  "k_alloc_skb sample_kernel = (\<lambda>n w. (Some (sample_skb (sw_next w) n), take_res (SkBuff (sw_next w)) w))"
  "k_kfree_skb sample_kernel = (\<lambda>b. drop_res (SkBuff (skb_addr b)))"
  "k_dev_queue_xmit sample_kernel = (\<lambda>b w. (0, drop_res (SkBuff (skb_addr b)) w))"
  "k_dev_get_by_name sample_kernel = (\<lambda>_ w. (Some sample_dev, take_res (Netdev sample_dev) w))"
  "k_dev_put sample_kernel = (\<lambda>d. drop_res (Netdev d))"
  "capable_net_admin sample_kernel = (\<lambda>_. True)"
  "k_copy_from_user sample_kernel = (\<lambda>arg n w. ((0, take n (sw_user w arg)), w))"
  "k_copy_to_user sample_kernel = (\<lambda>arg bs w. (0, w\<lparr>sw_user := (sw_user w)(arg := bs)\<rparr>))"
  "k_alloc_chrdev_region sample_kernel = (\<lambda>w. ((0, sw_next w), take_res (Chrdev (sw_next w)) w))"
  "k_unregister_chrdev_region sample_kernel = (\<lambda>n. drop_res (Chrdev n))"
  "k_cdev_add sample_kernel = (\<lambda>_ w. (0, take_res Cdev w))"
  "k_cdev_del sample_kernel = drop_res Cdev"
  "k_class_create sample_kernel = (\<lambda>w. (Inr (sw_next w), take_res (DevClass (sw_next w)) w))"
  "k_class_destroy sample_kernel = (\<lambda>c. drop_res (DevClass c))"
  "k_device_create sample_kernel = (\<lambda>c n w. (Inr (sw_next w), take_res (ClassDevice c n) w))"
  "k_device_destroy sample_kernel = (\<lambda>c n. drop_res (ClassDevice c n))"
  "k_proc_create sample_kernel = (\<lambda>w. (True, take_res ProcEntry w))"
  "k_remove_proc_entry sample_kernel = drop_res ProcEntry"
  "k_debugfs_create_dir sample_kernel = (\<lambda>w. (Some (sw_next w), take_res (DebugDir (sw_next w)) w))"
  "k_debugfs_create_file sample_kernel = (\<lambda>_ w. (Some (sw_next w), w))"
  "k_debugfs_remove_recursive sample_kernel = (\<lambda>d. case d of None \<Rightarrow> id | Some n \<Rightarrow> drop_res (DebugDir n))"
  "k_ip_mc_join_group sample_kernel = (\<lambda>g i w. (0, take_res (McGroup g i) w))"
  "k_nf_register_net_hook sample_kernel = (\<lambda>w. (0, take_res NfHook w))"
  "k_nf_unregister_net_hook sample_kernel = drop_res NfHook"
  "k_trace_packet sample_kernel = (\<lambda>_ w. w)"
  by (simp_all add: sample_kernel_def)

definition sample_world :: sample_world where
  "sample_world = \<lparr>sw_now = 1000, sw_next = 100, sw_user = (\<lambda>_. []), sw_held = {#}\<rparr>"

lemma sample_ledger: "kernel_ledger sample_kernel sw_held"
  unfolding kernel_ledger_def
proof (intro conjI)
  show "memory_ledger sample_kernel sw_held"
    by (simp add: memory_ledger_def take_res_def drop_res_def sample_skb_def)
  show "device_ledger sample_kernel sw_held"
    by (simp add: device_ledger_def take_res_def drop_res_def)
  show "hook_ledger sample_kernel sw_held"
    by (simp add: hook_ledger_def take_res_def drop_res_def split: option.split)
qed

lemma sample_user_memory: "user_memory sample_kernel"
  by (simp add: user_memory_def)

section \<open>Packets\<close>

text \<open>
  Market data for AAPL at 99.99 in a UDP datagram from 192.168.1.1 to 192.168.1.100, port 8080,
  with the checksum that the parser accepts, and the same packet with the correct one.
\<close>

definition sample_market :: "u8 list" where
  "sample_market = [65, 65, 80, 76, 32, 32, 32, 32, 0x0F, 0x27, 0, 0, 0xE8, 0x03, 0, 0,
     0, 0, 0, 0, 0, 0, 0, 0]"

definition sample_eth :: "u8 list" where
  "sample_eth = [1, 0, 94, 1, 1, 1, 2, 0, 0, 0, 0, 1, 8, 0]"

definition sample_udp_packet :: "u8 \<Rightarrow> u8 \<Rightarrow> u8 list" where
  "sample_udp_packet c0 c1 = sample_eth
     @ [0x45, 0, 0, 0x34, 0, 0, 0x40, 0, 0x40, 0x11, c0, c1, 192, 168, 1, 1, 192, 168, 1, 100]
     @ [0x30, 0x39, 0x1F, 0x90, 0, 32, 0, 0] @ sample_market"

text \<open>A TCP segment with the SYN flag, to port 22 of the same host, without data.\<close>

definition sample_tcp_packet :: "u8 \<Rightarrow> u8 \<Rightarrow> u8 list" where
  "sample_tcp_packet c0 c1 = sample_eth
     @ [0x45, 0, 0, 0x28, 0, 0, 0x40, 0, 0x40, 0x06, c0, c1, 192, 168, 1, 1, 192, 168, 1, 100]
     @ [0x30, 0x39, 0, 22, 0, 0, 0, 1, 0, 0, 0, 0, 0x50, 2, 16, 0, 0, 0, 0, 0]"

definition sample_received :: "u8 list \<Rightarrow> sk_buff" where
  "sample_received bs = \<lparr>skb_addr = 1, skb_buf = bs, skb_off = 0, skb_len = of_nat (length bs),
     skb_dev = Some sample_dev, skb_protocol = 8\<rparr>"

text \<open>The headers of a SYN segment to the configured port.\<close>

definition sample_iphdr :: ull_iphdr where
  "sample_iphdr = \<lparr>version_ihl = 0x45, tos = 0, tot_len = 0x2800, ip_id = 0, frag_off = 0x40, ttl = 0x40,
     ip_protocol = 6, ip_check = 0, saddr = 0x0101A8C0, daddr = 0x6401A8C0\<rparr>"

definition sample_syn :: ull_tcphdr where
  "sample_syn = \<lparr>tcp_source = 0x3930, tcp_dest = 0x901F, seq = 0x01000000, ack_seq = 0, res1 = 0, doff = 5,
     fin = False, syn = True, rst = False, psh = False, ack = False, urg = False, ece = False, cwr = False,
     window = 0x10, tcp_check = 0, urg_ptr = 0\<rparr>"

section \<open>A configured module\<close>

text \<open>Target 192.168.1.100:8080, responses from 192.168.1.200:9999.\<close>

definition sample_config :: "u8 \<Rightarrow> ull_config" where
  "sample_config proto = \<lparr>enabled = True, target_ip = 0x6401A8C0, target_port = 0x901F, cfg_protocol = proto,
     response_ip = 0xC801A8C0, response_port = 0x0F27, cfg_seq_num = 0, application_logic_type = 0,
     multicast = False, multicast_group = 0\<rparr>"

definition sample_state :: "u8 \<Rightarrow> sample_world nanonet" where
  "sample_state proto = (initial_nanonet sample_world)\<lparr>global_config := sample_config proto\<rparr>"

lemma sample_state_simps [simp]:
  "world (sample_state proto) = sample_world"
  "global_config (sample_state proto) = sample_config proto"
  "global_stats (sample_state proto) = initial_stats"
  "connection_hash (sample_state proto) = (\<lambda>_. [])"
  "the_pool (sample_state proto) = \<lparr>pool = (\<lambda>_. None), pool_head = 0, pool_tail = 0\<rparr>"
  "last_error (debug_stats (sample_state proto)) = []"
  by (simp_all add: sample_state_def initial_nanonet_def)

end
