(* ===== verification/Debug.thy ===== *)
theory Debug
  imports Samples
begin

text \<open>
  src/debug.c: the rate-limited error log with its 256-byte buffers, the debugfs file
  and its set-up, and the trace event of a processed packet.
\<close>

section \<open>The error log\<close>

text \<open>\<open>snprintf\<close> into a buffer of \<open>n\<close> bytes keeps the first \<open>n - 1\<close> characters.\<close>

definition snprintf :: "nat \<Rightarrow> string \<Rightarrow> string" where
  "snprintf n msg = take (n - 1) msg"

text \<open>
  \<open>nanonet_log_error\<close>; \<open>msg\<close> is the format applied to its arguments, \<open>log_buffer\<close> what
  \<open>vsnprintf\<close> leaves of it in the array \<open>buffer\<close> on the stack. The time is read before the
  rate limit is asked.
\<close>

definition log_buffer :: "string \<Rightarrow> string" where
  "log_buffer msg = snprintf 256 msg"

definition nanonet_log_error :: "'w kernel \<Rightarrow> string \<Rightarrow> 'w nanonet \<Rightarrow> 'w nanonet" where
  "nanonet_log_error K msg s =
     (let (ts, s) = get_timestamp_ns K s;
          (ok, s) = call (k_ratelimit K nanonet_error_ratelimit) s
      in if \<not> ok then s
         else let line = snprintf 256 (''['' @ fmt_u (unat ts) @ '' ns] '' @ log_buffer msg);
                  s = s\<lparr>debug_stats := (debug_stats s)\<lparr>last_error := line\<rparr>\<rparr>
              in printk K (''NANONET: '' @ line) s)"

lemmas log_error_unfold =
  nanonet_log_error_def get_timestamp_ns_eq call_eq callu_def printk_def Let_def

text \<open>Logging changes the kernel and the last error message, nothing else.\<close>

lemma log_error_frame [frame_simps]:
  "global_config (nanonet_log_error K msg s) = global_config s"
  "global_stats (nanonet_log_error K msg s) = global_stats s"
  "target_dev (nanonet_log_error K msg s) = target_dev s"
  "connection_hash (nanonet_log_error K msg s) = connection_hash s"
  "the_pool (nanonet_log_error K msg s) = the_pool s"
  "nanonet_dev_number (nanonet_log_error K msg s) = nanonet_dev_number s"
  "nanonet_class (nanonet_log_error K msg s) = nanonet_class s"
  "nanonet_device (nanonet_log_error K msg s) = nanonet_device s"
  "nanonet_debug_dir (nanonet_log_error K msg s) = nanonet_debug_dir s"
  "nanonet_debug_stats (nanonet_log_error K msg s) = nanonet_debug_stats s"
  by (simp_all add: log_error_unfold)

text \<open>The frame of the two primitives every component uses.\<close>

lemma timestamp_frame [frame_simps]:
  "global_config (snd (get_timestamp_ns K s)) = global_config s"
  "global_stats (snd (get_timestamp_ns K s)) = global_stats s"
  "target_dev (snd (get_timestamp_ns K s)) = target_dev s"
  "connection_hash (snd (get_timestamp_ns K s)) = connection_hash s"
  "the_pool (snd (get_timestamp_ns K s)) = the_pool s"
  "debug_stats (snd (get_timestamp_ns K s)) = debug_stats s"
  by (simp_all add: get_timestamp_ns_eq Let_def)

lemma call_frame [frame_simps]:
  "global_config (snd (call f s)) = global_config s"
  "global_stats (snd (call f s)) = global_stats s"
  "target_dev (snd (call f s)) = target_dev s"
  "connection_hash (snd (call f s)) = connection_hash s"
  "the_pool (snd (call f s)) = the_pool s"
  "debug_stats (snd (call f s)) = debug_stats s"
  "global_config (callu g s) = global_config s"
  "global_stats (callu g s) = global_stats s"
  "target_dev (callu g s) = target_dev s"
  "connection_hash (callu g s) = connection_hash s"
  "the_pool (callu g s) = the_pool s"
  "debug_stats (callu g s) = debug_stats s"
  by (simp_all add: call_eq callu_def)

lemma cut_twice: "snprintf 256 (xs @ ys @ zs @ log_buffer msg) = take 255 (xs @ ys @ zs @ msg)"
  by (simp add: snprintf_def log_buffer_def)

text \<open>C40. The error log. The formatted message fits the 256-byte array on the stack and the stored line its own 256
  bytes, each with a terminating zero. When the rate limit allows it, the stored and printed
  line is the time stamp and the whole message cut once to 255 characters, although it was cut
  twice; nothing else of the module changes, and nothing at all when the limit is reached.\<close>

theorem log_error_effect:
  "let t = ktime_get_real_ts64 K (world s);
       r = k_ratelimit K nanonet_error_ratelimit (snd t);
       line = take 255 (''['' @ fmt_u (unat (fst (fst t) * 1000000000 + snd (fst t))) @ '' ns] '' @ msg)
   in length (log_buffer msg) < 256 \<and> length line < 256
      \<and> nanonet_log_error K msg s =
          (if fst r
           then s\<lparr>world := k_printk K (''NANONET: '' @ line) (snd r), debug_stats := (debug_stats s)\<lparr>last_error := line\<rparr>\<rparr>
           else s\<lparr>world := snd r\<rparr>)"
  unfolding log_error_unfold cut_twice
  by (simp add: log_buffer_def snprintf_def min_less_iff_disj del: take_append append_Cons)

section \<open>The debugfs file\<close>

text \<open>The text of \<open>/sys/kernel/debug/nanonet/stats\<close>.\<close>

definition nanonet_debug_stats_show :: "'w nanonet \<Rightarrow> string" where
  "nanonet_debug_stats_show s =
     (let d = debug_stats s; nl = [char_of (10 :: nat)]
      in ''NanoNet Debug Statistics'' @ nl @ ''============================'' @ nl
       @ ''Total Interrupts: '' @ fmt_u (unat (total_interrupts d)) @ nl
       @ ''Cache Misses: '' @ fmt_u (unat (cache_misses d)) @ nl
       @ ''Memory Allocations: '' @ fmt_u (unat (memory_allocations d)) @ nl
       @ ''Queue Full Events: '' @ fmt_u (unat (queue_full_events d)) @ nl
       @ ''Checksum Errors: '' @ fmt_u (unat (checksum_errors d)) @ nl
       @ ''Last Error: '' @ last_error d @ nl)"

definition nanonet_debug_init :: "'w kernel \<Rightarrow> 'w nanonet \<Rightarrow> int \<times> 'w nanonet" where
  "nanonet_debug_init K s =
     (let (dir, s) = call (k_debugfs_create_dir K) s;
          s = s\<lparr>nanonet_debug_dir := dir\<rparr>
      in case dir of
           None \<Rightarrow> (- ENOMEM, printk K ''NANONET: Failed to create debugfs directory'' s)
         | Some d \<Rightarrow>
             (let (f, s) = call (k_debugfs_create_file K d) s;
                  s = s\<lparr>nanonet_debug_stats := f\<rparr>
              in case f of
                   None \<Rightarrow>
                     (let s = callu (k_debugfs_remove_recursive K (Some d)) s
                      in (- ENOMEM, printk K ''NANONET: Failed to create debugfs stats file'' s))
                 | Some _ \<Rightarrow> (0, s)))"

definition nanonet_debug_cleanup :: "'w kernel \<Rightarrow> 'w nanonet \<Rightarrow> 'w nanonet" where
  "nanonet_debug_cleanup K s = callu (k_debugfs_remove_recursive K (nanonet_debug_dir s)) s"

section \<open>The trace event\<close>

text \<open>\<open>%pI4\<close> prints the four bytes of an address in memory order.\<close>

definition fmt_ipv4 :: "u32 \<Rightarrow> string" where
  "fmt_ipv4 a = (case stw 4 a of
       [b0, b1, b2, b3] \<Rightarrow>
         fmt_u (unat b0) @ ''.'' @ fmt_u (unat b1) @ ''.'' @ fmt_u (unat b2) @ ''.'' @ fmt_u (unat b3)
     | _ \<Rightarrow> [])"

definition nanonet_packet_processed :: "packet_event \<Rightarrow> string" where
  "nanonet_packet_processed e =
     ''src='' @ fmt_ipv4 (ev_src_ip e) @ '':'' @ fmt_u (unat (ev_src_port e)) @
     '' dst='' @ fmt_ipv4 (ev_dst_ip e) @ '':'' @ fmt_u (unat (ev_dst_port e)) @
     '' time='' @ fmt_u (unat (ev_process_time_ns e)) @ '' ns result='' @ fmt_d (ev_result e)"

end
