(* ===== verification/Micro_Stack.thy ===== *)
theory Micro_Stack
  imports Debug
begin

text \<open>
  src/micro_stack.c: the Internet checksum and the parser that takes a received buffer to its
  headers and payload. The checksum is compared with RFC 1071; the parser's pointers are
  offsets into the buffer, and a read outside the buffer is the result \<open>None\<close>.
\<close>

unbundle bit_operations_syntax

section \<open>The Internet checksum\<close>

fun csum_add :: "u8 list \<Rightarrow> u32 \<Rightarrow> u32" where
  "csum_add (a # b # rest) acc = csum_add rest (acc + ucast (ldw [a, b] :: u16))"
| "csum_add [b] acc = acc + push_bit 8 (ucast b)"
| "csum_add [] acc = acc"

lemma unat_high_half: "unat (drop_bit 16 (s :: u32)) = unat s div 65536"
  by (simp add: drop_bit_eq_div unat_div_distrib)

lemma unat_low_half: "unat (s AND 0xFFFF :: u32) = unat s mod 65536"
proof -
  have "s AND 0xFFFF = take_bit 16 s"
    by (simp add: take_bit_eq_mask mask_eq_exp_minus_1)
  then show ?thesis
    by (simp add: take_bit_eq_mod unat_mod_distrib)
qed

lemma unat_fold_step:
  "unat ((s AND 0xFFFF) + drop_bit 16 s :: u32) = unat s mod 65536 + unat s div 65536"
proof -
  have "unat s < 2 ^ 32" using unsigned_less [of s] by simp
  then have "unat s div 65536 < 65536" by simp
  moreover have "unat s mod 65536 < 65536" by simp
  ultimately show ?thesis
    by (simp add: unat_word_ariths unat_high_half unat_low_half)
qed

function csum_fold :: "u32 \<Rightarrow> u32" where
  "csum_fold acc =
     (if drop_bit 16 acc \<noteq> 0 then csum_fold ((acc AND 0xFFFF) + drop_bit 16 acc) else acc)"
  by pat_completeness auto
termination
proof (relation "measure unat")
  fix acc :: u32
  assume "drop_bit 16 acc \<noteq> 0"
  then have "0 < unat acc div 65536"
    by (metis unat_high_half unat_gt_0)
  then have "unat acc mod 65536 + unat acc div 65536 < unat acc"
    using div_mult_mod_eq [of "unat acc" 65536] by linarith
  then show "((acc AND 0xFFFF) + drop_bit 16 acc, acc) \<in> measure unat"
    by (simp add: unat_fold_step)
qed simp

declare csum_fold.simps [simp del]

definition nanonet_compute_checksum :: "u8 list \<Rightarrow> u16" where
  "nanonet_compute_checksum data = ucast (NOT (csum_fold (csum_add data 0)))"

definition oc_fold :: "nat \<Rightarrow> nat" where
  "oc_fold n = (if n = 0 then 0 else (n - 1) mod 65535 + 1)"

lemma oc_fold_le: "oc_fold n \<le> 65535"
  by (simp add: oc_fold_def Suc_le_eq)

lemma oc_fold_small: "n \<le> 65535 \<Longrightarrow> oc_fold n = n"
  by (simp add: oc_fold_def)

lemma oc_fold_cong:
  assumes "a mod 65535 = b mod 65535" and "a = 0 \<longleftrightarrow> b = 0"
  shows "oc_fold a = oc_fold b"
proof (cases "a = 0")
  case False
  then have "a - 1 + 65535 = a + 65534" "b - 1 + 65535 = b + 65534"
    using assms(2) by simp_all
  then have "(a - 1) mod 65535 = (a + 65534) mod 65535" "(b - 1) mod 65535 = (b + 65534) mod 65535"
    by (metis mod_add_self2)+
  with False assms show ?thesis
    by (simp add: oc_fold_def) (metis mod_add_left_eq)
qed (use assms in \<open>simp add: oc_fold_def\<close>)

lemma oc_fold_mod: "oc_fold n mod 65535 = n mod 65535"
  unfolding oc_fold_def by (cases n) (simp_all add: mod_Suc_eq)

lemma oc_fold_eq_0_iff [simp]: "oc_fold n = 0 \<longleftrightarrow> n = 0"
  by (simp add: oc_fold_def)

lemma unat_csum_fold: "unat (csum_fold s) = oc_fold (unat s)"
proof (induction s rule: csum_fold.induct)
  case (1 s)
  show ?case
  proof (cases "drop_bit 16 s = 0")
    case True
    then have "unat s div 65536 = 0" by (metis unat_high_half unat_0)
    then have "unat s \<le> 65535" by simp
    with True show ?thesis by (simp add: csum_fold.simps [of s] oc_fold_small)
  next
    case False
    have "unat s = (unat s mod 65536 + unat s div 65536) + 65535 * (unat s div 65536)"
      using div_mult_mod_eq [of "unat s" 65536] by linarith
    then have "(unat s mod 65536 + unat s div 65536) mod 65535 = unat s mod 65535"
      by (metis mod_mult_self2)
    moreover have "(unat s mod 65536 + unat s div 65536 = 0) = (unat s = 0)"
      using div_mult_mod_eq [of "unat s" 65536] by auto
    ultimately have "oc_fold (unat s mod 65536 + unat s div 65536) = oc_fold (unat s)"
      by (rule oc_fold_cong)
    with False "1.IH" show ?thesis
      by (simp add: csum_fold.simps [of s] unat_fold_step)
  qed
qed

text \<open>Sum of the little-endian 16-bit words; the code's treatment of an odd last byte.\<close>

fun word_sum :: "u8 list \<Rightarrow> nat" where
  "word_sum (a # b # rest) = (unat a + 256 * unat b) + word_sum rest"
| "word_sum [b] = 256 * unat b"
| "word_sum [] = 0"

lemma word_sum_le: "word_sum xs \<le> 65535 * ((length xs + 1) div 2)"
proof (induction xs rule: word_sum.induct)
  case (1 a b rest)
  have "unat a + 256 * unat b \<le> 65535"
    by (rule pair_le)
  moreover have "word_sum (a # b # rest) = unat a + 256 * unat b + word_sum rest"
    by simp
  moreover have "(length (a # b # rest) + 1) div 2 = Suc ((length rest + 1) div 2)"
    by simp
  ultimately show ?case using 1 by (simp only: mult_Suc_right)
next
  case (2 b)
  show ?case using unat_byte_le [of b] by simp
qed simp

lemma unat_csum_add:
  "unat acc + word_sum xs < 2 ^ 32 \<Longrightarrow> unat (csum_add xs acc) = unat acc + word_sum xs"
proof (induction xs acc rule: csum_add.induct)
  case (1 a b rest acc)
  have w: "unat (ucast (ldw [a, b] :: u16) :: u32) = unat a + 256 * unat b"
    using pair_le [of a b] by (simp add: unsigned_ucast_eq take_bit_eq_mod unat_ldw_pair)
  have "unat (acc + ucast (ldw [a, b] :: u16)) = unat acc + (unat a + 256 * unat b)"
    using 1(2) by (subst unat_word_ariths) (simp add: w)
  with 1 show ?case by simp
next
  case (2 b acc)
  have "unat (push_bit 8 (ucast b) :: u32) = 256 * unat b"
    using unat_byte_le [of b]
    by (simp add: push_bit_eq_mult unat_word_ariths unsigned_ucast_eq take_bit_eq_mod)
  with 2 show ?case by (simp add: unat_word_ariths)
qed simp

text \<open>Up to 65535 bytes the 32-bit acc cannot wrap.\<close>

lemma unat_csum_add_0:
  assumes "length xs \<le> 65535"
  shows "unat (csum_add xs 0) = word_sum xs"
proof -
  have "word_sum xs \<le> 65535 * 32768"
  proof -
    have "(length xs + 1) div 2 \<le> 32768" using assms by simp
    then show ?thesis using word_sum_le [of xs] by linarith
  qed
  then show ?thesis by (simp add: unat_csum_add)
qed

lemma unat_not_u16: "unat (NOT w :: u16) = 65535 - unat w"
proof -
  have "NOT w = 65535 - w"
    by (simp add: not_eq_complement)
  with unat_u16_le [of w] show ?thesis by (simp add: unat_sub_if')
qed

lemma unat_compute_checksum:
  assumes "length xs \<le> 65535"
  shows "unat (nanonet_compute_checksum xs) = 65535 - oc_fold (word_sum xs)"
proof -
  define f where "f = csum_fold (csum_add xs 0)"
  have f: "unat f = oc_fold (word_sum xs)"
    by (simp add: f_def unat_csum_fold unat_csum_add_0 assms)
  have "ucast (NOT f) = NOT (ucast f :: u16)"
    by (rule bit_word_eqI) (simp add: bit_simps)
  moreover have "unat (ucast f :: u16) = oc_fold (word_sum xs)"
    using oc_fold_le [of "word_sum xs"] by (simp add: unsigned_ucast_eq take_bit_eq_mod f)
  ultimately show ?thesis
    by (simp add: nanonet_compute_checksum_def f_def unat_not_u16)
qed


subsection \<open>RFC 1071\<close>

fun be_sum :: "u8 list \<Rightarrow> nat" where
  "be_sum (a # b # rest) = (256 * unat a + unat b) + be_sum rest"
| "be_sum [b] = 256 * unat b"
| "be_sum [] = 0"

definition rfc1071 :: "u8 list \<Rightarrow> u16" where
  "rfc1071 xs = of_nat (65535 - oc_fold (be_sum xs))"

lemma be_sum_mod: "even (length xs) \<Longrightarrow> (256 * word_sum xs) mod 65535 = be_sum xs mod 65535"
proof (induction xs rule: be_sum.induct)
  case (1 a b rest)
  have "256 * word_sum (a # b # rest) = (256 * unat a + unat b + 65535 * unat b) + 256 * word_sum rest"
    by simp
  also have "\<dots> mod 65535 = ((256 * unat a + unat b) mod 65535 + (256 * word_sum rest) mod 65535) mod 65535"
    by (metis mod_add_eq mod_mult_self2)
  also have "\<dots> = be_sum (a # b # rest) mod 65535"
    using 1 by (simp add: mod_add_eq)
  finally show ?case .
qed simp_all

lemma be_sum_eq_0_iff: "even (length xs) \<Longrightarrow> be_sum xs = 0 \<longleftrightarrow> word_sum xs = 0"
  by (induction xs rule: be_sum.induct) auto

lemma unat_ntohs: "unat (ntohs w) = unat w div 256 + 256 * (unat w mod 256)"
proof -
  have "unat w div 256 < 256"
    using unat_u16_le [of w] by simp
  then show ?thesis
    by (simp add: ntohs_def stw_def numeral_2_eq_2 unat_ldw_pair unat_of_nat)
qed

lemma ntohs_complement:
  assumes "unat w = 65535 - v" and "v \<le> 65535"
  shows "unat (ntohs w) = 65535 - (v div 256 + 256 * (v mod 256))"
proof -
  define q r where "q = v div 256" and "r = v mod 256"
  have v: "v = 256 * q + r" "q \<le> 255" "r \<le> 255"
    using assms(2) by (auto simp: q_def r_def)
  define q' r' where "q' = 255 - q" and "r' = 255 - r"
  have "65535 - v = r' + 256 * q'" "r' < 256"
    using v by (simp_all add: q'_def r'_def)
  then have "(65535 - v) div 256 = 255 - q" "(65535 - v) mod 256 = 255 - r"
    by (simp_all add: q'_def [symmetric] r'_def [symmetric])
  then have "unat (ntohs w) = (255 - q) + 256 * (255 - r)"
    by (simp add: unat_ntohs assms(1))
  also have "\<dots> = 65535 - (q + 256 * r)"
    using v(2,3) by linarith
  finally show ?thesis by (simp add: q_def r_def)
qed

lemma compute_checksum_rfc1071:
  assumes "even (length xs)" and "length xs \<le> 65535"
  shows "ntohs (nanonet_compute_checksum xs) = rfc1071 xs"
proof -
  define v where "v = oc_fold (word_sum xs)"
  define v' where "v' = v div 256 + 256 * (v mod 256)"
  have v: "v \<le> 65535" by (simp add: v_def oc_fold_le)
  then have v': "v' \<le> 65535" unfolding v'_def by auto
  have "256 * v = v' + 65535 * (v div 256)"
    using div_mult_mod_eq [of v 256] unfolding v'_def by linarith
  then have "v' mod 65535 = (256 * v) mod 65535"
    by (metis mod_mult_self2)
  also have "\<dots> = (256 * word_sum xs) mod 65535"
    unfolding v_def by (metis oc_fold_mod mod_mult_right_eq)
  also have "\<dots> = be_sum xs mod 65535"
    using assms(1) by (rule be_sum_mod)
  finally have "oc_fold v' = oc_fold (be_sum xs)"
  proof (rule oc_fold_cong)
    have "v' = 0 \<longleftrightarrow> v = 0"
      unfolding v'_def using div_mult_mod_eq [of v 256] by auto
    then show "v' = 0 \<longleftrightarrow> be_sum xs = 0"
      using be_sum_eq_0_iff [OF assms(1)] by (simp add: v_def)
  qed
  then have "unat (ntohs (nanonet_compute_checksum xs)) = 65535 - oc_fold (be_sum xs)"
    using ntohs_complement [OF _ v, of "nanonet_compute_checksum xs"]
    by (simp add: unat_compute_checksum assms v_def [symmetric] v'_def [symmetric] oc_fold_small v')
  then show ?thesis
    by (simp add: rfc1071_def unat_of_nat word_unat_eq_iff)
qed

lemma word_sum_append: "even (length xs) \<Longrightarrow> word_sum (xs @ ys) = word_sum xs + word_sum ys"
  by (induction xs rule: word_sum.induct) auto

text \<open>An odd last byte is summed as the high byte of a word, as if a zero stood before it.\<close>

lemma checksum_odd:
  assumes "even (length xs)" and "length xs + 2 \<le> 65535"
  shows "nanonet_compute_checksum (xs @ [b]) = nanonet_compute_checksum (xs @ [0, b])"
proof -
  have "word_sum (xs @ [b]) = word_sum (xs @ [0, b])"
    using assms(1) by (simp add: word_sum_append)
  then show ?thesis
    using assms(2) by (simp add: word_unat_eq_iff unat_compute_checksum)
qed

text \<open>Storing the checksum of the data with the field zeroed makes the whole sum to zero.\<close>

lemma word_sum_stw: "word_sum (stw 2 (c :: u16) @ ys) = unat c + word_sum ys"
proof -
  have "unat c < 65536"
    using unat_u16_le [of c] by simp
  then show ?thesis
    by (simp add: stw_def numeral_2_eq_2 unat_of_nat)
qed

lemma compute_checksum_verifies:
  assumes "even (length pre)" and "length pre + 2 + length post \<le> 65535"
    and "c = nanonet_compute_checksum (pre @ [0, 0] @ post)"
  shows "nanonet_compute_checksum (pre @ stw 2 c @ post) = 0"
proof -
  define n where "n = word_sum pre + word_sum post"
  have c: "unat c = 65535 - oc_fold n"
    using assms by (simp add: unat_compute_checksum word_sum_append n_def)
  have "(n + unat c) mod 65535 = (oc_fold n + unat c) mod 65535"
    by (metis mod_add_left_eq oc_fold_mod)
  also have "\<dots> = 65535 mod 65535"
    using oc_fold_le [of n] by (simp add: c)
  finally have "oc_fold (n + unat c) = oc_fold 65535"
    by (rule oc_fold_cong) (auto simp: c oc_fold_def)
  moreover have "word_sum (pre @ stw 2 c @ post) = n + unat c"
    using assms(1) by (simp add: word_sum_append word_sum_stw n_def)
  ultimately have "unat (nanonet_compute_checksum (pre @ stw 2 c @ post)) = 0"
    using assms(2) by (simp add: unat_compute_checksum oc_fold_small)
  then show ?thesis by (simp add: unat_eq_0)
qed

text \<open>C10. On data of even length the checksum of the code, byte-swapped to network order, is the Internet
  checksum of RFC 1071.\<close>

theorem checksum_rfc1071:
  assumes "even (length xs)" and "length xs \<le> 65535"
  shows "ntohs (nanonet_compute_checksum xs) = rfc1071 xs"
  using assms by (rule compute_checksum_rfc1071)

theorem checksum_rfc1071_witness:
  "ntohs (nanonet_compute_checksum [0x45, 0, 0, 0x34]) = rfc1071 [0x45, 0, 0, 0x34]
    \<and> rfc1071 [0x45, 0, 0, 0x34] = 0xBACB"
  using checksum_rfc1071 [of "[0x45, 0, 0, 0x34]"] by (simp add: rfc1071_def oc_fold_def)

text \<open>C21. Storing the checksum computed over a zeroed field into that field makes the checksum of the whole
  zero: the receiver's test of RFC 1071.\<close>

theorem checksum_verifies:
  assumes "even (length pre)" and "length pre + 2 + length post \<le> 65535"
    and "c = nanonet_compute_checksum (pre @ [0, 0] @ post)"
  shows "nanonet_compute_checksum (pre @ stw 2 c @ post) = 0"
  using assms by (rule compute_checksum_verifies)

theorem checksum_verifies_witness:
  "nanonet_compute_checksum ([0x45, 0] @ stw 2 (nanonet_compute_checksum ([0x45, 0] @ [0, 0] @ [7, 9, 1])) @ [7, 9, 1]) = 0"
  using checksum_verifies [of "[0x45, 0]" "[7, 9, 1]"] by simp

lemma be_sum_append: "even (length xs) \<Longrightarrow> be_sum (xs @ ys) = be_sum xs + be_sum ys"
  by (induction xs rule: be_sum.induct) auto

lemma unat_rfc1071: "unat (rfc1071 xs) = 65535 - oc_fold (be_sum xs)"
  unfolding rfc1071_def by (subst unat_of_nat) simp

text \<open>C35. On data of odd length the code pads the last byte on the wrong side: the result is the Internet
  checksum of the data with a zero byte before the last one, which differs from that of the
  data whenever the last byte is not zero.\<close>

theorem checksum_odd_differs:
  assumes "even (length xs)" and "length xs + 2 \<le> 65535" and "b \<noteq> 0"
  shows "ntohs (nanonet_compute_checksum (xs @ [b])) = rfc1071 (xs @ [0, b])
    \<and> ntohs (nanonet_compute_checksum (xs @ [b])) \<noteq> rfc1071 (xs @ [b])"
proof -
  have 1: "ntohs (nanonet_compute_checksum (xs @ [b])) = rfc1071 (xs @ [0, b])"
    using checksum_odd [OF assms(1,2)] compute_checksum_rfc1071 [of "xs @ [0, b]"] assms by simp
  let ?n = "be_sum xs + unat b"
  have b: "0 < unat b"
    using assms(3) by (simp add: unat_gt_0)
  have "rfc1071 (xs @ [0, b]) \<noteq> rfc1071 (xs @ [b])"
  proof
    assume "rfc1071 (xs @ [0, b]) = rfc1071 (xs @ [b])"
    then have "unat (rfc1071 (xs @ [0, b])) = unat (rfc1071 (xs @ [b]))" by simp
    then have "65535 - oc_fold ?n = 65535 - oc_fold (?n + 255 * unat b)"
      using assms(1) by (simp add: unat_rfc1071 be_sum_append add.commute)
    then have "oc_fold ?n = oc_fold (?n + 255 * unat b)"
      using oc_fold_le [of ?n] oc_fold_le [of "?n + 255 * unat b"] by linarith
    then have "?n mod 65535 = (?n + 255 * unat b) mod 65535"
      by (metis oc_fold_mod)
    then have d: "65535 dvd 255 * unat b"
      using mod_eq_dvd_iff_nat [of ?n "?n + 255 * unat b" 65535] by simp
    have "65535 \<le> 255 * unat b"
      by (rule dvd_imp_le [OF d]) (use b in linarith)
    then show False
      using unat_byte_le [of b] by linarith
  qed
  with 1 show ?thesis by simp
qed

theorem checksum_odd_differs_witness:
  "ntohs (nanonet_compute_checksum ([1, 2] @ [3])) = rfc1071 ([1, 2] @ [0, 3])
    \<and> ntohs (nanonet_compute_checksum ([1, 2] @ [3])) \<noteq> rfc1071 ([1, 2] @ [3])"
  by (rule checksum_odd_differs) simp_all

section \<open>Parsing a packet\<close>

definition validate_checksum :: "u8 list \<Rightarrow> u16 \<Rightarrow> int" where
  "validate_checksum data check = (if nanonet_compute_checksum data = check then 0 else - EINVAL)"

text \<open>
  The pointers \<open>ull_parse_packet\<close> stores, as offsets from \<open>skb->data\<close>; \<open>None\<close> is
  the null pointer.
\<close>

record parsed =
  p_ip_hdr :: "nat option"
  p_tcp_hdr :: "nat option"
  p_udp_hdr :: "nat option"
  p_payload :: "nat option"
  p_payload_len :: int

definition parsed_null :: parsed where
  "parsed_null = \<lparr>p_ip_hdr = None, p_tcp_hdr = None, p_udp_hdr = None, p_payload = None, p_payload_len = 0\<rparr>"

definition load_ethhdr :: "sk_buff \<Rightarrow> nat \<Rightarrow> ull_ethhdr option" where
  "load_ethhdr skb i = map_option ethhdr_of (skb_peek skb i sizeof_ethhdr)"

definition load_iphdr :: "sk_buff \<Rightarrow> nat \<Rightarrow> ull_iphdr option" where
  "load_iphdr skb i = map_option iphdr_of (skb_peek skb i sizeof_iphdr)"

definition load_tcphdr :: "sk_buff \<Rightarrow> nat \<Rightarrow> ull_tcphdr option" where
  "load_tcphdr skb i = map_option tcphdr_of (skb_peek skb i sizeof_tcphdr)"

definition load_udphdr :: "sk_buff \<Rightarrow> nat \<Rightarrow> ull_udphdr option" where
  "load_udphdr skb i = map_option udphdr_of (skb_peek skb i sizeof_udphdr)"

text \<open>
  The payload pointer and its length: the subtraction is done in \<open>size_t\<close> and stored
  in an \<open>int\<close>.
\<close>

definition parse_payload :: "sk_buff \<Rightarrow> nat \<Rightarrow> nat \<Rightarrow> parsed \<Rightarrow> parsed" where
  "parse_payload skb ip_hdr_len transport_hdr_len out =
     (let len = int_of_size_t (ucast (skb_len skb) - of_nat sizeof_ethhdr - of_nat ip_hdr_len
                  - of_nat transport_hdr_len)
      in if len < 0 then out\<lparr>p_payload := None, p_payload_len := 0\<rparr>
         else out\<lparr>p_payload := Some (sizeof_ethhdr + ip_hdr_len + transport_hdr_len),
                  p_payload_len := len\<rparr>)"

definition parse_transport :: "sk_buff \<Rightarrow> ull_iphdr \<Rightarrow> nat \<Rightarrow> parsed \<Rightarrow> (int \<times> parsed) option" where
  "parse_transport skb ip ip_hdr_len out =
     (let transport_hdr = sizeof_ethhdr + ip_hdr_len
      in if ip_protocol ip = IPPROTO_TCP then
           (if unat (skb_len skb) < sizeof_ethhdr + ip_hdr_len + sizeof_tcphdr then Some (- EINVAL, out)
            else do {
              tcp \<leftarrow> load_tcphdr skb transport_hdr;
              let out = out\<lparr>p_tcp_hdr := Some transport_hdr\<rparr>;
              let transport_hdr_len = unat (doff tcp) * 4;
              if transport_hdr_len < sizeof_tcphdr then Some (- EINVAL, out)
              else Some (0, parse_payload skb ip_hdr_len transport_hdr_len out)
            })
         else if ip_protocol ip = IPPROTO_UDP then
           (if unat (skb_len skb) < sizeof_ethhdr + ip_hdr_len + sizeof_udphdr then Some (- EINVAL, out)
            else do {
              udp \<leftarrow> load_udphdr skb transport_hdr;
              let out = out\<lparr>p_udp_hdr := Some transport_hdr\<rparr>;
              if udp_check udp = 0 then Some (0, parse_payload skb ip_hdr_len sizeof_udphdr out)
              else do {
                dgram \<leftarrow> skb_peek skb transport_hdr (unat (ntohs (udp_len udp)));
                if validate_checksum dgram (udp_check udp) < 0 then Some (- EINVAL, out)
                else Some (0, parse_payload skb ip_hdr_len sizeof_udphdr out)
              }
            })
         else Some (- EPROTONOSUPPORT, out))"

definition ull_parse_packet :: "sk_buff \<Rightarrow> (int \<times> parsed) option" where
  "ull_parse_packet skb =
     (let out = parsed_null
      in if unat (skb_len skb) < sizeof_ethhdr then Some (- EINVAL, out)
         else do {
           eth \<leftarrow> load_ethhdr skb 0;
           if ntohs (h_proto eth) \<noteq> ETH_P_IP then Some (- EPROTONOSUPPORT, out)
           else if unat (skb_len skb) < sizeof_ethhdr + sizeof_iphdr then Some (- EINVAL, out)
           else do {
             ip \<leftarrow> load_iphdr skb sizeof_ethhdr;
             let out = out\<lparr>p_ip_hdr := Some sizeof_ethhdr\<rparr>;
             let ip_hdr_len = unat (version_ihl ip AND 0x0F) * 4;
             if drop_bit 4 (version_ihl ip) \<noteq> 4 then Some (- EPROTONOSUPPORT, out)
             else if ip_hdr_len < sizeof_iphdr then Some (- EINVAL, out)
             else do {
               hdr \<leftarrow> skb_peek skb sizeof_ethhdr ip_hdr_len;
               if validate_checksum hdr (ip_check ip) < 0 then Some (- EINVAL, out)
               else parse_transport skb ip ip_hdr_len out
             }
           }
         })"

lemma ntohs_zero: "ntohs 0 = 0"
  by (simp add: word_unat_eq_iff unat_ntohs)

lemma skb_peek_wf:
  "skb_wf skb \<Longrightarrow> i + n \<le> unat (skb_len skb) \<Longrightarrow>
     skb_peek skb i n = Some (take n (drop (skb_off skb + i) (skb_buf skb)))"
  by (simp add: skb_wf_def skb_peek_def peek_def)

lemma validate_checksum_neg: "validate_checksum data c < 0 \<longleftrightarrow> nanonet_compute_checksum data \<noteq> c"
  by (simp add: validate_checksum_def)

text \<open>The payload of a packet shorter than 2 GiB.\<close>

lemma parse_payload_eq:
  assumes "unat (skb_len skb) < 2 ^ 31" and "ihl \<le> 60" and "thl \<le> 60"
  shows "parse_payload skb ihl thl out =
     (if 14 + ihl + thl \<le> unat (skb_len skb)
      then out\<lparr>p_payload := Some (14 + ihl + thl),
               p_payload_len := int (unat (skb_len skb)) - int (14 + ihl + thl)\<rparr>
      else out\<lparr>p_payload := None, p_payload_len := 0\<rparr>)"
proof -
  have "ucast (skb_len skb) - of_nat sizeof_ethhdr - of_nat ihl - of_nat thl
      = (of_int (int (unat (skb_len skb)) - int (14 + ihl + thl)) :: u64)"
    by (simp add: algebra_simps)
  then have "int_of_size_t (ucast (skb_len skb) - of_nat sizeof_ethhdr - of_nat ihl - of_nat thl)
      = int_of_size_t (of_int (int (unat (skb_len skb)) - int (14 + ihl + thl)))"
    by (simp only:)
  also have "int_of_size_t (of_int (int (unat (skb_len skb)) - int (14 + ihl + thl)))
      = int (unat (skb_len skb)) - int (14 + ihl + thl)"
    by (rule int_of_size_t_of_int) (use assms in \<open>simp_all del: of_nat_unat\<close>)
  finally show ?thesis
    unfolding parse_payload_def Let_def by (auto simp del: of_nat_unat)
qed

lemma unat_nibble_le: "unat (b AND 0x0F :: u8) \<le> 15"
  using word_and_le1 [of b "0x0F"] by (simp add: word_le_nat_alt)

lemma unat_doff_le: "unat (d :: 4 word) \<le> 15"
proof -
  have "unat d < 2 ^ 4" by (rule order_less_le_trans [OF unsigned_less]) simp
  then show ?thesis by simp
qed

text \<open>What a successful parse has checked.\<close>

lemma parse_ok_cases:
  assumes "ull_parse_packet skb = Some (0, p)"
  obtains eth ip hdr where
    "load_ethhdr skb 0 = Some eth" "ntohs (h_proto eth) = ETH_P_IP"
    "load_iphdr skb 14 = Some ip" "drop_bit 4 (version_ihl ip) = 4"
    "20 \<le> unat (version_ihl ip AND 0x0F) * 4"
    "skb_peek skb 14 (unat (version_ihl ip AND 0x0F) * 4) = Some hdr"
    "nanonet_compute_checksum hdr = ip_check ip"
    "parse_transport skb ip (unat (version_ihl ip AND 0x0F) * 4) (parsed_null\<lparr>p_ip_hdr := Some 14\<rparr>) = Some (0, p)"
  using assms that
  by (auto simp: ull_parse_packet_def Let_def validate_checksum_neg split: if_splits Option.bind_splits)

lemma parse_transport_ok_cases:
  assumes "parse_transport skb ip ihl out = Some (0, p)"
  obtains
    (tcp) tcp where "ip_protocol ip = IPPROTO_TCP" "14 + ihl + 20 \<le> unat (skb_len skb)"
      "load_tcphdr skb (14 + ihl) = Some tcp" "20 \<le> unat (doff tcp) * 4"
      "p = parse_payload skb ihl (unat (doff tcp) * 4) (out\<lparr>p_tcp_hdr := Some (14 + ihl)\<rparr>)"
  | (udp) udp where "ip_protocol ip = IPPROTO_UDP" "14 + ihl + 8 \<le> unat (skb_len skb)"
      "load_udphdr skb (14 + ihl) = Some udp"
      "udp_check udp \<noteq> 0 \<Longrightarrow> \<exists>d. skb_peek skb (14 + ihl) (unat (ntohs (udp_len udp))) = Some d
          \<and> nanonet_compute_checksum d = udp_check udp"
      "p = parse_payload skb ihl 8 (out\<lparr>p_udp_hdr := Some (14 + ihl)\<rparr>)"
  using assms
  by (auto simp: parse_transport_def Let_def validate_checksum_neg split: if_splits Option.bind_splits)


text \<open>The length of the IP header in bytes.\<close>

abbreviation ip_len :: "ull_iphdr \<Rightarrow> nat" where
  "ip_len ip \<equiv> unat (version_ihl ip AND 0x0F) * 4"

text \<open>The payload starts at offset \<open>i\<close> and reaches to the end of the packet; past the end there is none.\<close>

definition payload_from :: "sk_buff \<Rightarrow> nat \<Rightarrow> parsed \<Rightarrow> bool" where
  "payload_from skb i p \<longleftrightarrow>
     (if i \<le> unat (skb_len skb)
      then p_payload p = Some i \<and> p_payload_len p = int (unat (skb_len skb)) - int i
      else p_payload p = None \<and> p_payload_len p = 0)"

text \<open>
  Where the parts of a parsed packet are: the IP header after the Ethernet header, the header
  of the packet's transport protocol after the IP header, the payload after that header, whose
  length is in the TCP header or 8 for UDP.
\<close>

definition parsed_in_bounds :: "sk_buff \<Rightarrow> parsed \<Rightarrow> bool" where
  "parsed_in_bounds skb p \<longleftrightarrow> p_ip_hdr p = Some 14
   \<and> (\<exists>ip. load_iphdr skb 14 = Some ip \<and> 20 \<le> ip_len ip
        \<and> (ip_protocol ip = IPPROTO_TCP \<and> p_tcp_hdr p = Some (14 + ip_len ip) \<and> p_udp_hdr p = None
             \<and> 14 + ip_len ip + 20 \<le> unat (skb_len skb)
             \<and> (\<exists>tcp. load_tcphdr skb (14 + ip_len ip) = Some tcp \<and> 20 \<le> unat (doff tcp) * 4
                  \<and> payload_from skb (14 + ip_len ip + unat (doff tcp) * 4) p)
         \<or> ip_protocol ip = IPPROTO_UDP \<and> p_tcp_hdr p = None \<and> p_udp_hdr p = Some (14 + ip_len ip)
             \<and> 14 + ip_len ip + 8 \<le> unat (skb_len skb) \<and> payload_from skb (14 + ip_len ip + 8) p))"

lemma parse_payload_from:
  assumes "unat (skb_len skb) < 2 ^ 31" and "ihl \<le> 60" and "thl \<le> 60"
  shows "payload_from skb (14 + ihl + thl) (parse_payload skb ihl thl out)"
  unfolding payload_from_def parse_payload_eq [OF assms] by (simp del: of_nat_unat)

lemma parse_payload_frame:
  "p_ip_hdr (parse_payload skb ihl thl out) = p_ip_hdr out"
  "p_tcp_hdr (parse_payload skb ihl thl out) = p_tcp_hdr out"
  "p_udp_hdr (parse_payload skb ihl thl out) = p_udp_hdr out"
  by (simp_all add: parse_payload_def Let_def)

lemma parse_ok_in_bounds:
  assumes "ull_parse_packet skb = Some (0, p)" and "unat (skb_len skb) < 2 ^ 31"
  shows "parsed_in_bounds skb p"
  using assms(1)
proof (cases rule: parse_ok_cases)
  case (1 eth ip hdr)
  have ihl: "ip_len ip \<le> 60"
    using unat_nibble_le [of "version_ihl ip"] by simp
  from 1(8) show ?thesis
  proof (cases rule: parse_transport_ok_cases)
    case (tcp tcp)
    have "unat (doff tcp) * 4 \<le> 60"
      using unat_doff_le [of "doff tcp"] by simp
    from parse_payload_from [OF assms(2) ihl this] tcp 1(3,5) show ?thesis
      unfolding parsed_in_bounds_def by (auto simp: parse_payload_frame parsed_null_def)
  next
    case (udp udp)
    from parse_payload_from [OF assms(2) ihl, of 8] udp 1(3,5) show ?thesis
      unfolding parsed_in_bounds_def by (auto simp: parse_payload_frame parsed_null_def)
  qed
qed

text \<open>C11. When the parser accepts a packet, the IP header it hands out follows the Ethernet header, the one
  transport header it sets is that of the packet's protocol, follows the IP header and lies inside
  the packet, and the payload is what follows the transport header up to the end of the packet:
  none if the data offset of a TCP header points past the end.\<close>

theorem parse_in_bounds:
  assumes "ull_parse_packet skb = Some (0, p)" and "unat (skb_len skb) < 2 ^ 31"
  shows "parsed_in_bounds skb p"
  using assms by (rule parse_ok_in_bounds)

text \<open>Evaluation on the sample packets.\<close>

lemmas sample_packet_defs = sample_received_def sample_udp_packet_def sample_tcp_packet_def
  sample_eth_def sample_market_def sample_dev_def

lemmas parse_eval = ull_parse_packet_def parse_transport_def parse_payload_def load_ethhdr_def load_iphdr_def
  load_udphdr_def load_tcphdr_def skb_peek_def peek_def ethhdr_of_def iphdr_of_def udphdr_of_def tcphdr_of_def
  ldw_def validate_checksum_def parsed_null_def nanonet_compute_checksum_def csum_fold.simps ntohs_def stw_def
  int_of_size_t_def Let_def le_bytes_numeral

lemma parse_sample_udp:
  "ull_parse_packet (sample_received (sample_udp_packet 219 129)) =
     Some (0, \<lparr>p_ip_hdr = Some 14, p_tcp_hdr = None, p_udp_hdr = Some 34, p_payload = Some 42, p_payload_len = 24\<rparr>)"
  by (simp add: parse_eval sample_packet_defs)

theorem parse_in_bounds_witness:
  "parsed_in_bounds (sample_received (sample_udp_packet 219 129))
     \<lparr>p_ip_hdr = Some 14, p_tcp_hdr = None, p_udp_hdr = Some 34, p_payload = Some 42, p_payload_len = 24\<rparr>"
  using parse_in_bounds [OF parse_sample_udp] by (simp add: sample_packet_defs)

lemma sample_ip: "load_iphdr (sample_received (sample_udp_packet c0 c1)) 14 = Some
   \<lparr>version_ihl = 0x45, tos = 0, tot_len = 0x3400, ip_id = 0, frag_off = 0x40, ttl = 0x40, ip_protocol = 17,
    ip_check = ldw [c0, c1], saddr = 0x0101A8C0, daddr = 0x6401A8C0\<rparr>"
  by (simp add: load_iphdr_def skb_peek_def peek_def sample_packet_defs iphdr_of_def ldw_def)

text \<open>
  An IPv4 header the parser goes on with: Ethernet type, version and a header length of at
  least 20 bytes are right. Only then does it use a length from the packet: the header length
  for the checksum, and the length of a UDP datagram whose checksum is not zero.
\<close>

definition ipv4_header :: "sk_buff \<Rightarrow> ull_iphdr \<Rightarrow> bool" where
  "ipv4_header skb ip \<longleftrightarrow> 34 \<le> unat (skb_len skb)
   \<and> (\<exists>eth. load_ethhdr skb 0 = Some eth \<and> ntohs (h_proto eth) = ETH_P_IP)
   \<and> load_iphdr skb 14 = Some ip \<and> drop_bit 4 (version_ihl ip) = 4 \<and> 20 \<le> ip_len ip"

definition checked_datagram :: "sk_buff \<Rightarrow> ull_iphdr \<Rightarrow> ull_udphdr \<Rightarrow> bool" where
  "checked_datagram skb ip udp \<longleftrightarrow> ip_protocol ip = IPPROTO_UDP \<and> 14 + ip_len ip + 8 \<le> unat (skb_len skb)
   \<and> load_udphdr skb (14 + ip_len ip) = Some udp \<and> udp_check udp \<noteq> 0"

text \<open>The lengths an IPv4 packet announces stay inside it.\<close>

definition lengths_inside :: "sk_buff \<Rightarrow> bool" where
  "lengths_inside skb \<longleftrightarrow> (\<forall>ip. ipv4_header skb ip \<longrightarrow> 14 + ip_len ip \<le> unat (skb_len skb)
   \<and> (\<forall>udp. checked_datagram skb ip udp \<longrightarrow> 14 + ip_len ip + unat (ntohs (udp_len udp)) \<le> unat (skb_len skb)))"

text \<open>The bytes of the buffer from the start of the packet on, any space behind the packet included.\<close>

definition skb_room :: "sk_buff \<Rightarrow> nat" where
  "skb_room skb = length (skb_buf skb) - skb_off skb"

lemma skb_room_ge: "skb_wf skb \<Longrightarrow> unat (skb_len skb) \<le> skb_room skb"
  by (auto simp: skb_wf_def skb_room_def)

lemma skb_peek_room:
  "skb_wf skb \<Longrightarrow> skb_peek skb i n =
     (if i + n \<le> skb_room skb then Some (take n (drop (skb_off skb + i) (skb_buf skb))) else None)"
  by (auto simp: skb_wf_def skb_room_def skb_peek_def peek_def)

lemma load_inside:
  assumes "skb_wf skb"
  shows "i + 14 \<le> unat (skb_len skb) \<Longrightarrow> \<exists>h. load_ethhdr skb i = Some h"
    "i + 20 \<le> unat (skb_len skb) \<Longrightarrow> \<exists>h. load_iphdr skb i = Some h"
    "i + 20 \<le> unat (skb_len skb) \<Longrightarrow> \<exists>h. load_tcphdr skb i = Some h"
    "i + 8 \<le> unat (skb_len skb) \<Longrightarrow> \<exists>h. load_udphdr skb i = Some h"
  using assms by (auto simp: load_ethhdr_def load_iphdr_def load_tcphdr_def load_udphdr_def skb_peek_wf)

lemma parse_transport_None:
  assumes wf: "skb_wf skb"
  shows "parse_transport skb ip (ip_len ip) out = None \<longleftrightarrow>
    (\<exists>udp. checked_datagram skb ip udp \<and> skb_room skb < 14 + ip_len ip + unat (ntohs (udp_len udp)))"
proof (cases "ip_protocol ip = IPPROTO_UDP \<and> 14 + ip_len ip + 8 \<le> unat (skb_len skb)")
  case True
  then obtain udp where "load_udphdr skb (14 + ip_len ip) = Some udp"
    using load_inside(4) [OF wf, of "14 + ip_len ip"] by auto
  with True show ?thesis
    by (auto simp: parse_transport_def checked_datagram_def Let_def skb_peek_room [OF wf])
next
  case False
  with load_inside(3) [OF wf, of "14 + ip_len ip"] show ?thesis
    by (auto simp: parse_transport_def checked_datagram_def Let_def split: Option.bind_split)
qed

text \<open>Where the parser goes wrong, and nowhere else.\<close>

lemma parse_None:
  assumes wf: "skb_wf skb"
  shows "ull_parse_packet skb = None \<longleftrightarrow> (\<exists>ip. ipv4_header skb ip \<and>
    (skb_room skb < 14 + ip_len ip
     \<or> (\<exists>hdr udp. skb_peek skb 14 (ip_len ip) = Some hdr \<and> nanonet_compute_checksum hdr = ip_check ip
          \<and> checked_datagram skb ip udp \<and> skb_room skb < 14 + ip_len ip + unat (ntohs (udp_len udp)))))"
proof (cases "\<exists>ip. ipv4_header skb ip")
  case True
  then obtain ip eth where h: "34 \<le> unat (skb_len skb)" "load_ethhdr skb 0 = Some eth" "ntohs (h_proto eth) = ETH_P_IP"
      "load_iphdr skb 14 = Some ip" "drop_bit 4 (version_ihl ip) = 4" "20 \<le> ip_len ip"
    by (auto simp: ipv4_header_def)
  then have "ull_parse_packet skb = (do {
      hdr \<leftarrow> skb_peek skb 14 (ip_len ip);
      if nanonet_compute_checksum hdr \<noteq> ip_check ip then Some (- EINVAL, parsed_null\<lparr>p_ip_hdr := Some 14\<rparr>)
      else parse_transport skb ip (ip_len ip) (parsed_null\<lparr>p_ip_hdr := Some 14\<rparr>)})"
    by (simp add: ull_parse_packet_def validate_checksum_neg Let_def)
  moreover have "ipv4_header skb ip' \<longleftrightarrow> ip' = ip" for ip'
    using h by (auto simp: ipv4_header_def)
  ultimately show ?thesis
    by (simp add: parse_transport_None [OF wf] skb_peek_room [OF wf] not_le)
next
  case no_header: False
  have "ull_parse_packet skb \<noteq> None"
  proof (cases "34 \<le> unat (skb_len skb)")
    case True
    then obtain eth ip where "load_ethhdr skb 0 = Some eth" "load_iphdr skb 14 = Some ip"
      using load_inside(1) [OF wf, of 0] load_inside(2) [OF wf, of 14] by auto
    with True no_header show ?thesis
      by (auto simp: ull_parse_packet_def ipv4_header_def Let_def)
  next
    case short: False
    show ?thesis
    proof (cases "14 \<le> unat (skb_len skb)")
      case True
      then obtain eth where "load_ethhdr skb 0 = Some eth"
        using load_inside(1) [OF wf, of 0] by auto
      with short show ?thesis by (simp add: ull_parse_packet_def Let_def)
    qed (simp add: ull_parse_packet_def Let_def)
  qed
  with no_header show ?thesis by simp
qed

lemma parse_returns:
  assumes "skb_wf skb" and "lengths_inside skb"
  shows "\<exists>r p. ull_parse_packet skb = Some (r, p)"
proof -
  have "ull_parse_packet skb \<noteq> None"
    using assms skb_room_ge [OF assms(1)] unfolding parse_None [OF assms(1)] lengths_inside_def by fastforce
  then show ?thesis by auto
qed

text \<open>C18. The parser reads no byte outside the buffer, and so returns, on every packet whose announced lengths stay
  inside it: the header length of an IPv4 packet, and the datagram length of a UDP packet that
  carries a checksum. Packets of other kinds announce nothing the parser relies on.\<close>

theorem parse_no_fault:
  assumes "skb_wf skb" and "lengths_inside skb"
  shows "\<exists>r p. ull_parse_packet skb = Some (r, p)"
  using assms by (rule parse_returns)

lemma sample_udp: "load_udphdr (sample_received (sample_udp_packet c0 c1)) 34 = Some
   \<lparr>udp_source = 0x3930, udp_dest = 0x901F, udp_len = 0x2000, udp_check = 0\<rparr>"
  by (simp add: load_udphdr_def skb_peek_def peek_def sample_packet_defs udphdr_of_def ldw_def)

lemma sample_udp_wf:
  "skb_wf (sample_received (sample_udp_packet c0 c1))"
  "unat (skb_len (sample_received (sample_udp_packet c0 c1))) = 66"
  by (simp_all add: skb_wf_def sample_packet_defs)

lemma sample_udp_room: "skb_room (sample_received (sample_udp_packet c0 c1)) = 66"
  by (simp add: skb_room_def sample_packet_defs)

lemma sample_udp_lengths: "lengths_inside (sample_received (sample_udp_packet c0 c1))"
  by (simp add: lengths_inside_def ipv4_header_def checked_datagram_def sample_ip sample_udp sample_udp_wf)

text \<open>A TCP segment with a sequence number whose high half would be a length past the end.\<close>

definition sample_segment :: sk_buff where
  "sample_segment = sample_received (sample_eth
     @ [0x45, 0, 0, 0x28, 0, 0, 0x40, 0, 0x40, 0x06, 91, 141, 192, 168, 1, 1, 192, 168, 1, 100]
     @ [0x30, 0x39, 0, 22, 0x80, 0, 0, 1, 0, 0, 0, 0, 0x50, 2, 16, 0, 0, 0, 0, 0])"

lemma sample_segment_ok: "skb_wf sample_segment" "lengths_inside sample_segment"
  by (simp_all add: sample_segment_def sample_packet_defs skb_wf_def lengths_inside_def ipv4_header_def
      checked_datagram_def load_iphdr_def skb_peek_def peek_def iphdr_of_def)

lemma sample_segment_len: "unat (skb_len sample_segment) = 54"
  by (simp add: sample_segment_def sample_packet_defs)

theorem parse_no_fault_witness:
  "(\<exists>r p. ull_parse_packet sample_segment = Some (r, p))
   \<and> (\<exists>r p. ull_parse_packet (sample_received (sample_udp_packet 219 129)) = Some (r, p))"
  using parse_no_fault [OF sample_segment_ok] parse_no_fault [OF sample_udp_wf(1) sample_udp_lengths] by blast

text \<open>C34. The parser reads outside the buffer exactly when an IPv4 packet of at least 34 bytes announces a header
  that ends behind the buffer, or, with a header checksum the parser accepts, carries a UDP
  datagram with a checksum whose announced length ends behind the buffer. No test against the
  length of the packet comes before these reads.\<close>

theorem parse_reads_past_end:
  assumes "skb_wf skb"
  shows "ull_parse_packet skb = None \<longleftrightarrow> (\<exists>ip. ipv4_header skb ip \<and>
    (skb_room skb < 14 + ip_len ip
     \<or> (\<exists>hdr udp. skb_peek skb 14 (ip_len ip) = Some hdr \<and> nanonet_compute_checksum hdr = ip_check ip
          \<and> checked_datagram skb ip udp \<and> skb_room skb < 14 + ip_len ip + unat (ntohs (udp_len udp)))))"
  using assms by (rule parse_None)

text \<open>An IPv4 header that claims 60 bytes in a packet that ends after 20.\<close>

definition sample_short :: sk_buff where
  "sample_short = sample_received (sample_eth
     @ [0x4F, 0, 0, 0x34, 0, 0, 0x40, 0, 0x40, 0x11, 0, 0, 192, 168, 1, 1, 192, 168, 1, 100])"

theorem parse_reads_past_end_witness:
  "ull_parse_packet sample_short = None
   \<and> ull_parse_packet (sample_received (sample_udp_packet 219 129)) \<noteq> None"
proof
  have "ipv4_header sample_short (iphdr_of (drop 14 (skb_buf sample_short)))" "skb_wf sample_short"
    "skb_room sample_short < 14 + ip_len (iphdr_of (drop 14 (skb_buf sample_short)))"
    by (simp_all add: ipv4_header_def skb_room_def sample_short_def sample_packet_defs skb_wf_def load_ethhdr_def
        load_iphdr_def skb_peek_def peek_def ethhdr_of_def iphdr_of_def ldw_def ntohs_def stw_def le_bytes_numeral)
  then show "ull_parse_packet sample_short = None"
    using parse_reads_past_end [of sample_short] by blast
  show "ull_parse_packet (sample_received (sample_udp_packet 219 129)) \<noteq> None"
    using parse_reads_past_end [OF sample_udp_wf(1), of 219 129]
    by (auto simp: ipv4_header_def checked_datagram_def sample_ip sample_udp sample_udp_room)
qed

text \<open>The parser compares the checksum field with the checksum of the header including it.\<close>

lemma parse_rejects_valid_checksum:
  assumes ip: "load_iphdr skb 14 = Some ip"
    and hdr: "skb_peek skb 14 (unat (version_ihl ip AND 0x0F) * 4) = Some hdr"
    and valid: "rfc1071 hdr = 0" and "ip_check ip \<noteq> 0"
    and res: "ull_parse_packet skb = Some (r, p)"
  shows "r < 0"
proof -
  have len: "length hdr = unat (version_ihl ip AND 0x0F) * 4"
    using hdr length_peek by (auto simp: skb_peek_def)
  then have "ntohs (nanonet_compute_checksum hdr) = 0"
    using valid compute_checksum_rfc1071 [of hdr] unat_nibble_le [of "version_ihl ip"] by simp
  then have "nanonet_compute_checksum hdr = 0"
    by (metis ntohs_ntohs ntohs_zero)
  with assms show ?thesis
    by (auto simp: ull_parse_packet_def Let_def validate_checksum_neg split: if_splits Option.bind_splits)
qed


end
