(* ===== verification/Security.thy ===== *)
theory Security
  imports Micro_Stack
begin

text \<open>
  src/security.c: the table of tracked TCP connections (an array of 1024 hash lists), the
  validation of packets and of configurations, and the permission check.

  The table is used through the interface \<open>conn_map\<close>: a finite map from connection keys
  to connection records, with the operations the tracker performs on it. The hash lists
  are shown to implement that map whatever \<open>jhash_3words\<close> computes.
\<close>

unbundle bit_operations_syntax

section \<open>The interface of the connection table\<close>

locale conn_map =
  fixes invar :: "'t \<Rightarrow> bool"
    and lookup :: "'t \<Rightarrow> 'k \<Rightarrow> 'c option"
    and key :: "'c \<Rightarrow> 'k"
    and empty :: 't
    and ins :: "'c \<Rightarrow> 't \<Rightarrow> 't"
    and upd :: "'k \<Rightarrow> ('c \<Rightarrow> 'c) \<Rightarrow> 't \<Rightarrow> 't"
    and size_of :: "'t \<Rightarrow> nat"
  assumes invar_empty: "invar empty"
    and lookup_empty: "lookup empty k = None"
    and size_empty: "size_of empty = 0"
    and lookup_key: "invar t \<Longrightarrow> lookup t k = Some c \<Longrightarrow> key c = k"
    and invar_ins: "invar t \<Longrightarrow> lookup t (key c) = None \<Longrightarrow> invar (ins c t)"
    and lookup_ins: "invar t \<Longrightarrow> lookup t (key c) = None \<Longrightarrow> lookup (ins c t) = (lookup t)(key c \<mapsto> c)"
    and size_ins: "invar t \<Longrightarrow> lookup t (key c) = None \<Longrightarrow> size_of (ins c t) = Suc (size_of t)"
    and invar_upd: "invar t \<Longrightarrow> (\<And>c. key (f c) = key c) \<Longrightarrow> invar (upd k f t)"
    and lookup_upd: "invar t \<Longrightarrow> (\<And>c. key (f c) = key c) \<Longrightarrow>
          lookup (upd k f t) = (lookup t)(k := map_option f (lookup t k))"
    and size_upd: "invar t \<Longrightarrow> size_of (upd k f t) = size_of t"
begin

text \<open>Touch the record of a key if there is one, insert a fresh record otherwise.\<close>

lemma track_lookup:
  assumes "invar t" and "\<And>c. key (f c) = key c" and "key c0 = k"
  shows "lookup (if lookup t k = None then ins c0 t else upd k f t)
     = (lookup t)(k \<mapsto> (case lookup t k of None \<Rightarrow> c0 | Some c \<Rightarrow> f c))"
  using assms by (auto simp: lookup_ins lookup_upd)

lemma track_invar:
  assumes "invar t" and "\<And>c. key (f c) = key c" and "key c0 = k"
  shows "invar (if lookup t k = None then ins c0 t else upd k f t)"
  using assms by (auto simp: invar_ins invar_upd)

lemma track_size:
  assumes "invar t" and "key c0 = k"
  shows "size_of (if lookup t k = None then ins c0 t else upd k f t)
     = size_of t + (if lookup t k = None then 1 else 0)"
  using assms by (auto simp: size_ins size_upd)

end

section \<open>The hash lists\<close>

type_synonym conn_key = "u32 \<times> u32 \<times> u16 \<times> u16"
type_synonym conn_table = "nat \<Rightarrow> ull_tcp_conn list"

definition conn_key :: "ull_tcp_conn \<Rightarrow> conn_key" where
  "conn_key c = (src_ip c, dst_ip c, src_port c, dst_port c)"

text \<open>
  \<open>nanonet_conn_hash\<close> hashes the ports as stored; the tracker hashes them after
  \<open>ntohs\<close>. Only the tracker's hash is used.
\<close>

definition nanonet_conn_hash :: "'w kernel \<Rightarrow> ull_tcp_conn \<Rightarrow> nat" where
  "nanonet_conn_hash K conn =
     unat (jhash_3words K (src_ip conn) (dst_ip conn)
       (push_bit 16 (ucast (src_port conn)) OR ucast (dst_port conn)) 0 mod CONN_HASH_SIZE)"

definition track_hash :: "'w kernel \<Rightarrow> conn_key \<Rightarrow> nat" where
  "track_hash K k = (case k of (sip, dip, sport, dport) \<Rightarrow>
     unat (jhash_3words K sip dip
       (push_bit 16 (ucast (ntohs sport)) OR ucast (ntohs dport)) 0 mod CONN_HASH_SIZE))"

lemma track_hash_lt: "track_hash K k < 1024"
proof -
  have "unat (w mod 1024 :: u32) < 1024" for w
    by (simp add: unat_mod_distrib)
  then show ?thesis by (simp add: track_hash_def split: prod.split)
qed

text \<open>\<open>hlist_for_each_entry\<close> up to the first matching entry, which is changed in place.\<close>

fun update_first :: "('a \<Rightarrow> bool) \<Rightarrow> ('a \<Rightarrow> 'a) \<Rightarrow> 'a list \<Rightarrow> 'a list" where
  "update_first P f [] = []"
| "update_first P f (x # xs) = (if P x then f x # xs else x # update_first P f xs)"

definition hash_lookup :: "'w kernel \<Rightarrow> conn_table \<Rightarrow> conn_key \<Rightarrow> ull_tcp_conn option" where
  "hash_lookup K t k = find (\<lambda>c. conn_key c = k) (t (track_hash K k))"

definition hash_insert :: "'w kernel \<Rightarrow> ull_tcp_conn \<Rightarrow> conn_table \<Rightarrow> conn_table" where
  "hash_insert K c t = (let h = track_hash K (conn_key c) in t(h := c # t h))"

definition hash_update :: "'w kernel \<Rightarrow> conn_key \<Rightarrow> (ull_tcp_conn \<Rightarrow> ull_tcp_conn) \<Rightarrow> conn_table \<Rightarrow> conn_table" where
  "hash_update K k f t = (let h = track_hash K k in t(h := update_first (\<lambda>c. conn_key c = k) f (t h)))"

definition hash_size :: "conn_table \<Rightarrow> nat" where
  "hash_size t = (\<Sum>i<1024. length (t i))"

text \<open>
  Every record is in the bucket of its key, no two records of a bucket have the same key,
  and there is nothing outside the array.
\<close>

definition hash_invar :: "'w kernel \<Rightarrow> conn_table \<Rightarrow> bool" where
  "hash_invar K t \<longleftrightarrow>
     (\<forall>i. (\<forall>c \<in> set (t i). track_hash K (conn_key c) = i) \<and> distinct (map conn_key (t i)))"

lemma hash_invar_outside: "hash_invar K t \<Longrightarrow> 1024 \<le> i \<Longrightarrow> t i = []"
  using track_hash_lt by (metis hash_invar_def leD list.set_intros(1) list.exhaust)

lemma map_key_update_first:
  "(\<And>c. key (f c) = key c) \<Longrightarrow> map key (update_first P f cs) = map key cs"
  by (induction cs) auto

lemma find_update_first_same:
  "(\<And>c. key (f c) = key c) \<Longrightarrow>
   find (\<lambda>c. key c = k) (update_first (\<lambda>c. key c = k) f cs) = map_option f (find (\<lambda>c. key c = k) cs)"
  by (induction cs) auto

lemma find_update_first_other:
  "(\<And>c. key (f c) = key c) \<Longrightarrow> k \<noteq> k' \<Longrightarrow>
   find (\<lambda>c. key c = k') (update_first (\<lambda>c. key c = k) f cs) = find (\<lambda>c. key c = k') cs"
  by (induction cs) auto

lemma length_update_first [simp]: "length (update_first P f cs) = length cs"
  by (induction cs) auto

lemma find_None_key: "find (\<lambda>c. key c = k) cs = None \<longleftrightarrow> k \<notin> key ` set cs"
  by (auto simp: find_None_iff)

lemma hash_size_upd:
  assumes "h < 1024"
  shows "hash_size (t(h := cs)) + length (t h) = hash_size t + length cs"
proof -
  have split: "(\<Sum>i<1024. g i) = g h + (\<Sum>i\<in>{..<1024} - {h}. g i)" for g :: "nat \<Rightarrow> nat"
    using assms by (intro sum.remove) auto
  have "(\<Sum>i\<in>{..<1024} - {h}. length ((t(h := cs)) i)) = (\<Sum>i\<in>{..<1024} - {h}. length (t i))"
    by (intro sum.cong) auto
  then show ?thesis
    unfolding hash_size_def by (simp add: split)
qed

interpretation ct: conn_map "hash_invar K" "hash_lookup K" conn_key "\<lambda>_. []" "hash_insert K"
    "hash_update K" hash_size for K :: "'w kernel"
proof unfold_locales
  fix t :: conn_table and k c
  assume "hash_invar K t" "hash_lookup K t k = Some c"
  then show "conn_key c = k"
    by (auto simp: hash_lookup_def find_Some_iff)
next
  fix t :: conn_table and c
  assume "hash_invar K t" "hash_lookup K t (conn_key c) = None"
  then show "hash_invar K (hash_insert K c t)"
    by (auto simp: hash_invar_def hash_insert_def hash_lookup_def find_None_key Let_def)
next
  fix t :: conn_table and c
  show "hash_lookup K (hash_insert K c t) = (hash_lookup K t)(conn_key c \<mapsto> c)"
    by (rule ext) (auto simp: hash_insert_def hash_lookup_def Let_def)
next
  fix t :: conn_table and c
  show "hash_size (hash_insert K c t) = Suc (hash_size t)"
    using hash_size_upd [OF track_hash_lt, of t K "conn_key c" "c # t (track_hash K (conn_key c))"]
    by (simp add: hash_insert_def Let_def)
next
  fix t :: conn_table and k and f :: "ull_tcp_conn \<Rightarrow> ull_tcp_conn"
  assume inv: "hash_invar K t" and f: "\<And>c. conn_key (f c) = conn_key c"
  have keys: "map conn_key (update_first P f cs) = map conn_key cs" for P cs
    by (rule map_key_update_first) (rule f)
  then have sets: "conn_key ` set (update_first P f cs) = conn_key ` set cs" for P cs
    by (metis list.set_map)
  from inv show "hash_invar K (hash_update K k f t)"
    unfolding hash_invar_def hash_update_def Let_def
    by (metis (mono_tags, lifting) fun_upd_apply image_iff keys sets)
next
  fix t :: conn_table and k and f :: "ull_tcp_conn \<Rightarrow> ull_tcp_conn"
  assume f: "\<And>c. conn_key (f c) = conn_key c"
  show "hash_lookup K (hash_update K k f t) = (hash_lookup K t)(k := map_option f (hash_lookup K t k))"
    by (rule ext) (auto simp: hash_lookup_def hash_update_def Let_def f
        find_update_first_same find_update_first_other)
next
  fix t :: conn_table and k f
  show "hash_size (hash_update K k f t) = hash_size t"
    using hash_size_upd [OF track_hash_lt, of t K k "update_first (\<lambda>c. conn_key c = k) f (t (track_hash K k))"]
    by (simp add: hash_update_def Let_def)
qed (simp_all add: hash_invar_def hash_lookup_def hash_size_def)


section \<open>Tracking a connection\<close>

text \<open>The atomic counters.\<close>

definition upd_stats :: "(ull_stats \<Rightarrow> ull_stats) \<Rightarrow> 'w nanonet \<Rightarrow> 'w nanonet" where
  "upd_stats f s = s\<lparr>global_stats := f (global_stats s)\<rparr>"

definition packet_key :: "ull_iphdr \<Rightarrow> ull_tcphdr \<Rightarrow> conn_key" where
  "packet_key ip tcp = (saddr ip, daddr ip, tcp_source tcp, tcp_dest tcp)"

text \<open>What a segment does to the record it belongs to; state 1 is Syn-Sent, 2 Established.\<close>

definition conn_touch :: "u64 \<Rightarrow> ull_tcphdr \<Rightarrow> ull_tcp_conn \<Rightarrow> ull_tcp_conn" where
  "conn_touch now tcp c =
     (let c = c\<lparr>last_seen := now\<rparr>
      in if syn tcp \<and> \<not> ack tcp then c\<lparr>conn_state := 1\<rparr>
         else if syn tcp \<and> ack tcp
         then c\<lparr>conn_state := 2, conn_seq_num := ntohl (seq tcp), conn_ack_num := ntohl (ack_seq tcp)\<rparr>
         else c)"

definition conn_new :: "nat \<Rightarrow> u64 \<Rightarrow> ull_iphdr \<Rightarrow> ull_tcphdr \<Rightarrow> ull_tcp_conn" where
  "conn_new addr now ip tcp =
     \<lparr>src_ip = saddr ip, dst_ip = daddr ip, src_port = tcp_source tcp, dst_port = tcp_dest tcp,
      conn_seq_num = ntohl (seq tcp), conn_ack_num = 0, conn_state = 1, last_seen = now,
      conn_addr = addr\<rparr>"

definition sizeof_tcp_conn :: nat where [simp]: "sizeof_tcp_conn = 48"

definition nanonet_track_tcp_connection ::
    "'w kernel \<Rightarrow> ull_iphdr \<Rightarrow> ull_tcphdr \<Rightarrow> 'w nanonet \<Rightarrow> int \<times> 'w nanonet" where
  "nanonet_track_tcp_connection K ip tcp s =
     (let k = packet_key ip tcp
      in if hash_lookup K (connection_hash s) k \<noteq> None
         then (0, s\<lparr>connection_hash :=
                 hash_update K k (conn_touch (k_jiffies K (world s)) tcp) (connection_hash s)\<rparr>)
         else if syn tcp \<and> \<not> ack tcp then
           (case call (k_kmalloc K sizeof_tcp_conn) s of
              (None, s) \<Rightarrow>
                (- ENOMEM, nanonet_log_error K ''Failed to allocate memory for TCP connection'' s)
            | (Some (addr, _), s) \<Rightarrow>
                (let s = s\<lparr>connection_hash :=
                       hash_insert K (conn_new addr (k_jiffies K (world s)) ip tcp) (connection_hash s)\<rparr>
                 in (0, upd_stats (\<lambda>t. t\<lparr>connections_active := connections_active t + 1\<rparr>) s)))
         else (- EINVAL, s))"

definition drop_conn :: "'w kernel \<Rightarrow> ull_tcp_conn \<Rightarrow> 'w nanonet \<Rightarrow> 'w nanonet" where
  "drop_conn K c s =
     upd_stats (\<lambda>t. t\<lparr>connections_active := connections_active t - 1,
                      connections_dropped := connections_dropped t + 1\<rparr>)
       (callu (k_kfree K (conn_addr c)) s)"

definition clear_bucket :: "'w kernel \<Rightarrow> nat \<Rightarrow> 'w nanonet \<Rightarrow> 'w nanonet" where
  "clear_bucket K i s =
     (let s' = fold (drop_conn K) (connection_hash s i) s
      in s'\<lparr>connection_hash := (connection_hash s')(i := [])\<rparr>)"

definition nanonet_clear_tcp_connections :: "'w kernel \<Rightarrow> 'w nanonet \<Rightarrow> 'w nanonet" where
  "nanonet_clear_tcp_connections K s = fold (clear_bucket K) [0..<1024] s"

subsection \<open>The tracker implements a map of connections\<close>

lemma key_conn_touch [simp]: "conn_key (conn_touch now tcp c) = conn_key c"
  by (simp add: conn_touch_def conn_key_def Let_def)

lemma key_conn_new [simp]: "conn_key (conn_new addr now ip tcp) = packet_key ip tcp"
  by (simp add: conn_new_def conn_key_def packet_key_def)

text \<open>The contract, on a map from keys to records.\<close>

definition track_spec ::
    "u64 \<Rightarrow> (nat \<times> u64) option \<Rightarrow> ull_iphdr \<Rightarrow> ull_tcphdr \<Rightarrow> (conn_key \<rightharpoonup> ull_tcp_conn) \<Rightarrow> int \<times> (conn_key \<rightharpoonup> ull_tcp_conn)"
where
  "track_spec now fresh ip tcp m =
     (case m (packet_key ip tcp) of
        Some c \<Rightarrow> (0, m(packet_key ip tcp \<mapsto> conn_touch now tcp c))
      | None \<Rightarrow>
          if \<not> (syn tcp \<and> \<not> ack tcp) then (- EINVAL, m)
          else (case fresh of None \<Rightarrow> (- ENOMEM, m)
                | Some (addr, now') \<Rightarrow> (0, m(packet_key ip tcp \<mapsto> conn_new addr now' ip tcp))))"

text \<open>What the allocator gives: the address of the block and the time after the call.\<close>

definition fresh_conn :: "'w kernel \<Rightarrow> 'w \<Rightarrow> (nat \<times> u64) option" where
  "fresh_conn K w =
     (case k_kmalloc K sizeof_tcp_conn w of (r, w') \<Rightarrow> map_option (\<lambda>(addr, _). (addr, k_jiffies K w')) r)"

text \<open>C7. The tracker implements a finite map of connections: for a connection it knows it updates the record, for
  a new one it accepts only a SYN and inserts a fresh record, and in every other case it leaves
  the map alone; this whatever the hash function computes.\<close>

theorem track_refines_map:
  assumes inv: "hash_invar K (connection_hash s)"
  shows "(case nanonet_track_tcp_connection K ip tcp s of
            (r, s') \<Rightarrow> (r, hash_lookup K (connection_hash s')))
       = track_spec (k_jiffies K (world s)) (fresh_conn K (world s)) ip tcp
           (hash_lookup K (connection_hash s))"
proof (cases "hash_lookup K (connection_hash s) (packet_key ip tcp)")
  case None
  then show ?thesis
    using ct.lookup_ins [OF inv, of "conn_new addr now ip tcp" for addr now]
    by (auto simp: nanonet_track_tcp_connection_def track_spec_def Let_def call_eq upd_stats_def
        fresh_conn_def frame_simps split: option.split prod.split)
next
  case (Some c)
  then show ?thesis
    using ct.lookup_upd [OF inv, of "conn_touch (k_jiffies K (world s)) tcp" "packet_key ip tcp"]
    by (simp add: nanonet_track_tcp_connection_def track_spec_def)
qed

lemma sample_hash_invar: "hash_invar sample_kernel (connection_hash (sample_state proto))"
  by (simp add: hash_invar_def)

theorem track_refines_map_witness:
  "(case nanonet_track_tcp_connection sample_kernel sample_iphdr sample_syn (sample_state 6) of
      (r, s') \<Rightarrow> (r, hash_lookup sample_kernel (connection_hash s')))
   = track_spec 1000 (Some (100, 1000)) sample_iphdr sample_syn Map.empty"
proof -
  have e: "hash_lookup sample_kernel (\<lambda>_. []) = Map.empty"
    by (auto simp: hash_lookup_def)
  show ?thesis
    using track_refines_map [OF sample_hash_invar, of sample_iphdr sample_syn 6]
    by (simp add: e fresh_conn_def sample_world_def take_res_def)
qed

section \<open>The count of connections\<close>

definition conn_inv :: "'w kernel \<Rightarrow> 'w nanonet \<Rightarrow> bool" where
  "conn_inv K s \<longleftrightarrow> hash_invar K (connection_hash s)
     \<and> connections_active (global_stats s) = of_nat (hash_size (connection_hash s))"

lemma track_conn_inv:
  assumes "conn_inv K s"
  shows "conn_inv K (snd (nanonet_track_tcp_connection K ip tcp s))"
proof (cases "hash_lookup K (connection_hash s) (packet_key ip tcp)")
  case None
  then show ?thesis
    using assms ct.invar_ins [of K "connection_hash s" "conn_new addr now ip tcp" for addr now]
      ct.size_ins [of K "connection_hash s" "conn_new addr now ip tcp" for addr now]
    by (auto simp: conn_inv_def nanonet_track_tcp_connection_def Let_def call_eq upd_stats_def
        frame_simps split: option.split prod.split)
next
  case (Some c)
  then show ?thesis
    using assms ct.invar_upd [of K "connection_hash s" "conn_touch (k_jiffies K (world s)) tcp" "packet_key ip tcp"]
      ct.size_upd [of K "connection_hash s" "packet_key ip tcp"]
    by (simp add: conn_inv_def nanonet_track_tcp_connection_def)
qed

lemma fold_drop_conn:
  "fold (drop_conn K) cs s =
     s\<lparr>world := fold (k_kfree K) (map conn_addr cs) (world s),
       global_stats := (global_stats s)
         \<lparr>connections_active := connections_active (global_stats s) - of_nat (length cs),
          connections_dropped := connections_dropped (global_stats s) + of_nat (length cs)\<rparr>\<rparr>"
  by (induction cs arbitrary: s) (simp_all add: drop_conn_def upd_stats_def callu_def algebra_simps)

lemma fold_clear_bucket:
  "fold (clear_bucket K) [0..<n] s =
     s\<lparr>world := fold (k_kfree K) (map conn_addr (concat (map (connection_hash s) [0..<n]))) (world s),
       global_stats := (global_stats s)
         \<lparr>connections_active := connections_active (global_stats s) - of_nat (\<Sum>i<n. length (connection_hash s i)),
          connections_dropped := connections_dropped (global_stats s) + of_nat (\<Sum>i<n. length (connection_hash s i))\<rparr>,
       connection_hash := (\<lambda>i. if i < n then [] else connection_hash s i)\<rparr>"
  by (induction n) (auto simp: clear_bucket_def fold_drop_conn Let_def algebra_simps fun_eq_iff)

lemma clear_all_connections:
  assumes "hash_invar K (connection_hash s)"
  shows "nanonet_clear_tcp_connections K s =
     s\<lparr>world := fold (k_kfree K) (map conn_addr (concat (map (connection_hash s) [0..<1024]))) (world s),
       global_stats := (global_stats s)
         \<lparr>connections_active := connections_active (global_stats s) - of_nat (hash_size (connection_hash s)),
          connections_dropped := connections_dropped (global_stats s) + of_nat (hash_size (connection_hash s))\<rparr>,
       connection_hash := (\<lambda>_. [])\<rparr>"
proof -
  have "(\<lambda>i. if i < 1024 then [] else connection_hash s i) = (\<lambda>_. [])"
    using hash_invar_outside [OF assms] by (auto simp: fun_eq_iff)
  then show ?thesis
    by (simp only: nanonet_clear_tcp_connections_def fold_clear_bucket hash_size_def)
qed


lemma clear_conn_inv:
  assumes "conn_inv K s"
  shows "conn_inv K (nanonet_clear_tcp_connections K s)"
  using assms ct.invar_empty [of K]
  by (simp add: conn_inv_def clear_all_connections hash_size_def)

datatype conn_event = Segment ull_iphdr ull_tcphdr | ClearConnections

fun conn_step :: "'w kernel \<Rightarrow> conn_event \<Rightarrow> 'w nanonet \<Rightarrow> 'w nanonet" where
  "conn_step K (Segment ip tcp) s = snd (nanonet_track_tcp_connection K ip tcp s)"
| "conn_step K ClearConnections s = nanonet_clear_tcp_connections K s"

interpretation tracker: machine "conn_step K" "\<lambda>_. True" "conn_inv K" for K :: "'w kernel"
proof unfold_locales
  fix e and s :: "'w nanonet"
  assume "conn_inv K s"
  then show "conn_inv K (conn_step K e s)"
    by (cases e) (simp_all add: track_conn_inv clear_conn_inv)
qed

lemma initial_conn_inv: "conn_inv K (initial_nanonet w)"
  by (simp add: conn_inv_def initial_nanonet_def initial_stats_def hash_invar_def hash_size_def)

text \<open>C13. From the initial state, after any sequence of TCP segments and clear commands, every record is in the
  bucket of its key, no key occurs twice, and the counter of active connections is the number
  of records in the table.\<close>

theorem connections_active_counts:
  "conn_inv K (fold (conn_step K) es (initial_nanonet w))"
  by (rule tracker.run_inv) (simp_all add: initial_conn_inv list_all_iff)

lemma sample_conn_inv: "conn_inv sample_kernel (sample_state proto)"
  using sample_hash_invar [of proto] by (simp add: conn_inv_def initial_stats_def hash_size_def)

text \<open>The state after one SYN.\<close>

definition sample_tracking :: "sample_world nanonet" where
  "sample_tracking = snd (nanonet_track_tcp_connection sample_kernel sample_iphdr sample_syn (sample_state 6))"

lemma sample_tracking_size: "conn_inv sample_kernel sample_tracking" "hash_size (connection_hash sample_tracking) = 1"
proof -
  show "conn_inv sample_kernel sample_tracking"
    unfolding sample_tracking_def by (rule track_conn_inv) (rule sample_conn_inv)
  have "hash_lookup sample_kernel (\<lambda>_. []) k = None" for k
    by (simp add: hash_lookup_def)
  then show "hash_size (connection_hash sample_tracking) = 1"
    using ct.size_ins [of sample_kernel "\<lambda>_. []"] ct.invar_empty [of sample_kernel]
    by (simp add: sample_tracking_def nanonet_track_tcp_connection_def Let_def call_eq sample_syn_def upd_stats_def
        hash_size_def)
qed

text \<open>C29. Clearing frees the block of every tracked connection, in table order and each once, empties the table and
  moves their number from the active to the dropped counter.\<close>

theorem clear_frees_every_connection:
  assumes "hash_invar K (connection_hash s)"
  shows "nanonet_clear_tcp_connections K s =
     s\<lparr>world := fold (k_kfree K) (map conn_addr (concat (map (connection_hash s) [0..<1024]))) (world s),
       global_stats := (global_stats s)
         \<lparr>connections_active := connections_active (global_stats s) - of_nat (hash_size (connection_hash s)),
          connections_dropped := connections_dropped (global_stats s) + of_nat (hash_size (connection_hash s))\<rparr>,
       connection_hash := (\<lambda>_. [])\<rparr>"
  using assms by (rule clear_all_connections)

theorem clear_frees_every_connection_witness:
  "connections_active (global_stats (nanonet_clear_tcp_connections sample_kernel sample_tracking)) = 0
    \<and> connection_hash (nanonet_clear_tcp_connections sample_kernel sample_tracking) = (\<lambda>_. [])"
  using clear_frees_every_connection [of sample_kernel sample_tracking] sample_tracking_size
  by (simp add: conn_inv_def)

section \<open>Validation\<close>

definition nanonet_validate_packet :: "'w kernel \<Rightarrow> ull_iphdr \<Rightarrow> 'w nanonet \<Rightarrow> int \<times> 'w nanonet" where
  "nanonet_validate_packet K ip s =
     (let (ok, s) = call (k_ratelimit K nanonet_ratelimit) s
      in if \<not> ok then (- EBUSY, printk_ratelimited K ''NANONET: Rate limit exceeded'' s)
         else if saddr ip = 0 \<or> unat (tot_len ip) < sizeof_iphdr
         then (- EINVAL, nanonet_log_error K ''Invalid packet: zero source IP or insufficient length'' s)
         else (0, s))"

definition nanonet_check_permissions :: "'w kernel \<Rightarrow> 'w nanonet \<Rightarrow> int" where
  "nanonet_check_permissions K s = (if capable_net_admin K (world s) then 0 else - EPERM)"

definition nanonet_validate_config :: "'w kernel \<Rightarrow> ull_config \<Rightarrow> 'w nanonet \<Rightarrow> int \<times> 'w nanonet" where
  "nanonet_validate_config K c s =
     (if target_ip c = 0 \<or> response_ip c = 0 \<or> target_port c = 0 \<or> response_port c = 0
      then (- EINVAL, nanonet_log_error K ''Invalid config: zero IP or port'' s)
      else if cfg_protocol c \<noteq> IPPROTO_TCP \<and> cfg_protocol c \<noteq> IPPROTO_UDP
      then (- EINVAL, nanonet_log_error K (''Invalid protocol: '' @ fmt_d (uint (cfg_protocol c))) s)
      else if multicast c \<and> multicast_group c = 0
      then (- EINVAL, nanonet_log_error K ''Invalid multicast group'' s)
      else (0, s))"

text \<open>What a usable configuration is.\<close>

definition config_valid :: "ull_config \<Rightarrow> bool" where
  "config_valid c \<longleftrightarrow> target_ip c \<noteq> 0 \<and> response_ip c \<noteq> 0 \<and> target_port c \<noteq> 0 \<and> response_port c \<noteq> 0
     \<and> (cfg_protocol c = IPPROTO_TCP \<or> cfg_protocol c = IPPROTO_UDP)
     \<and> (multicast c \<longrightarrow> multicast_group c \<noteq> 0)"

lemma validate_config_result:
  "fst (nanonet_validate_config K c s) = (if config_valid c then 0 else - EINVAL)"
  by (auto simp: nanonet_validate_config_def config_valid_def)

lemma validate_config_frame [frame_simps]:
  "global_config (snd (nanonet_validate_config K c s)) = global_config s"
  "global_stats (snd (nanonet_validate_config K c s)) = global_stats s"
  "connection_hash (snd (nanonet_validate_config K c s)) = connection_hash s"
  "the_pool (snd (nanonet_validate_config K c s)) = the_pool s"
  by (simp_all add: nanonet_validate_config_def frame_simps)

lemma validate_packet_frame [frame_simps]:
  "global_config (snd (nanonet_validate_packet K ip s)) = global_config s"
  "global_stats (snd (nanonet_validate_packet K ip s)) = global_stats s"
  "connection_hash (snd (nanonet_validate_packet K ip s)) = connection_hash s"
  "the_pool (snd (nanonet_validate_packet K ip s)) = the_pool s"
  by (simp_all add: nanonet_validate_packet_def printk_ratelimited_def call_eq printk_def frame_simps)

text \<open>
  The length test reads \<open>tot_len\<close> without \<open>ntohs\<close>: the sizes it refuses are those whose
  low byte is zero and whose high byte is below 20.
\<close>

lemma raw_length_test:
  "unat (tot_len ip) < 20 \<longleftrightarrow> unat (ntohs (tot_len ip)) mod 256 = 0 \<and> unat (ntohs (tot_len ip)) div 256 < 20"
proof -
  define q r where "q = unat (tot_len ip) div 256" and "r = unat (tot_len ip) mod 256"
  have t: "unat (tot_len ip) = r + 256 * q" "r < 256" "q < 256"
    using unat_u16_le [of "tot_len ip"] by (auto simp: q_def r_def)
  have n: "unat (ntohs (tot_len ip)) = q + 256 * r"
    by (simp add: unat_ntohs q_def r_def)
  have "unat (ntohs (tot_len ip)) mod 256 = q" "unat (ntohs (tot_len ip)) div 256 = r"
    using t n by simp_all
  with t show ?thesis by auto
qed

text \<open>C37. The length test of \<open>nanonet_validate_packet\<close> reads the field in host order: it refuses exactly the
  packets whose length is a multiple of 256 below 5120, and lets a length below 20 through.\<close>

theorem validate_packet_length:
  assumes "fst (k_ratelimit K nanonet_ratelimit (world s))" and "saddr ip \<noteq> 0"
  shows "fst (nanonet_validate_packet K ip s) =
    (if unat (ntohs (tot_len ip)) mod 256 = 0 \<and> unat (ntohs (tot_len ip)) div 256 < 20 then - EINVAL else 0)"
  using assms raw_length_test [of ip] by (simp add: nanonet_validate_packet_def call_eq)

theorem validate_packet_length_witness:
  "fst (nanonet_validate_packet sample_kernel (sample_iphdr\<lparr>tot_len := 0x0005\<rparr>) (sample_state 6)) = - EINVAL"
  using validate_packet_length [of sample_kernel "sample_state 6" "sample_iphdr\<lparr>tot_len := 0x0005\<rparr>"]
  by (simp add: sample_iphdr_def ntohs_def stw_def ldw_def le_bytes_numeral)

end
