(* ===== verification/Optimizations.thy ===== *)
theory Optimizations
  imports Security
begin

text \<open>
  src/optimizations.c: the pool of preallocated response buffers, the raw transmit call
  and the second, shorter packet parser.

  Clients draw buffers through the interface \<open>buffer_supply\<close>: a finite list of items handed out
  in order and then nothing. The array with its two indices is shown to implement it.
\<close>

unbundle bit_operations_syntax

text \<open>The calling task is bound to CPU 0.\<close>

definition nanonet_set_cpu_affinity :: "'w kernel \<Rightarrow> 'w nanonet \<Rightarrow> 'w nanonet" where
  "nanonet_set_cpu_affinity K = callu (k_set_cpus_allowed K (insert 0 {}))"

section \<open>The interface of a supply\<close>

fun draws :: "('s \<Rightarrow> 'a option \<times> 's) \<Rightarrow> nat \<Rightarrow> 's \<Rightarrow> 'a option list \<times> 's" where
  "draws get 0 s = ([], s)"
| "draws get (Suc n) s = (let (x, s) = get s; (xs, s) = draws get n s in (x # xs, s))"

locale buffer_supply =
  fixes invar :: "'s \<Rightarrow> bool"
    and avail :: "'s \<Rightarrow> 'a list"
    and get :: "'s \<Rightarrow> 'a option \<times> 's"
  assumes invar_get: "invar s \<Longrightarrow> invar (snd (get s))"
    and get_result: "invar s \<Longrightarrow> fst (get s) = (case avail s of [] \<Rightarrow> None | x # _ \<Rightarrow> Some x)"
    and avail_get: "invar s \<Longrightarrow> avail (snd (get s)) = tl (avail s)"
begin

lemma draws_invar: "invar s \<Longrightarrow> invar (snd (draws get n s))"
proof (induction n arbitrary: s)
  case (Suc n)
  from Suc.IH [OF invar_get [OF Suc.prems]] show ?case
    by (simp add: Let_def split_beta)
qed simp

lemma draws_avail: "invar s \<Longrightarrow> avail (snd (draws get n s)) = drop n (avail s)"
proof (induction n arbitrary: s)
  case (Suc n)
  from Suc.IH [OF invar_get [OF Suc.prems]] show ?case
    by (simp add: Let_def split_beta avail_get Suc.prems drop_Suc)
qed simp

lemma draws_result:
  "invar s \<Longrightarrow> fst (draws get n s) = map Some (take n (avail s)) @ replicate (n - length (avail s)) None"
proof (induction n arbitrary: s)
  case (Suc n)
  from Suc.IH [OF invar_get [OF Suc.prems]] show ?case
    by (cases "avail s") (simp_all add: Let_def split_beta avail_get get_result Suc.prems replicate_append_same)
qed simp

end

section \<open>The response pool\<close>

definition set_pool :: "nat \<Rightarrow> sk_buff option \<Rightarrow> 'w nanonet \<Rightarrow> 'w nanonet" where
  "set_pool i v s = s\<lparr>the_pool := (the_pool s)\<lparr>pool := (pool (the_pool s))(i := v)\<rparr>\<rparr>"

definition reset_indices :: "'w nanonet \<Rightarrow> 'w nanonet" where
  "reset_indices s = s\<lparr>the_pool := (the_pool s)\<lparr>pool_head := 0, pool_tail := 0\<rparr>\<rparr>"

text \<open>\<open>kfree_skb\<close> ignores a null pointer.\<close>

definition kfree_skb_ptr :: "'w kernel \<Rightarrow> sk_buff option \<Rightarrow> 'w nanonet \<Rightarrow> 'w nanonet" where
  "kfree_skb_ptr K p s = (case p of None \<Rightarrow> s | Some skb \<Rightarrow> callu (k_kfree_skb K skb) s)"

text \<open>\<open>while (--i >= 0) kfree_skb(pool[i])\<close>\<close>

fun release_below :: "'w kernel \<Rightarrow> nat \<Rightarrow> 'w nanonet \<Rightarrow> 'w nanonet" where
  "release_below K 0 s = s"
| "release_below K (Suc i) s = release_below K i (kfree_skb_ptr K (pool (the_pool s) i) s)"

function fill_pool :: "'w kernel \<Rightarrow> nat \<Rightarrow> 'w nanonet \<Rightarrow> int \<times> 'w nanonet" where
  "fill_pool K i s =
     (if i < RESPONSE_POOL_SIZE then
        (case call (k_alloc_skb K 1500) s of
           (None, s) \<Rightarrow>
             (let s = set_pool i None s;
                  s = nanonet_log_error K
                        (''Failed to allocate skb for response pool at index '' @ fmt_u i) s
              in (- ENOMEM, release_below K i s))
         | (Some skb, s) \<Rightarrow> fill_pool K (Suc i) (set_pool i (Some skb) s))
      else (0, s))"
  by pat_completeness auto
termination
  by (relation "measure (\<lambda>(K, i, s). RESPONSE_POOL_SIZE - i)") auto

declare fill_pool.simps [simp del]

definition nanonet_init_response_pool :: "'w kernel \<Rightarrow> 'w nanonet \<Rightarrow> int \<times> 'w nanonet" where
  "nanonet_init_response_pool K s = fill_pool K 0 (reset_indices s)"

definition cleanup_slot :: "'w kernel \<Rightarrow> nat \<Rightarrow> 'w nanonet \<Rightarrow> 'w nanonet" where
  "cleanup_slot K i s =
     (case pool (the_pool s) i of None \<Rightarrow> s
      | Some skb \<Rightarrow> set_pool i None (callu (k_kfree_skb K skb) s))"

definition nanonet_cleanup_response_pool :: "'w kernel \<Rightarrow> 'w nanonet \<Rightarrow> 'w nanonet" where
  "nanonet_cleanup_response_pool K s =
     reset_indices (fold (cleanup_slot K) [0..<RESPONSE_POOL_SIZE] s)"

definition nanonet_get_response_skb :: "'w kernel \<Rightarrow> 'w nanonet \<Rightarrow> sk_buff option \<times> 'w nanonet" where
  "nanonet_get_response_skb K s =
     (let head = pool_head (the_pool s); tail = pool_tail (the_pool s)
      in if (head + 1) mod RESPONSE_POOL_SIZE = tail
         then (None, nanonet_log_error K ''Response pool empty'' s)
         else let skb = pool (the_pool s) head;
                  s = set_pool head None s;
                  s = s\<lparr>the_pool := (the_pool s)\<lparr>pool_head := (head + 1) mod RESPONSE_POOL_SIZE\<rparr>\<rparr>
              in (skb, s))"

text \<open>
  The pool between initialisation and clean-up: the tail stays at zero, the slots below the
  head have been handed out, the others hold a buffer.
\<close>

definition pool_inv :: "'w nanonet \<Rightarrow> bool" where
  "pool_inv s \<longleftrightarrow> pool_tail (the_pool s) = 0 \<and> pool_head (the_pool s) < 256
     \<and> (\<forall>i. pool (the_pool s) i = None \<longleftrightarrow> i < pool_head (the_pool s) \<or> 256 \<le> i)"

text \<open>The buffers in the slots from \<open>i\<close> on, and those a client can still get.\<close>

definition slots_from :: "nat \<Rightarrow> 'w nanonet \<Rightarrow> sk_buff list" where
  "slots_from i s = map (\<lambda>j. the (pool (the_pool s) j)) [i..<256]"

definition pool_avail :: "'w nanonet \<Rightarrow> sk_buff list" where
  "pool_avail s = map (\<lambda>j. the (pool (the_pool s) j)) [pool_head (the_pool s)..<255]"

lemma pool_avail_Nil_iff: "pool_inv s \<Longrightarrow> pool_avail s = [] \<longleftrightarrow> pool_head (the_pool s) = 255"
  by (auto simp: pool_avail_def pool_inv_def)

lemma get_empty:
  assumes "pool_inv s" and "pool_head (the_pool s) = 255"
  shows "fst (nanonet_get_response_skb K s) = None
    \<and> the_pool (snd (nanonet_get_response_skb K s)) = the_pool s"
  using assms by (simp add: nanonet_get_response_skb_def pool_inv_def frame_simps)

lemma get_nonempty:
  assumes "pool_inv s" and "pool_head (the_pool s) < 255"
  shows "nanonet_get_response_skb K s =
     (pool (the_pool s) (pool_head (the_pool s)),
      s\<lparr>the_pool := (the_pool s)\<lparr>pool := (pool (the_pool s))(pool_head (the_pool s) := None),
                                  pool_head := pool_head (the_pool s) + 1\<rparr>\<rparr>)"
  using assms by (simp add: nanonet_get_response_skb_def pool_inv_def set_pool_def Let_def)

interpretation rp: buffer_supply pool_inv pool_avail "nanonet_get_response_skb K" for K :: "'w kernel"
proof unfold_locales
  fix s :: "'w nanonet"
  assume inv: "pool_inv s"
  have cases: "pool_head (the_pool s) = 255 \<or> pool_head (the_pool s) < 255"
    using inv by (auto simp: pool_inv_def)
  show "pool_inv (snd (nanonet_get_response_skb K s))"
    using cases get_empty [OF inv] get_nonempty [OF inv] inv
    by (auto simp: pool_inv_def split: if_splits)
  have hd: "[h..<255] = h # [Suc h..<255]" if "h < 255" for h :: nat
    using that by (rule upt_conv_Cons)
  show "fst (nanonet_get_response_skb K s) = (case pool_avail s of [] \<Rightarrow> None | x # _ \<Rightarrow> Some x)"
    using cases get_empty [OF inv] get_nonempty [OF inv] inv
    by (auto simp: pool_avail_def hd pool_inv_def)
  show "pool_avail (snd (nanonet_get_response_skb K s)) = tl (pool_avail s)"
    using cases get_empty [OF inv] get_nonempty [OF inv]
    by (auto simp: pool_avail_def hd)
qed


subsection \<open>From initialisation to clean-up\<close>

lemma fill_pool_step:
  assumes "fill_pool K i s = (0, s')" and "i < 256"
  obtains skb where "fst (call (k_alloc_skb K 1500) s) = Some skb"
    "fill_pool K (Suc i) (set_pool i (Some skb) (snd (call (k_alloc_skb K 1500) s))) = (0, s')"
  using assms
  by (cases "fst (k_alloc_skb K 1500 (world s))")
    (simp_all add: fill_pool.simps [of K i s] Let_def call_eq)

lemma fill_pool_ok:
  assumes "fill_pool K i s = (0, s')" and "i \<le> 256"
    and "\<And>j. pool (the_pool s) j = None \<longleftrightarrow> i \<le> j"
  shows "pool_head (the_pool s') = pool_head (the_pool s) \<and> pool_tail (the_pool s') = pool_tail (the_pool s)
    \<and> (\<forall>j. pool (the_pool s') j = None \<longleftrightarrow> 256 \<le> j)"
  using assms
proof (induction "256 - i" arbitrary: i s)
  case 0
  then have "i = 256" by simp
  with 0 show ?case by (simp add: fill_pool.simps [of K 256 s])
next
  case (Suc n)
  then have i: "i < 256" by simp
  define s1 where "s1 = snd (call (k_alloc_skb K 1500) s)"
  obtain skb where rest: "fill_pool K (Suc i) (set_pool i (Some skb) s1) = (0, s')"
    using fill_pool_step [OF Suc.prems(1) i] unfolding s1_def by blast
  have s1: "the_pool s1 = the_pool s"
    by (simp add: s1_def frame_simps)
  have slots: "pool (the_pool (set_pool i (Some skb) s1)) j = None \<longleftrightarrow> Suc i \<le> j" for j
    by (cases "j = i") (simp_all add: set_pool_def s1 Suc.prems(3), linarith)
  have "n = 256 - Suc i" "Suc i \<le> 256"
    using Suc.hyps(2) i by simp_all
  from Suc.hyps(1) [OF this(1) rest this(2) slots] show ?case
    by (simp add: set_pool_def s1)
qed

lemma init_pool_inv:
  assumes "nanonet_init_response_pool K s = (0, s')" and "\<And>i. pool (the_pool s) i = None"
  shows "pool_inv s' \<and> pool_head (the_pool s') = 0"
  using fill_pool_ok [of K 0 "reset_indices s" s'] assms
  by (simp add: nanonet_init_response_pool_def reset_indices_def pool_inv_def)

lemma fold_cleanup_slot:
  "fold (cleanup_slot K) [0..<n] s =
     s\<lparr>world := fold (k_kfree_skb K) (List.map_filter (pool (the_pool s)) [0..<n]) (world s),
       the_pool := (the_pool s)\<lparr>pool := (\<lambda>i. if i < n then None else pool (the_pool s) i)\<rparr>\<rparr>"
proof (induction n)
  case (Suc n)
  have upd: "(\<lambda>i. if i < Suc n then None else pool (the_pool s) i)
      = (\<lambda>i. if i < n then None else pool (the_pool s) i)(n := None)"
    by auto
  have none: "(\<lambda>i. if i < n then None else pool (the_pool s) i)(n := None)
      = (\<lambda>i. if i < n then None else pool (the_pool s) i)" if "pool (the_pool s) n = None"
    using that by auto
  show ?case
    unfolding upd
    by (cases "pool (the_pool s) n")
      (simp_all add: Suc cleanup_slot_def [of K n] set_pool_def callu_def map_filter_def none)
qed (simp add: map_filter_def)


lemma map_filter_all: "(\<And>x. x \<in> set xs \<Longrightarrow> f x \<noteq> None) \<Longrightarrow> List.map_filter f xs = map (\<lambda>x. the (f x)) xs"
  by (induction xs) (auto simp: map_filter_def)

lemma map_filter_none: "(\<And>x. x \<in> set xs \<Longrightarrow> f x = None) \<Longrightarrow> List.map_filter f xs = []"
  by (induction xs) (auto simp: map_filter_def)

lemma map_filter_append: "List.map_filter f (xs @ ys) = List.map_filter f xs @ List.map_filter f ys"
  by (simp add: map_filter_def)

text \<open>Clean-up frees the buffers that are left, in order, each once.\<close>

lemma cleanup_frees:
  assumes "pool_inv s"
  shows "world (nanonet_cleanup_response_pool K s) =
      fold (k_kfree_skb K) (slots_from (pool_head (the_pool s)) s) (world s)
    \<and> (\<forall>i. pool (the_pool (nanonet_cleanup_response_pool K s)) i = None)"
proof -
  define h where "h = pool_head (the_pool s)"
  have h: "h < 256" and slots: "\<And>i. pool (the_pool s) i = None \<longleftrightarrow> i < h \<or> 256 \<le> i"
    using assms by (auto simp: pool_inv_def h_def)
  have "List.map_filter (pool (the_pool s)) [0..<256]
      = List.map_filter (pool (the_pool s)) ([0..<h] @ [h..<256])"
    using h upt_add_eq_append [of 0 h "256 - h"] by simp
  also have "\<dots> = slots_from h s"
    unfolding map_filter_append slots_from_def
    by (subst map_filter_none, simp add: slots, subst map_filter_all) (auto simp: slots)
  finally show ?thesis
    using slots by (simp add: nanonet_cleanup_response_pool_def fold_cleanup_slot reset_indices_def h_def)
qed

lemma avail_slots: "pool_inv s \<Longrightarrow> slots_from (pool_head (the_pool s)) s = pool_avail s @ [the (pool (the_pool s) 255)]"
proof -
  assume "pool_inv s"
  then have "[pool_head (the_pool s)..<256] = [pool_head (the_pool s)..<255] @ [255]"
    using upt_Suc [of "pool_head (the_pool s)" 255] by (simp add: pool_inv_def)
  then show ?thesis by (simp add: slots_from_def pool_avail_def)
qed


lemma get_keeps_last:
  assumes "pool_inv s"
  shows "pool (the_pool (snd (nanonet_get_response_skb K s))) 255 = pool (the_pool s) 255"
proof -
  have "pool_head (the_pool s) = 255 \<or> pool_head (the_pool s) < 255"
    using assms by (auto simp: pool_inv_def)
  then show ?thesis
    using get_empty [OF assms] get_nonempty [OF assms] by auto
qed

lemma draws_keep_last:
  "pool_inv s \<Longrightarrow> pool (the_pool (snd (draws (nanonet_get_response_skb K) n s))) 255 = pool (the_pool s) 255"
proof (induction n arbitrary: s)
  case (Suc n)
  from Suc.IH [OF rp.invar_get [OF Suc.prems, of K]] show ?case
    by (simp add: Let_def split_beta get_keeps_last Suc.prems)
qed simp

text \<open>C9. The life of the response pool: initialisation fills 256 slots; the first 255 requests get those buffers in
  order, each once, and every later request gets nothing; clean-up frees exactly the buffers
  that were not handed out, each once, and leaves every slot empty.\<close>

theorem pool_lifecycle:
  assumes init: "nanonet_init_response_pool K s = (0, s1)" and fresh: "\<And>i. pool (the_pool s) i = None"
  shows "length (slots_from 0 s1) = 256
    \<and> fst (draws (nanonet_get_response_skb K) n s1) =
        map Some (take (min n 255) (slots_from 0 s1)) @ replicate (n - 255) None
    \<and> (let s2 = snd (draws (nanonet_get_response_skb K) n s1)
       in world (nanonet_cleanup_response_pool K s2) =
            fold (k_kfree_skb K) (drop (min n 255) (slots_from 0 s1)) (world s2)
        \<and> (\<forall>i. pool (the_pool (nanonet_cleanup_response_pool K s2)) i = None))"
proof -
  have inv: "pool_inv s1" and head: "pool_head (the_pool s1) = 0"
    using init_pool_inv [OF init fresh] by auto
  define s2 where "s2 = snd (draws (nanonet_get_response_skb K) n s1)"
  have inv2: "pool_inv s2"
    unfolding s2_def by (rule rp.draws_invar) (rule inv)
  have all: "slots_from 0 s1 = pool_avail s1 @ [the (pool (the_pool s1) 255)]"
    using avail_slots [OF inv] head by simp
  have len: "length (pool_avail s1) = 255"
    by (simp only: pool_avail_def head length_map length_upt)
  have "slots_from (pool_head (the_pool s2)) s2 = drop n (pool_avail s1) @ [the (pool (the_pool s1) 255)]"
    using avail_slots [OF inv2] rp.draws_avail [OF inv, of K n] draws_keep_last [OF inv, of K n]
    by (simp add: s2_def)
  also have "\<dots> = drop (min n 255) (slots_from 0 s1)"
    by (simp add: all len min_def)
  finally have rest: "slots_from (pool_head (the_pool s2)) s2 = drop (min n 255) (slots_from 0 s1)" .
  have "fst (draws (nanonet_get_response_skb K) n s1) =
      map Some (take (min n 255) (slots_from 0 s1)) @ replicate (n - 255) None"
    using rp.draws_result [OF inv, of K n] by (simp add: all len min_def)
  moreover have "length (slots_from 0 s1) = 256"
    by (simp only: slots_from_def length_map length_upt)
  ultimately show ?thesis
    using cleanup_frees [OF inv2, of K] rest by (simp add: s2_def [symmetric] Let_def)
qed

lemma fill_pool_succeeds:
  assumes "\<And>w. fst (k_alloc_skb K 1500 w) \<noteq> None"
  shows "fst (fill_pool K i s) = 0"
proof (induction "256 - i" arbitrary: i s)
  case 0
  then show ?case by (simp add: fill_pool.simps [of K i s])
next
  case (Suc n)
  obtain skb where "fst (k_alloc_skb K 1500 (world s)) = Some skb"
    using assms by blast
  with Suc show ?case by (simp add: fill_pool.simps [of K i s] call_eq)
qed

lemma sample_pool:
  "nanonet_init_response_pool sample_kernel (sample_state proto) =
     (0, snd (nanonet_init_response_pool sample_kernel (sample_state proto)))"
  using fill_pool_succeeds [of sample_kernel 0 "reset_indices (sample_state proto)"]
  by (simp add: nanonet_init_response_pool_def prod_eq_iff)

theorem pool_lifecycle_witness:
  "let s1 = snd (nanonet_init_response_pool sample_kernel (sample_state 17))
   in length (slots_from 0 s1) = 256
    \<and> fst (draws (nanonet_get_response_skb sample_kernel) 300 s1) =
        map Some (take 255 (slots_from 0 s1)) @ replicate 45 None"
  using pool_lifecycle [OF sample_pool, of 17 300] by (simp add: Let_def)

section \<open>Transmission\<close>

definition nanonet_raw_send ::
    "'w kernel \<Rightarrow> sk_buff option \<Rightarrow> net_device option \<Rightarrow> 'w nanonet \<Rightarrow> int \<times> 'w nanonet" where
  "nanonet_raw_send K skb dev s =
     (case (skb, dev) of
        (Some b, Some d) \<Rightarrow>
          call (k_dev_queue_xmit K (b\<lparr>skb_dev := Some d, skb_protocol := htons ETH_P_IP\<rparr>)) s
      | _ \<Rightarrow>
          (- EINVAL,
           nanonet_log_error K ''Invalid skb or device for raw send'' (kfree_skb_ptr K skb s)))"

section \<open>The optimised parser\<close>

fun hex_digits :: "nat \<Rightarrow> nat list" where
  "hex_digits n = (if n < 16 then [n] else hex_digits (n div 16) @ [n mod 16])"

declare hex_digits.simps [simp del]

definition fmt_x :: "nat \<Rightarrow> string" where
  "fmt_x n = map (\<lambda>d. if d < 10 then char_of (48 + d) else char_of (87 + d)) (hex_digits n)"

text \<open>
  \<open>nanonet_parse_packet_optimized\<close>: no version check, no checksums. It stores through
  \<open>ip_hdr\<close>, \<open>payload\<close> and \<open>payload_len\<close> only; \<open>out\<close> is what the caller's variables
  hold before the call.
\<close>

definition optimized_payload ::
    "'w kernel \<Rightarrow> sk_buff \<Rightarrow> nat \<Rightarrow> nat \<Rightarrow> parsed \<Rightarrow> 'w nanonet \<Rightarrow> (int \<times> parsed) \<times> 'w nanonet" where
  "optimized_payload K skb ip_hdr_len transport_hdr_len out s =
     (let len = int_of_size_t (ucast (skb_len skb) - of_nat sizeof_ethhdr - of_nat ip_hdr_len
                  - of_nat transport_hdr_len)
      in if len < 0
         then ((0, out\<lparr>p_payload := None, p_payload_len := 0\<rparr>),
               nanonet_log_error K ''Negative payload length calculated'' s)
         else ((0, out\<lparr>p_payload := Some (sizeof_ethhdr + ip_hdr_len + transport_hdr_len),
                       p_payload_len := len\<rparr>), s))"

definition nanonet_parse_packet_optimized ::
    "'w kernel \<Rightarrow> sk_buff \<Rightarrow> parsed \<Rightarrow> 'w nanonet \<Rightarrow> ((int \<times> parsed) \<times> 'w nanonet) option" where
  "nanonet_parse_packet_optimized K skb out s =
     (let fail = (\<lambda>code out msg. Some ((- code, out), nanonet_log_error K msg s));
          len = unat (skb_len skb); size = fmt_d (sint (skb_len skb))
      in if len < sizeof_ethhdr + sizeof_iphdr then fail EINVAL out (''Invalid packet size: '' @ size)
         else do {
           eth \<leftarrow> load_ethhdr skb 0;
           if h_proto eth \<noteq> htons ETH_P_IP
           then fail EPROTONOSUPPORT out (''Unsupported protocol: '' @ fmt_x (unat (ntohs (h_proto eth))))
           else do {
             ip \<leftarrow> load_iphdr skb sizeof_ethhdr;
             let out = out\<lparr>p_ip_hdr := Some sizeof_ethhdr\<rparr>;
             let ip_hdr_len = unat (version_ihl ip AND 0x0F) * 4;
             let transport_hdr = sizeof_ethhdr + ip_hdr_len;
             if ip_hdr_len < sizeof_iphdr
             then fail EINVAL out (''Invalid IP header length: '' @ fmt_u ip_hdr_len)
             else if ip_protocol ip = IPPROTO_TCP then
               (if len < sizeof_ethhdr + ip_hdr_len + sizeof_tcphdr
                then fail EINVAL out (''Invalid TCP packet size: '' @ size)
                else do {
                  tcp \<leftarrow> load_tcphdr skb transport_hdr;
                  let transport_hdr_len = unat (doff tcp) * 4;
                  if transport_hdr_len < sizeof_tcphdr
                  then fail EINVAL out (''Invalid TCP header length: '' @ fmt_u transport_hdr_len)
                  else Some (optimized_payload K skb ip_hdr_len transport_hdr_len out s)
                })
             else if ip_protocol ip = IPPROTO_UDP then
               (if len < sizeof_ethhdr + ip_hdr_len + sizeof_udphdr
                then fail EINVAL out (''Invalid UDP packet size: '' @ size)
                else Some (optimized_payload K skb ip_hdr_len sizeof_udphdr out s))
             else fail EPROTONOSUPPORT out (''Unsupported transport protocol: '' @ fmt_u (unat (ip_protocol ip)))
           }
         })"

lemma optimized_payload_agrees:
  "\<exists>out' s'. optimized_payload K skb ihl thl out s = ((0, out'), s')
     \<and> p_ip_hdr out' = p_ip_hdr out
     \<and> p_payload out' = p_payload (parse_payload skb ihl thl q)
     \<and> p_payload_len out' = p_payload_len (parse_payload skb ihl thl q)"
  by (simp add: optimized_payload_def parse_payload_def Let_def)

lemma parse_payload_ip: "p_ip_hdr (parse_payload skb ihl thl q) = p_ip_hdr q"
  by (simp add: parse_payload_def Let_def)

text \<open>C19. Whenever the full parser accepts a packet, the optimised parser accepts it too and finds the same IP header
  and the same payload.\<close>

theorem optimized_agrees:
  assumes "ull_parse_packet skb = Some (0, p)"
  shows "\<exists>out' s'. nanonet_parse_packet_optimized K skb out s = Some ((0, out'), s')
     \<and> p_ip_hdr out' = p_ip_hdr p \<and> p_payload out' = p_payload p \<and> p_payload_len out' = p_payload_len p"
  using assms
proof (cases rule: parse_ok_cases)
  case (1 eth ip hdr)
  define ihl where "ihl = unat (version_ihl ip AND 0x0F) * 4"
  have proto: "h_proto eth = htons ETH_P_IP"
    using 1(2) by (metis ntohs_ntohs)
  have ip_p: "p_ip_hdr p = Some 14 \<and> (\<exists>thl. nanonet_parse_packet_optimized K skb out s =
      Some (optimized_payload K skb ihl thl (out\<lparr>p_ip_hdr := Some 14\<rparr>) s)
      \<and> (\<exists>q. p = parse_payload skb ihl thl q))"
    using 1(8)
  proof (cases rule: parse_transport_ok_cases)
    case (tcp tcp)
    have "nanonet_parse_packet_optimized K skb out s =
        Some (optimized_payload K skb ihl (unat (doff tcp) * 4) (out\<lparr>p_ip_hdr := Some 14\<rparr>) s)"
      using 1(1,3,5) proto tcp(1-4)
      by (simp add: nanonet_parse_packet_optimized_def Let_def ihl_def)
    with tcp(5) show ?thesis
      unfolding ihl_def by (auto simp: parse_payload_ip parsed_null_def)
  next
    case (udp udp)
    have "nanonet_parse_packet_optimized K skb out s =
        Some (optimized_payload K skb ihl 8 (out\<lparr>p_ip_hdr := Some 14\<rparr>) s)"
      using 1(1,3,5) proto udp(1-3)
      by (simp add: nanonet_parse_packet_optimized_def Let_def ihl_def)
    with udp(5) show ?thesis
      unfolding ihl_def by (auto simp: parse_payload_ip parsed_null_def)
  qed
  then obtain thl q where run: "nanonet_parse_packet_optimized K skb out s =
      Some (optimized_payload K skb ihl thl (out\<lparr>p_ip_hdr := Some 14\<rparr>) s)"
    and p: "p = parse_payload skb ihl thl q"
    by blast
  obtain out' s' where "optimized_payload K skb ihl thl (out\<lparr>p_ip_hdr := Some 14\<rparr>) s = ((0, out'), s')"
    "p_ip_hdr out' = Some 14" "p_payload out' = p_payload p" "p_payload_len out' = p_payload_len p"
    using optimized_payload_agrees [of K skb ihl thl "out\<lparr>p_ip_hdr := Some 14\<rparr>" s q] p by auto
  with run ip_p show ?thesis
    by (intro exI [of _ out'] exI [of _ s']) simp
qed

theorem optimized_agrees_witness:
  "\<exists>out' s'. nanonet_parse_packet_optimized sample_kernel (sample_received (sample_udp_packet 219 129))
       parsed_null (sample_state 17) = Some ((0, out'), s')
     \<and> p_ip_hdr out' = Some 14 \<and> p_payload out' = Some 42 \<and> p_payload_len out' = 24"
  using optimized_agrees [OF parse_sample_udp] by simp

end
