(* ===== verification/Response_Sender.thy ===== *)
theory Response_Sender
  imports Optimizations
begin

text \<open>
  src/response_sender.c: building a response packet in a socket buffer and sending it.

  The \<open>config\<close> argument of the C functions is \<open>&global_config\<close> at every call, so the
  definitions read and write the global. \<open>orig\<close> is the packet being answered; the only
  caller passes none.
\<close>

unbundle bit_operations_syntax

section \<open>The headers of a response\<close>

definition zero_mac :: "u8 list" where
  "zero_mac = replicate 6 0"

definition response_eth :: "sk_buff option \<Rightarrow> ull_ethhdr option" where
  "response_eth orig = (case orig of
       None \<Rightarrow> Some \<lparr>h_dest = zero_mac, h_source = zero_mac, h_proto = htons ETH_P_IP\<rparr>
     | Some skb \<Rightarrow> map_option (\<lambda>eth. \<lparr>h_dest = h_source eth, h_source = h_dest eth, h_proto = htons ETH_P_IP\<rparr>)
         (load_ethhdr skb 0))"

definition response_ip_unchecked :: "ull_config \<Rightarrow> u32 \<Rightarrow> nat \<Rightarrow> ull_iphdr" where
  "response_ip_unchecked c dst len =
     \<lparr>version_ihl = 0x45, tos = 0, tot_len = htons (of_nat len), ip_id = 0, frag_off = htons IP_DF,
      ttl = 64, ip_protocol = cfg_protocol c, ip_check = 0, saddr = response_ip c, daddr = dst\<rparr>"

text \<open>\<open>len\<close> counts the IP header, the transport header and the response.\<close>

definition response_iphdr :: "ull_config \<Rightarrow> u32 \<Rightarrow> nat \<Rightarrow> ull_iphdr" where
  "response_iphdr c dst len =
     (let h = response_ip_unchecked c dst len
      in h\<lparr>ip_check := nanonet_compute_checksum (iphdr_bytes h)\<rparr>)"

definition response_tcp :: "ull_config \<Rightarrow> ull_tcphdr option \<Rightarrow> ull_tcphdr" where
  "response_tcp c orig_tcp =
     \<lparr>tcp_source = response_port c,
      tcp_dest = (case orig_tcp of Some t \<Rightarrow> tcp_source t | None \<Rightarrow> target_port c),
      seq = htonl (cfg_seq_num c),
      ack_seq = (case orig_tcp of Some t \<Rightarrow> htonl (ntohl (seq t) + 1) | None \<Rightarrow> 0),
      res1 = 0, doff = 5, fin = False, syn = False, rst = False, psh = True,
      ack = (orig_tcp \<noteq> None), urg = False, ece = False, cwr = False,
      window = htons 65535, tcp_check = 0, urg_ptr = 0\<rparr>"

definition response_udp :: "ull_config \<Rightarrow> ull_udphdr option \<Rightarrow> nat \<Rightarrow> ull_udphdr" where
  "response_udp c orig_udp response_len =
     \<lparr>udp_source = response_port c,
      udp_dest = (case orig_udp of Some u \<Rightarrow> udp_source u | None \<Rightarrow> target_port c),
      udp_len = htons (of_nat (sizeof_udphdr + response_len)), udp_check = 0\<rparr>"

text \<open>
  The transport header, with the original one read at the offset its IP header gives.
\<close>

definition response_transport :: "ull_config \<Rightarrow> sk_buff option \<Rightarrow> ull_iphdr option \<Rightarrow> nat \<Rightarrow> u8 list option" where
  "response_transport c orig orig_ip response_len =
     (let off = (case orig_ip of None \<Rightarrow> 0 | Some ip \<Rightarrow> sizeof_ethhdr + unat (version_ihl ip AND 0x0F) * 4)
      in if cfg_protocol c = IPPROTO_TCP then
           (case orig of
              None \<Rightarrow> Some (tcphdr_bytes (response_tcp c None))
            | Some skb \<Rightarrow> map_option (\<lambda>t. tcphdr_bytes (response_tcp c (Some t))) (load_tcphdr skb off))
         else
           (case orig of
              None \<Rightarrow> Some (udphdr_bytes (response_udp c None response_len))
            | Some skb \<Rightarrow> map_option (\<lambda>u. udphdr_bytes (response_udp c (Some u) response_len)) (load_udphdr skb off)))"

definition transport_hdr_len :: "ull_config \<Rightarrow> nat" where
  "transport_hdr_len c = (if cfg_protocol c = IPPROTO_TCP then sizeof_tcphdr else sizeof_udphdr)"

section \<open>Building the packet\<close>

definition fill_response ::
    "'w kernel \<Rightarrow> sk_buff option \<Rightarrow> u8 list \<Rightarrow> ull_config \<Rightarrow> sk_buff \<Rightarrow> fault + sk_buff" where
  "fill_response K orig data c skb =
     and_then (need MemFault (response_eth orig)) (\<lambda>eth.
     and_then (need SkbOverPanic (skb_put_bytes (ethhdr_bytes eth) (skb_reserve (NET_IP_ALIGN K) skb))) (\<lambda>skb.
     and_then (need MemFault (case orig of None \<Rightarrow> Some None
                 | Some o' \<Rightarrow> map_option Some (load_iphdr o' sizeof_ethhdr))) (\<lambda>orig_ip.
     let dst = (case orig_ip of Some ip \<Rightarrow> saddr ip | None \<Rightarrow> target_ip c);
         ip = response_iphdr c dst (sizeof_iphdr + transport_hdr_len c + length data)
     in
     and_then (need SkbOverPanic (skb_put_bytes (iphdr_bytes ip) skb)) (\<lambda>skb.
     and_then (need MemFault (response_transport c orig orig_ip (length data))) (\<lambda>tr.
     and_then (need SkbOverPanic (skb_put_bytes tr skb)) (\<lambda>skb.
     need SkbOverPanic (skb_put_bytes data skb)))))))"

text \<open>A pool buffer if there is one, a fresh buffer otherwise.\<close>

definition obtain_response_skb :: "'w kernel \<Rightarrow> nat \<Rightarrow> 'w nanonet \<Rightarrow> sk_buff option \<times> 'w nanonet" where
  "obtain_response_skb K total_len s =
     (case nanonet_get_response_skb K s of
        (Some skb, s) \<Rightarrow> (Some skb, s)
      | (None, s) \<Rightarrow>
          (case call (k_alloc_skb K (total_len + NET_IP_ALIGN K)) s of
             (Some skb, s) \<Rightarrow> (Some skb, s)
           | (None, s) \<Rightarrow> (None, nanonet_log_error K ''Failed to allocate response skb'' s)))"

definition nanonet_create_response_packet ::
    "'w kernel \<Rightarrow> sk_buff option \<Rightarrow> u8 list \<Rightarrow> 'w nanonet \<Rightarrow> fault + (sk_buff option \<times> 'w nanonet)" where
  "nanonet_create_response_packet K orig data s =
     (let c = global_config s
      in if response_ip c = 0 \<or> response_port c = 0
         then Inr (None, nanonet_log_error K ''Invalid response IP or port'' s)
         else if cfg_protocol c \<noteq> IPPROTO_TCP \<and> cfg_protocol c \<noteq> IPPROTO_UDP
         then Inr (None, nanonet_log_error K (''Unsupported protocol: '' @ fmt_d (uint (cfg_protocol c))) s)
         else
           (case obtain_response_skb K (sizeof_ethhdr + sizeof_iphdr + transport_hdr_len c + length data) s of
              (None, s) \<Rightarrow> Inr (None, s)
            | (Some skb, s) \<Rightarrow>
                and_then (fill_response K orig data c skb) (\<lambda>skb.
                  let (dev, s) = (case orig of Some o' \<Rightarrow> (skb_dev o', s)
                                  | None \<Rightarrow> call (k_dev_get_by_name K ''eth0'') s)
                  in case dev of
                       None \<Rightarrow> Inr (None, nanonet_log_error K ''Failed to get network device''
                                 (callu (k_kfree_skb K skb) s))
                     | Some d \<Rightarrow> Inr (Some (skb\<lparr>skb_dev := Some d, skb_protocol := htons ETH_P_IP\<rparr>), s))))"

section \<open>Sending it\<close>

definition NET_XMIT_SUCCESS :: int where [simp]: "NET_XMIT_SUCCESS = 0"

text \<open>\<open>data\<close> is the response pointer with the \<open>response_len\<close> bytes behind it.\<close>

definition nanonet_send_response ::
    "'w kernel \<Rightarrow> sk_buff option \<Rightarrow> u8 list option \<Rightarrow> 'w nanonet \<Rightarrow> fault + (int \<times> 'w nanonet)" where
  "nanonet_send_response K orig data s =
     (case data of
        None \<Rightarrow> Inr (- EINVAL, nanonet_log_error K ''Invalid response data or length'' s)
      | Some bs \<Rightarrow>
          if bs = [] then Inr (- EINVAL, nanonet_log_error K ''Invalid response data or length'' s)
          else
            and_then (nanonet_create_response_packet K orig bs s) (\<lambda>(skb, s).
              case skb of
                None \<Rightarrow> Inr (- ENOMEM, s)
              | Some b \<Rightarrow>
                  (let (result, s) = nanonet_raw_send K (Some b) (skb_dev b) s
                   in if result \<noteq> NET_XMIT_SUCCESS
                      then Inr (- EIO, nanonet_log_error K (''Failed to send response: '' @ fmt_d result)
                             (callu (k_kfree_skb K b) s))
                      else Inr (0, s\<lparr>global_config := (global_config s)
                             \<lparr>cfg_seq_num := cfg_seq_num (global_config s) + of_nat (length bs)\<rparr>\<rparr>))))"

section \<open>The bytes of a response\<close>

lemma skb_put_bytes_ok:
  assumes wf: "skb_wf skb" and fits: "skb_off skb + unat (skb_len skb) + length bs \<le> length (skb_buf skb)"
    and small: "length (skb_buf skb) < 2 ^ 32"
  shows "\<exists>skb'. skb_put_bytes bs skb = Some skb' \<and> skb_bytes skb' = skb_bytes skb @ bs
    \<and> skb_wf skb' \<and> skb_off skb' = skb_off skb \<and> length (skb_buf skb') = length (skb_buf skb)
    \<and> unat (skb_len skb') = unat (skb_len skb) + length bs \<and> skb_addr skb' = skb_addr skb"
proof -
  define tail where "tail = skb_off skb + unat (skb_len skb)"
  have len: "unat (skb_len skb + of_nat (length bs)) = unat (skb_len skb) + length bs"
    using fits small by (simp add: unat_word_ariths unat_of_nat)
  let ?buf = "take tail (skb_buf skb) @ bs @ drop (tail + length bs) (skb_buf skb)"
  have "skb_put_bytes bs skb = Some (skb\<lparr>skb_len := skb_len skb + of_nat (length bs), skb_buf := ?buf\<rparr>)"
    using fits by (simp add: skb_put_bytes_def skb_put_def poke_def Let_def tail_def)
  moreover have "length ?buf = length (skb_buf skb)"
    using fits by (simp add: tail_def)
  moreover have "drop (skb_off skb) ?buf =
      drop (skb_off skb) (take tail (skb_buf skb)) @ bs @ drop (tail + length bs) (skb_buf skb)"
    using fits by (simp add: tail_def)
  then have "take (unat (skb_len skb) + length bs) (drop (skb_off skb) ?buf) = skb_bytes skb @ bs"
    using fits by (simp add: skb_bytes_def tail_def drop_take)
  ultimately show ?thesis
    using fits by (simp add: skb_wf_def skb_bytes_def len)
qed


text \<open>A buffer as the allocator hands it out, with room for \<open>n\<close> bytes.\<close>

definition fresh_skb :: "nat \<Rightarrow> sk_buff \<Rightarrow> bool" where
  "fresh_skb n skb \<longleftrightarrow> skb_off skb = 0 \<and> skb_len skb = 0 \<and> n \<le> length (skb_buf skb)
     \<and> length (skb_buf skb) < 2 ^ 32"

text \<open>The response to no packet in particular.\<close>

definition response_bytes :: "ull_config \<Rightarrow> u8 list \<Rightarrow> u8 list" where
  "response_bytes c data =
     ethhdr_bytes \<lparr>h_dest = zero_mac, h_source = zero_mac, h_proto = htons ETH_P_IP\<rparr>
     @ iphdr_bytes (response_iphdr c (target_ip c) (sizeof_iphdr + transport_hdr_len c + length data))
     @ (if cfg_protocol c = IPPROTO_TCP then tcphdr_bytes (response_tcp c None)
        else udphdr_bytes (response_udp c None (length data)))
     @ data"

lemma length_zero_mac [simp]: "length zero_mac = 6"
  by (simp add: zero_mac_def)

lemma fill_response_bytes:
  assumes fresh: "fresh_skb (NET_IP_ALIGN K + 34 + transport_hdr_len c + length data) skb"
  shows "\<exists>skb'. fill_response K None data c skb = Inr skb' \<and> skb_bytes skb' = response_bytes c data
    \<and> skb_wf skb' \<and> skb_addr skb' = skb_addr skb"
proof -
  define e where "e = ethhdr_bytes \<lparr>h_dest = zero_mac, h_source = zero_mac, h_proto = htons ETH_P_IP\<rparr>"
  define i where "i = iphdr_bytes (response_iphdr c (target_ip c) (sizeof_iphdr + transport_hdr_len c + length data))"
  define t where "t = (if cfg_protocol c = IPPROTO_TCP then tcphdr_bytes (response_tcp c None)
        else udphdr_bytes (response_udp c None (length data)))"
  have len: "length e = 14" "length i = 20" "length t = transport_hdr_len c"
    using ip.length_enc tcp.length_enc udp.length_enc
    by (simp_all add: e_def i_def t_def ethhdr_bytes_def transport_hdr_len_def)
  define b where "b = skb_reserve (NET_IP_ALIGN K) skb"
  have b: "skb_wf b" "skb_off b = NET_IP_ALIGN K" "unat (skb_len b) = 0" "skb_buf b = skb_buf skb"
    "skb_bytes b = []" "skb_addr b = skb_addr skb"
    using fresh by (simp_all add: b_def fresh_skb_def skb_reserve_def skb_wf_def skb_bytes_def)
  have room: "NET_IP_ALIGN K + 34 + transport_hdr_len c + length data \<le> length (skb_buf skb)"
    and small: "length (skb_buf skb) < 2 ^ 32"
    using fresh by (simp_all add: fresh_skb_def)
  obtain b1 where b1: "skb_put_bytes e b = Some b1" "skb_bytes b1 = e" "skb_wf b1"
    "skb_off b1 = NET_IP_ALIGN K" "length (skb_buf b1) = length (skb_buf skb)" "unat (skb_len b1) = 14"
    "skb_addr b1 = skb_addr skb"
    using skb_put_bytes_ok [of b e] b room small len by auto
  obtain b2 where b2: "skb_put_bytes i b1 = Some b2" "skb_bytes b2 = e @ i" "skb_wf b2"
    "skb_off b2 = NET_IP_ALIGN K" "length (skb_buf b2) = length (skb_buf skb)" "unat (skb_len b2) = 34"
    "skb_addr b2 = skb_addr skb"
    using skb_put_bytes_ok [of b1 i] b1 room small len by auto
  obtain b3 where b3: "skb_put_bytes t b2 = Some b3" "skb_bytes b3 = e @ i @ t" "skb_wf b3"
    "skb_off b3 = NET_IP_ALIGN K" "length (skb_buf b3) = length (skb_buf skb)"
    "unat (skb_len b3) = 34 + transport_hdr_len c" "skb_addr b3 = skb_addr skb"
    using skb_put_bytes_ok [of b2 t] b2 room small len by auto
  obtain b4 where b4: "skb_put_bytes data b3 = Some b4" "skb_bytes b4 = e @ i @ t @ data" "skb_wf b4"
    "skb_addr b4 = skb_addr skb"
    using skb_put_bytes_ok [of b3 data] b3 room small len by auto
  have "fill_response K None data c skb = Inr b4"
    using b1(1) b2(1) b3(1) b4(1)
    by (simp add: fill_response_def response_eth_def response_transport_def Let_def
        e_def i_def t_def b_def split: if_splits)
  then show ?thesis
    using b4 by (auto simp: response_bytes_def e_def i_def t_def)
qed

section \<open>The checksum of a response\<close>

lemma response_header_sums_to_zero: "nanonet_compute_checksum (iphdr_bytes (response_iphdr c dst len)) = 0"
proof -
  define h where "h = response_ip_unchecked c dst len"
  define pre where "pre = [version_ihl h, tos h] @ stw 2 (tot_len h) @ stw 2 (ip_id h) @ stw 2 (frag_off h) @ [ttl h, ip_protocol h]"
  define post where "post = stw 4 (saddr h) @ stw 4 (daddr h)"
  have "stw 2 (0 :: u16) = [0, 0]"
    by (simp add: stw_def le_bytes_numeral)
  then have "iphdr_bytes h = pre @ [0, 0] @ post"
    by (simp add: iphdr_bytes_def pre_def post_def h_def response_ip_unchecked_def)
  moreover have "iphdr_bytes (h\<lparr>ip_check := x\<rparr>) = pre @ stw 2 x @ post" for x
    by (simp add: iphdr_bytes_def pre_def post_def)
  moreover have "even (length pre)" "length pre + 2 + length post \<le> 65535"
    by (simp_all add: pre_def post_def)
  ultimately show ?thesis
    using compute_checksum_verifies [of pre post "nanonet_compute_checksum (iphdr_bytes h)"]
    by (simp add: response_iphdr_def h_def Let_def)
qed

lemma response_header_rfc1071: "rfc1071 (iphdr_bytes (response_iphdr c dst len)) = 0"
  using compute_checksum_rfc1071 [of "iphdr_bytes (response_iphdr c dst len)"] ip.length_enc
    response_header_sums_to_zero [of c dst len]
  by (simp add: ntohs_zero)

text \<open>C20. Every IP header the module builds carries a correct checksum in the sense of RFC 1071, whatever the
  configuration, the destination and the length.\<close>

theorem response_checksum_valid: "rfc1071 (iphdr_bytes (response_iphdr c dst len)) = 0"
  by (rule response_header_rfc1071)

text \<open>Reading a buffer through its bytes.\<close>

lemma skb_peek_bytes:
  assumes "skb_wf skb" and "i + n \<le> unat (skb_len skb)"
  shows "skb_peek skb i n = Some (take n (drop i (skb_bytes skb)))"
  using assms by (simp add: skb_peek_wf skb_bytes_def drop_take add.commute)

lemma length_skb_bytes: "skb_wf skb \<Longrightarrow> length (skb_bytes skb) = unat (skb_len skb)"
  by (simp add: skb_wf_def skb_bytes_def)

text \<open>C31. The module does not accept its own responses: its parser refuses every packet the module builds whose checksum
  field is not zero.\<close>

theorem own_response_rejected:
  assumes wf: "skb_wf skb" and bytes: "skb_bytes skb = response_bytes c data"
    and nz: "ip_check (response_iphdr c (target_ip c) (20 + transport_hdr_len c + length data)) \<noteq> 0"
  shows "ull_parse_packet skb \<noteq> Some (0, p)"
proof -
  define h where "h = response_iphdr c (target_ip c) (20 + transport_hdr_len c + length data)"
  define e where "e = ethhdr_bytes \<lparr>h_dest = zero_mac, h_source = zero_mac, h_proto = htons ETH_P_IP\<rparr>"
  obtain rest where b: "skb_bytes skb = e @ iphdr_bytes h @ rest"
    using bytes by (auto simp: response_bytes_def h_def e_def)
  have len: "length e = 14" "length (iphdr_bytes h) = 20"
    using ip.length_enc by (simp_all add: e_def ethhdr_bytes_def)
  have "34 \<le> unat (skb_len skb)"
    using length_skb_bytes [OF wf] b len by simp
  then have peek: "skb_peek skb 14 20 = Some (iphdr_bytes h)"
    using skb_peek_bytes [OF wf, of 14 20] b len by simp
  have v: "version_ihl h = 0x45"
    by (simp add: h_def response_iphdr_def response_ip_unchecked_def Let_def)
  have "rfc1071 (iphdr_bytes h) = 0"
    by (simp add: h_def response_header_rfc1071)
  then show ?thesis
    using parse_rejects_valid_checksum [of skb h "iphdr_bytes h" 0 p] peek nz v
    by (auto simp: load_iphdr_def ip.dec_enc h_def)
qed

lemma skb_bytes_received: "length bs < 2 ^ 32 \<Longrightarrow> skb_bytes (sample_received bs) = bs"
  "length bs < 2 ^ 32 \<Longrightarrow> skb_wf (sample_received bs)"
  by (simp_all add: skb_bytes_def sample_received_def unat_of_nat skb_wf_def)

lemma length_response_bytes:
  "length (response_bytes c data) = 34 + transport_hdr_len c + length data"
  using ip.length_enc tcp.length_enc udp.length_enc
  by (simp add: response_bytes_def transport_hdr_len_def ethhdr_bytes_def)

theorem own_response_rejected_witness:
  "ull_parse_packet (sample_received (response_bytes (sample_config 17) [1, 2, 3])) \<noteq> Some (0, parsed_null)"
proof (rule own_response_rejected)
  show "skb_wf (sample_received (response_bytes (sample_config 17) [1, 2, 3]))"
    "skb_bytes (sample_received (response_bytes (sample_config 17) [1, 2, 3])) = response_bytes (sample_config 17) [1, 2, 3]"
    by (simp_all add: skb_bytes_received length_response_bytes transport_hdr_len_def)
  show "ip_check (response_iphdr (sample_config 17) (target_ip (sample_config 17))
      (20 + transport_hdr_len (sample_config 17) + length [1 :: u8, 2, 3])) \<noteq> 0"
    by (simp add: response_iphdr_def response_ip_unchecked_def sample_config_def transport_hdr_len_def Let_def
        iphdr_bytes_def nanonet_compute_checksum_def csum_fold.simps stw_def ldw_def ntohs_def le_bytes_numeral)
qed

section \<open>What sending does\<close>

lemma get_response_frame [frame_simps]:
  "global_config (snd (nanonet_get_response_skb K s)) = global_config s"
  "global_stats (snd (nanonet_get_response_skb K s)) = global_stats s"
  "connection_hash (snd (nanonet_get_response_skb K s)) = connection_hash s"
  "target_dev (snd (nanonet_get_response_skb K s)) = target_dev s"
  by (simp_all add: nanonet_get_response_skb_def Let_def set_pool_def frame_simps)

lemma obtain_response_frame [frame_simps]:
  "global_config (snd (obtain_response_skb K n s)) = global_config s"
  "global_stats (snd (obtain_response_skb K n s)) = global_stats s"
  "connection_hash (snd (obtain_response_skb K n s)) = connection_hash s"
  "target_dev (snd (obtain_response_skb K n s)) = target_dev s"
proof -
  obtain r s1 where g: "nanonet_get_response_skb K s = (r, s1)"
    by fastforce
  note s1 = get_response_frame [of K s, unfolded g snd_conv]
  show "global_config (snd (obtain_response_skb K n s)) = global_config s"
    "global_stats (snd (obtain_response_skb K n s)) = global_stats s"
    "connection_hash (snd (obtain_response_skb K n s)) = connection_hash s"
    "target_dev (snd (obtain_response_skb K n s)) = target_dev s"
    by (simp_all add: obtain_response_skb_def g s1 call_eq frame_simps split: option.split)
qed

lemma create_response_frame:
  assumes "nanonet_create_response_packet K orig data s = Inr (skb, s')"
  shows "global_config s' = global_config s \<and> global_stats s' = global_stats s
    \<and> connection_hash s' = connection_hash s \<and> target_dev s' = target_dev s"
proof -
  let ?n = "34 + transport_hdr_len (global_config s) + length data"
  obtain r s1 where g: "obtain_response_skb K ?n s = (r, s1)"
    by fastforce
  note s1 = obtain_response_frame [of K ?n s, unfolded g snd_conv]
  show ?thesis
    using assms s1
    by (auto simp: nanonet_create_response_packet_def g Let_def and_then_eq_Inr
        call_eq frame_simps split: if_splits option.splits)
qed

lemma raw_send_frame [frame_simps]:
  "global_config (snd (nanonet_raw_send K skb dev s)) = global_config s"
  "global_stats (snd (nanonet_raw_send K skb dev s)) = global_stats s"
  "connection_hash (snd (nanonet_raw_send K skb dev s)) = connection_hash s"
  "target_dev (snd (nanonet_raw_send K skb dev s)) = target_dev s"
  by (simp_all add: nanonet_raw_send_def kfree_skb_ptr_def frame_simps split: option.split)

lemma send_response_frame:
  assumes "nanonet_send_response K orig data s = Inr (r, s')"
  shows "global_stats s' = global_stats s \<and> connection_hash s' = connection_hash s
    \<and> target_dev s' = target_dev s \<and> r \<le> 0
    \<and> (r < 0 \<longrightarrow> global_config s' = global_config s)"
  using assms
  by (auto simp: nanonet_send_response_def and_then_eq_Inr split_beta Let_def frame_simps
      dest!: create_response_frame split: if_splits option.splits)

lemma obtain_response_pool:
  "the_pool (snd (obtain_response_skb K n s)) = the_pool (snd (nanonet_get_response_skb K s))"
proof -
  obtain r s1 where g: "nanonet_get_response_skb K s = (r, s1)"
    by fastforce
  show ?thesis
    by (simp add: obtain_response_skb_def g call_eq frame_simps split: option.split)
qed

lemma pool_inv_cong: "the_pool s = the_pool s' \<Longrightarrow> pool_inv s \<longleftrightarrow> pool_inv s'"
  by (simp add: pool_inv_def)

lemma raw_send_pool: "the_pool (snd (nanonet_raw_send K b d s)) = the_pool s"
  by (simp add: nanonet_raw_send_def kfree_skb_ptr_def frame_simps split: option.split)

text \<open>
  A property of the pool that drawing a buffer keeps is kept by everything that sends
  responses, since nothing else changes the pool.
\<close>

locale pool_property =
  fixes P :: "'w nanonet \<Rightarrow> bool" and K :: "'w kernel"
  assumes pool_cong: "the_pool s = the_pool s' \<Longrightarrow> P s \<longleftrightarrow> P s'"
    and get_keeps: "P s \<Longrightarrow> P (snd (nanonet_get_response_skb K s))"
begin

lemma create_keeps:
  assumes "nanonet_create_response_packet K orig data s = Inr (skb, s')" and "P s"
  shows "P s'"
proof -
  let ?n = "34 + transport_hdr_len (global_config s) + length data"
  obtain r s1 where g: "obtain_response_skb K ?n s = (r, s1)"
    by fastforce
  have s1: "P s1"
    using get_keeps [OF assms(2)] obtain_response_pool [of K ?n s] g pool_cong by (metis snd_conv)
  have "the_pool s' = the_pool s \<or> the_pool s' = the_pool s1"
    using assms(1)
    by (auto simp: nanonet_create_response_packet_def g Let_def and_then_eq_Inr
        call_eq frame_simps split: if_splits option.splits)
  then show ?thesis
    using s1 assms(2) pool_cong by blast
qed

lemma send_keeps:
  assumes "nanonet_send_response K orig data s = Inr (r, s')" and "P s"
  shows "P s'"
proof (cases "data = None \<or> data = Some []")
  case True
  with assms(1) have "the_pool s' = the_pool s"
    by (auto simp: nanonet_send_response_def frame_simps)
  with assms(2) pool_cong show ?thesis by blast
next
  case False
  then obtain bs where data: "data = Some bs" and bs: "bs \<noteq> []"
    by (cases data) auto
  then obtain skb s1 where c: "nanonet_create_response_packet K orig bs s = Inr (skb, s1)"
    using assms(1) by (auto simp: nanonet_send_response_def and_then_eq_Inr)
  have "the_pool s' = the_pool s1"
    using assms(1) False
    by (auto simp: nanonet_send_response_def data c split_beta Let_def frame_simps raw_send_pool
        split: if_splits option.splits)
  with create_keeps [OF c assms(2)] pool_cong show ?thesis by blast
qed

end

interpretation inv: pool_property pool_inv K for K :: "'w kernel"
  by unfold_locales (erule pool_inv_cong, erule rp.invar_get)

lemma create_response_ok:
  assumes cfg: "response_ip (global_config s) \<noteq> 0" "response_port (global_config s) \<noteq> 0"
      "cfg_protocol (global_config s) = IPPROTO_TCP \<or> cfg_protocol (global_config s) = IPPROTO_UDP"
    and skb: "obtain_response_skb K (34 + transport_hdr_len (global_config s) + length data) s = (Some skb, s1)"
    and fresh: "fresh_skb (NET_IP_ALIGN K + 34 + transport_hdr_len (global_config s) + length data) skb"
    and dev: "k_dev_get_by_name K ''eth0'' (world s1) = (Some d, w2)"
  shows "\<exists>skb'. nanonet_create_response_packet K None data s = Inr (Some skb', s1\<lparr>world := w2\<rparr>)
    \<and> skb_bytes skb' = response_bytes (global_config s) data \<and> skb_addr skb' = skb_addr skb
    \<and> skb_dev skb' = Some d \<and> skb_protocol skb' = htons ETH_P_IP"
proof -
  obtain b where b: "fill_response K None data (global_config s) skb = Inr b"
    "skb_bytes b = response_bytes (global_config s) data" "skb_addr b = skb_addr skb"
    using fill_response_bytes [OF fresh] by auto
  have "nanonet_create_response_packet K None data s
      = Inr (Some (b\<lparr>skb_dev := Some d, skb_protocol := htons ETH_P_IP\<rparr>), s1\<lparr>world := w2\<rparr>)"
    using cfg skb b(1) dev
    by (auto simp: nanonet_create_response_packet_def Let_def call_eq)
  with b show ?thesis by (simp add: skb_bytes_def)
qed

lemma send_response_run:
  assumes cfg: "response_ip (global_config s) \<noteq> 0" "response_port (global_config s) \<noteq> 0"
      "cfg_protocol (global_config s) = IPPROTO_TCP \<or> cfg_protocol (global_config s) = IPPROTO_UDP"
    and data: "data \<noteq> []"
    and skb: "obtain_response_skb K (34 + transport_hdr_len (global_config s) + length data) s = (Some skb, s1)"
    and fresh: "fresh_skb (NET_IP_ALIGN K + 34 + transport_hdr_len (global_config s) + length data) skb"
    and dev: "k_dev_get_by_name K ''eth0'' (world s1) = (Some d, w2)"
  shows "\<exists>b. skb_bytes b = response_bytes (global_config s) data \<and> skb_addr b = skb_addr skb \<and> skb_dev b = Some d
    \<and> nanonet_send_response K None (Some data) s =
        (case k_dev_queue_xmit K b w2 of (r, w3) \<Rightarrow>
           if r = 0 then Inr (0, s1\<lparr>world := w3, global_config := (global_config s)
                  \<lparr>cfg_seq_num := cfg_seq_num (global_config s) + of_nat (length data)\<rparr>\<rparr>)
           else Inr (- EIO, nanonet_log_error K (''Failed to send response: '' @ fmt_d r)
                  (s1\<lparr>world := k_kfree_skb K b w3\<rparr>)))"
proof -
  obtain b where b: "nanonet_create_response_packet K None data s = Inr (Some b, s1\<lparr>world := w2\<rparr>)"
    "skb_bytes b = response_bytes (global_config s) data" "skb_addr b = skb_addr skb"
    "skb_dev b = Some d" "skb_protocol b = htons ETH_P_IP"
    using create_response_ok [OF cfg skb fresh dev] by auto
  have same: "b\<lparr>skb_dev := Some d, skb_protocol := htons ETH_P_IP\<rparr> = b"
    using b(4,5) by (cases b) simp
  have g: "global_config s1 = global_config s"
    using obtain_response_frame(1) [of K "34 + transport_hdr_len (global_config s) + length data" s] skb by simp
  have "nanonet_send_response K None (Some data) s =
        (case k_dev_queue_xmit K b w2 of (r, w3) \<Rightarrow>
           if r = 0 then Inr (0, s1\<lparr>world := w3, global_config := (global_config s)
                  \<lparr>cfg_seq_num := cfg_seq_num (global_config s) + of_nat (length data)\<rparr>\<rparr>)
           else Inr (- EIO, nanonet_log_error K (''Failed to send response: '' @ fmt_d r)
                  (s1\<lparr>world := k_kfree_skb K b w3\<rparr>)))"
    using data b(1,4) same g
    by (simp add: nanonet_send_response_def nanonet_raw_send_def call_eq callu_def split_beta)
  with b show ?thesis by blast
qed

lemma sample_obtain:
  "obtain_response_skb sample_kernel n (sample_state proto) =
     (Some (sample_skb 100 (n + 2)), snd (obtain_response_skb sample_kernel n (sample_state proto)))"
  by (simp add: obtain_response_skb_def nanonet_get_response_skb_def set_pool_def call_eq Let_def sample_world_def)

text \<open>C14. Sending a response, given a buffer large enough and a device: the device is handed one buffer holding the
  Ethernet, IP and transport headers and the data; on success only the sequence number of the
  configuration advances, by the length of the data; on failure \<open>-EIO\<close> is returned and
  the buffer, which the device has consumed, is freed again.\<close>

theorem send_response_effect:
  assumes cfg: "response_ip (global_config s) \<noteq> 0" "response_port (global_config s) \<noteq> 0"
      "cfg_protocol (global_config s) = IPPROTO_TCP \<or> cfg_protocol (global_config s) = IPPROTO_UDP"
    and data: "data \<noteq> []"
    and skb: "obtain_response_skb K (34 + transport_hdr_len (global_config s) + length data) s = (Some skb, s1)"
    and fresh: "fresh_skb (NET_IP_ALIGN K + 34 + transport_hdr_len (global_config s) + length data) skb"
    and dev: "k_dev_get_by_name K ''eth0'' (world s1) = (Some d, w2)"
  shows "\<exists>b. skb_bytes b = response_bytes (global_config s) data \<and> skb_addr b = skb_addr skb \<and> skb_dev b = Some d
    \<and> nanonet_send_response K None (Some data) s =
        (case k_dev_queue_xmit K b w2 of (r, w3) \<Rightarrow>
           if r = 0 then Inr (0, s1\<lparr>world := w3, global_config := (global_config s)
                  \<lparr>cfg_seq_num := cfg_seq_num (global_config s) + of_nat (length data)\<rparr>\<rparr>)
           else Inr (- EIO, nanonet_log_error K (''Failed to send response: '' @ fmt_d r)
                  (s1\<lparr>world := k_kfree_skb K b w3\<rparr>)))"
  using assms by (rule send_response_run)

theorem send_response_effect_witness:
  "\<exists>b s'. skb_bytes b = response_bytes (sample_config 17) [1, 2, 3] \<and> skb_dev b = Some sample_dev
    \<and> nanonet_send_response sample_kernel None (Some [1, 2, 3]) (sample_state 17) = Inr (0, s')
    \<and> cfg_seq_num (global_config s') = 3"
  using send_response_effect [of "sample_state 17" "[1, 2, 3]" sample_kernel, OF _ _ _ _ sample_obtain]
  by (auto simp: sample_config_def fresh_skb_def sample_skb_def transport_hdr_len_def)

end
