(* ===== verification/Packet_Processor.thy ===== *)
theory Packet_Processor
  imports Response_Sender
begin

text \<open>
  src/packet_processor.c: the application logic. A market-data message with a price below
  10000 cents is answered with a buy order; the order is built in a block from \<open>kmalloc\<close>,
  whose initial contents are whatever the allocator returns.
\<close>

section \<open>Messages\<close>

record market_data =
  md_symbol :: "u8 list"
  md_price :: u32
  md_quantity :: u32
  md_timestamp :: u64

record trading_order =
  to_symbol :: "u8 list"
  to_price :: u32
  to_quantity :: u32
  to_side :: u8
  to_timestamp :: u64
  to_clOrdId :: "u8 list"

definition sizeof_market_data :: nat where [simp]: "sizeof_market_data = 24"
definition sizeof_trading_order :: nat where [simp]: "sizeof_trading_order = 41"

definition market_bytes :: "market_data \<Rightarrow> u8 list" where
  "market_bytes m = md_symbol m @ stw 4 (md_price m) @ stw 4 (md_quantity m) @ stw 8 (md_timestamp m)"

definition market_of :: "u8 list \<Rightarrow> market_data" where
  "market_of bs = \<lparr>md_symbol = take 8 bs, md_price = ldw (take 4 (drop 8 bs)),
     md_quantity = ldw (take 4 (drop 12 bs)), md_timestamp = ldw (take 8 (drop 16 bs))\<rparr>"

definition order_bytes :: "trading_order \<Rightarrow> u8 list" where
  "order_bytes r = to_symbol r @ stw 4 (to_price r) @ stw 4 (to_quantity r) @ [to_side r] @
     stw 8 (to_timestamp r) @ to_clOrdId r"

definition order_of :: "u8 list \<Rightarrow> trading_order" where
  "order_of bs = \<lparr>to_symbol = take 8 bs, to_price = ldw (take 4 (drop 8 bs)),
     to_quantity = ldw (take 4 (drop 12 bs)), to_side = bs ! 16,
     to_timestamp = ldw (take 8 (drop 17 bs)), to_clOrdId = take 16 (drop 25 bs)\<rparr>"

definition market_ok :: "market_data \<Rightarrow> bool" where
  "market_ok m \<longleftrightarrow> length (md_symbol m) = 8"

definition order_ok :: "trading_order \<Rightarrow> bool" where
  "order_ok r \<longleftrightarrow> length (to_symbol r) = 8 \<and> length (to_clOrdId r) = 16"

interpretation md: packed_layout 24 market_ok market_bytes market_of
proof unfold_locales
  fix bs :: "u8 list"
  assume len: "length bs = 24"
  have s4: "stw 4 (ldw (take 4 (drop i bs)) :: u32) = take 4 (drop i bs)" if "i \<le> 20" for i
    by (rule stw_ldw) (use that len in simp_all)
  have s8: "stw 8 (ldw (take 8 (drop i bs)) :: u64) = take 8 (drop i bs)" if "i \<le> 16" for i
    by (rule stw_ldw) (use that len in simp_all)
  have "bs = take 8 bs @ take 4 (drop 8 bs) @ take 4 (drop 12 bs) @ take 8 (drop 16 bs)"
    using append_take_drop_id [of 8 bs] append_take_drop_id [of 4 "drop 8 bs"]
      append_take_drop_id [of 4 "drop 12 bs"] len by simp
  then show "market_bytes (market_of bs) = bs"
    using s4 [of 8] s4 [of 12] s8 [of 16] by (simp add: market_bytes_def market_of_def)
qed (auto simp: market_bytes_def market_of_def market_ok_def byte_simps)

interpretation ord: struct_layout 41 order_ok order_bytes order_of
  by unfold_locales (auto simp: order_bytes_def order_of_def order_ok_def byte_simps nth_append)

section \<open>Building an order\<close>

text \<open>
  \<open>snprintf(order->clOrdId, 16, "ORD%llu", timestamp)\<close>: at most 15 characters and a
  zero; the bytes after the zero keep what the block held.
\<close>

definition ascii_bytes :: "string \<Rightarrow> u8 list" where
  "ascii_bytes cs = map (\<lambda>c. of_nat (of_char c)) cs"

definition put_cstring :: "string \<Rightarrow> u8 list \<Rightarrow> u8 list" where
  "put_cstring cs old =
     (let text = ascii_bytes (snprintf (length old) cs) @ [0] in text @ drop (length text) old)"

definition order_id :: "u64 \<Rightarrow> string" where
  "order_id ts = ''ORD'' @ fmt_u (unat ts)"

definition new_order :: "market_data \<Rightarrow> u64 \<Rightarrow> u8 list \<Rightarrow> trading_order" where
  "new_order market ts block =
     \<lparr>to_symbol = md_symbol market, to_price = md_price market + 1, to_quantity = 100, to_side = 0,
      to_timestamp = ts, to_clOrdId = put_cstring (order_id ts) (take 16 (drop 25 block))\<rparr>"

text \<open>
  \<open>process_market_data\<close>: the payload is the bytes readable from its pointer (\<open>None\<close> when
  it is null). The response is the order's address and bytes.
\<close>

definition process_market_data ::
    "'w kernel \<Rightarrow> u8 list option \<Rightarrow> int \<Rightarrow> 'w nanonet \<Rightarrow> fault + (int \<times> (nat \<times> u8 list) option \<times> 'w nanonet)"
where
  "process_market_data K payload payload_len s =
     (case payload of
        None \<Rightarrow> Inr (- EINVAL, None, nanonet_log_error K (''Invalid market data size: '' @ fmt_d payload_len) s)
      | Some mem \<Rightarrow>
          if (of_int payload_len :: u64) < of_nat sizeof_market_data
          then Inr (- EINVAL, None, nanonet_log_error K (''Invalid market data size: '' @ fmt_d payload_len) s)
          else
            and_then (need MemFault (map_option market_of (peek mem 0 sizeof_market_data))) (\<lambda>market.
              if md_price market < 10000 then
                (case call (k_kmalloc K sizeof_trading_order) s of
                   (None, s) \<Rightarrow>
                     Inr (- ENOMEM, None, nanonet_log_error K ''Failed to allocate memory for order'' s)
                 | (Some (addr, block), s) \<Rightarrow>
                     (let (ts, s) = get_timestamp_ns K s
                      in Inr (1, Some (addr, order_bytes (new_order market ts block)), s)))
              else Inr (0, None, s)))"

definition nanonet_process_application_logic ::
    "'w kernel \<Rightarrow> u8 list option \<Rightarrow> int \<Rightarrow> 'w nanonet \<Rightarrow> fault + (int \<times> 'w nanonet)" where
  "nanonet_process_application_logic K payload payload_len s =
     (if payload = None \<or> payload_len \<le> 0 then Inr (0, s)
      else if application_logic_type (global_config s) \<noteq> 0
      then Inr (- EINVAL, nanonet_log_error K (''Unknown application logic type: ''
             @ fmt_d (uint (application_logic_type (global_config s)))) s)
      else
        and_then (process_market_data K payload payload_len s) (\<lambda>(result, response, s).
          case response of
            Some (addr, data) \<Rightarrow>
              if result > 0 then
                and_then (nanonet_send_response K None (Some data) s) (\<lambda>(result, s).
                  let s = callu (k_kfree K addr) s
                  in if result < 0
                     then Inr (result, nanonet_log_error K (''Failed to send response: '' @ fmt_d result) s)
                     else Inr (result, s))
              else Inr (result, s)
          | None \<Rightarrow> Inr (result, s)))"

section \<open>Results\<close>

text \<open>\<open>process_market_data\<close> reports a response exactly when it returns 1.\<close>

lemma process_market_data_result:
  assumes "process_market_data K payload n s = Inr (r, resp, s')"
  shows "(r = 1 \<longleftrightarrow> resp \<noteq> None) \<and> (r \<noteq> 1 \<longrightarrow> r \<le> 0)
    \<and> global_config s' = global_config s \<and> global_stats s' = global_stats s
    \<and> connection_hash s' = connection_hash s \<and> the_pool s' = the_pool s"
  using assms
  by (auto simp: process_market_data_def and_then_eq_Inr call_eq get_timestamp_ns_eq Let_def frame_simps
      split: if_splits option.splits prod.splits)

text \<open>The value is overwritten by that of \<open>nanonet_send_response\<close>, so it is never positive.\<close>

lemma application_logic_frame:
  assumes "nanonet_process_application_logic K payload n s = Inr (r, s')"
  shows "r \<le> 0 \<and> global_stats s' = global_stats s \<and> connection_hash s' = connection_hash s"
proof (cases "payload = None \<or> n \<le> 0 \<or> application_logic_type (global_config s) \<noteq> 0")
  case True
  with assms show ?thesis
    by (auto simp: nanonet_process_application_logic_def frame_simps split: if_splits)
next
  case False
  then obtain r1 resp s1 where m: "process_market_data K payload n s = Inr (r1, resp, s1)"
    using assms by (auto simp: nanonet_process_application_logic_def and_then_eq_Inr)
  note m' = process_market_data_result [OF m]
  show ?thesis
  proof (cases resp)
    case None
    with False assms m m' show ?thesis
      by (auto simp: nanonet_process_application_logic_def)
  next
    case (Some ad)
    with False assms m m' show ?thesis
      by (auto simp: nanonet_process_application_logic_def and_then_eq_Inr split_beta Let_def frame_simps
          dest!: send_response_frame split: if_splits)
  qed
qed

context pool_property
begin

lemma application_keeps:
  assumes "nanonet_process_application_logic K payload n s = Inr (r, s')" and "P s"
  shows "P s'"
proof (cases "payload = None \<or> n \<le> 0 \<or> application_logic_type (global_config s) \<noteq> 0")
  case True
  then have "the_pool s' = the_pool s"
    using assms(1) by (auto simp: nanonet_process_application_logic_def frame_simps split: if_splits)
  with assms(2) pool_cong show ?thesis by blast
next
  case False
  then obtain r1 resp s1 where m: "process_market_data K payload n s = Inr (r1, resp, s1)"
    using assms(1) by (auto simp: nanonet_process_application_logic_def and_then_eq_Inr)
  have s1: "P s1"
    using process_market_data_result [OF m] assms(2) pool_cong by blast
  show ?thesis
  proof (cases resp)
    case None
    with False assms(1) m s1 show ?thesis
      by (auto simp: nanonet_process_application_logic_def)
  next
    case (Some ad)
    have log: "P (nanonet_log_error K msg t) \<longleftrightarrow> P t" for msg t
      by (rule pool_cong) (simp add: frame_simps)
    have free: "P (callu f t) \<longleftrightarrow> P t" for f t
      by (rule pool_cong) (simp add: frame_simps)
    show ?thesis
      using Some False assms(1) m s1
      by (auto simp: nanonet_process_application_logic_def and_then_eq_Inr split_beta Let_def log free
          dest: send_keeps split: if_splits)
  qed
qed

end

section \<open>Orders\<close>

lemma length_put_cstring: "old \<noteq> [] \<Longrightarrow> length (put_cstring cs old) = length old"
  by (cases old) (auto simp: put_cstring_def snprintf_def ascii_bytes_def Let_def)

lemma new_order_ok: "market_ok m \<Longrightarrow> length block = 41 \<Longrightarrow> order_ok (new_order m ts block)"
  using length_put_cstring [of "take 16 (drop 25 block)"]
  by (auto simp: order_ok_def market_ok_def new_order_def)

text \<open>
  The identifier holds 12 digits of the time; the current time in nanoseconds has 19.
\<close>

lemma order_id_cut:
  assumes "10 ^ 18 \<le> unat ts" and "unat ts < 10 ^ 19" and "length old = 16"
  shows "put_cstring (order_id ts) old = ascii_bytes (''ORD'' @ fmt_u (unat ts div 10 ^ 7)) @ [0]"
proof -
  have len: "length (dec_digits (unat ts)) = 19"
    using length_dec_digits_eq [of 18 "unat ts"] assms by simp
  have "take 12 (dec_digits (unat ts)) = dec_digits (unat ts div 10 ^ 7)"
    using dec_digits_div [of 7 "unat ts"] assms by (simp add: len)
  then have "take 12 (fmt_u (unat ts)) = fmt_u (unat ts div 10 ^ 7)"
    by (simp add: fmt_u_def take_map)
  then have cut: "snprintf 16 (order_id ts) = ''ORD'' @ fmt_u (unat ts div 10 ^ 7)"
    by (simp add: snprintf_def order_id_def)
  have "length (fmt_u (unat ts div 10 ^ 7)) = 12"
    using length_dec_digits_eq [of 11 "unat ts div 10 ^ 7"] assms
    by (simp add: fmt_u_def less_eq_div_iff_mult_less_eq div_less_iff_less_mult)
  then show ?thesis
    using assms(3) by (simp add: put_cstring_def cut ascii_bytes_def Let_def)
qed

lemma ascii_bytes_eq_iff: "ascii_bytes xs = ascii_bytes ys \<longleftrightarrow> xs = ys"
proof -
  have "inj (\<lambda>c :: char. of_nat (of_char c) :: u8)"
  proof (rule injI)
    fix c d :: char
    assume "(of_nat (of_char c) :: u8) = of_nat (of_char d)"
    then have "unat (of_nat (of_char c) :: u8) = unat (of_nat (of_char d) :: u8)" by simp
    then have "(of_char c :: nat) = of_char d"
      by (simp add: unat_of_nat take_bit_eq_mod)
    then show "c = d" by simp
  qed
  then show ?thesis by (simp add: ascii_bytes_def inj_map_eq_map)
qed

text \<open>C38. The order identifier keeps the first twelve digits of the time stamp: two orders with time stamps of 19 digits
  (the years 2001 to 2286) get the same identifier exactly when their time stamps lie in the same
  slot of ten milliseconds.\<close>

theorem order_ids_collide:
  assumes "10 ^ 18 \<le> unat t1" "unat t1 < 10 ^ 19" "10 ^ 18 \<le> unat t2" "unat t2 < 10 ^ 19"
    and "length b1 = 41" "length b2 = 41"
  shows "to_clOrdId (new_order m1 t1 b1) = to_clOrdId (new_order m2 t2 b2) \<longleftrightarrow> unat t1 div 10 ^ 7 = unat t2 div 10 ^ 7"
  using assms by (simp add: new_order_def order_id_cut ascii_bytes_eq_iff fmt_u_eq_iff)

theorem order_ids_collide_witness:
  "to_clOrdId (new_order (market_of sample_market) 1700000000123456789 (replicate 41 0))
    = to_clOrdId (new_order (market_of sample_market) 1700000000129999999 (replicate 41 0))
   \<and> to_clOrdId (new_order (market_of sample_market) 1700000000129999999 (replicate 41 0))
    \<noteq> to_clOrdId (new_order (market_of sample_market) 1700000000130000000 (replicate 41 0))"
  using order_ids_collide [of 1700000000123456789 1700000000129999999 "replicate 41 0" "replicate 41 0"]
    order_ids_collide [of 1700000000129999999 1700000000130000000 "replicate 41 0" "replicate 41 0"] by simp

lemma unsigned_len_ge: "24 \<le> n \<Longrightarrow> n < 2 ^ 31 \<Longrightarrow> \<not> (of_int n :: u64) < 24"
  by (simp add: word_less_def uint_word_of_int)

text \<open>C24. Market data below the threshold gives one buy order: for the same symbol, one cent above the quoted price
  without wrap-around and at most at the threshold, for 100 pieces, with an identifier that
  starts with ORD.\<close>

theorem buy_order:
  assumes mem: "24 \<le> length mem" "24 \<le> n" "n < 2 ^ 31"
    and price: "md_price (market_of (take 24 mem)) < 10000"
    and block: "k_kmalloc K 41 (world s) = (Some (addr, block), w1)" "length block = 41"
  shows "\<exists>w2 r. process_market_data K (Some mem) n s = Inr (1, Some (addr, r), s\<lparr>world := w2\<rparr>)
    \<and> length r = 41 \<and> to_symbol (order_of r) = take 8 mem
    \<and> unat (to_price (order_of r)) = unat (md_price (market_of (take 24 mem))) + 1
    \<and> unat (to_price (order_of r)) \<le> 10000
    \<and> to_quantity (order_of r) = 100 \<and> to_side (order_of r) = 0
    \<and> take 3 (to_clOrdId (order_of r)) = ascii_bytes ''ORD''"
proof -
  define m where "m = market_of (take 24 mem)"
  define t where "t = ktime_get_real_ts64 K w1"
  define ts where "ts = fst (fst t) * 1000000000 + snd (fst t)"
  define r where "r = order_bytes (new_order m ts block)"
  have m: "market_ok m"
    unfolding m_def using mem by (intro md.ok_dec) simp
  have ok: "order_ok (new_order m ts block)"
    using new_order_ok [OF m block(2)] .
  have run: "process_market_data K (Some mem) n s = Inr (1, Some (addr, r), s\<lparr>world := snd t\<rparr>)"
    using mem price block(1) unsigned_len_ge [OF mem(2,3)]
    by (simp add: process_market_data_def peek_def call_eq get_timestamp_ns_eq Let_def m_def r_def ts_def t_def)
  have len: "length r = 41" and dec: "order_of r = new_order m ts block"
    unfolding r_def using ord.length_enc [OF ok] ord.dec_enc [OF ok] by simp_all
  have p: "unat (md_price m) < 10000"
    using price by (simp add: m_def word_less_nat_alt)
  then have "unat (md_price m + 1) = unat (md_price m) + 1"
    by (simp add: unat_word_ariths)
  moreover have "take 3 (put_cstring (order_id ts) (take 16 (drop 25 block))) = ascii_bytes ''ORD''"
    using block(2) by (simp add: put_cstring_def order_id_def snprintf_def ascii_bytes_def Let_def)
  ultimately show ?thesis
    using run len dec p mem
    by (intro exI [of _ "snd t"] exI [of _ r]) (simp add: new_order_def m_def market_of_def)
qed

theorem buy_order_witness:
  "\<exists>w2 r. process_market_data sample_kernel (Some sample_market) 24 (sample_state 17)
      = Inr (1, Some (100, r), (sample_state 17)\<lparr>world := w2\<rparr>)
    \<and> to_symbol (order_of r) = [65, 65, 80, 76, 32, 32, 32, 32] \<and> unat (to_price (order_of r)) = 10000
    \<and> to_quantity (order_of r) = 100"
  using buy_order [of sample_market 24 sample_kernel "sample_state 17" 100 "replicate 41 0"]
  by (auto simp: sample_market_def sample_world_def market_of_def ldw_def)

text \<open>C39. Market data at or above the threshold gives no order and changes nothing.\<close>

theorem no_order:
  assumes "24 \<le> length mem" "24 \<le> n" "n < 2 ^ 31" and "10000 \<le> md_price (market_of (take 24 mem))"
  shows "process_market_data K (Some mem) n s = Inr (0, None, s)"
  using assms unsigned_len_ge [of n] by (auto simp: process_market_data_def peek_def)

theorem no_order_witness:
  "process_market_data sample_kernel (Some (sample_market[8 := 0x10])) 24 (sample_state 17) = Inr (0, None, sample_state 17)"
  by (rule no_order) (simp_all add: sample_market_def market_of_def ldw_def)

end
