(* ===== verification/Control_Interface.thy ===== *)
theory Control_Interface
  imports Security
begin

text \<open>
  src/control_interface.c: the character device \<open>/dev/nanonet\<close> with its five commands, the
  text of \<open>/proc/nanonet\<close>, and the set-up and tear-down of both.
\<close>

unbundle bit_operations_syntax

section \<open>The commands\<close>

text \<open>
  The command numbers of \<open>_IO\<close>, \<open>_IOW\<close> and \<open>_IOR\<close>: direction, size of the argument,
  magic and number.
\<close>

definition NANONET_IOC_MAGIC :: u32 where
  "NANONET_IOC_MAGIC = 0x75"

definition ioc :: "u32 \<Rightarrow> u32 \<Rightarrow> nat \<Rightarrow> u32" where
  "ioc dir nr argsize = push_bit 30 dir OR push_bit 16 (of_nat argsize) OR push_bit 8 NANONET_IOC_MAGIC OR nr"

definition NANONET_IOC_SET_CONFIG :: u32 where
  "NANONET_IOC_SET_CONFIG = ioc 1 1 sizeof_config"

definition NANONET_IOC_GET_CONFIG :: u32 where
  "NANONET_IOC_GET_CONFIG = ioc 2 2 sizeof_config"

definition NANONET_IOC_GET_STATS :: u32 where
  "NANONET_IOC_GET_STATS = ioc 2 3 sizeof_stats"

definition NANONET_IOC_RESET_STATS :: u32 where
  "NANONET_IOC_RESET_STATS = ioc 0 4 0"

definition NANONET_IOC_CLEAR_CONNECTIONS :: u32 where
  "NANONET_IOC_CLEAR_CONNECTIONS = ioc 0 5 0"

lemmas ioc_defs = NANONET_IOC_SET_CONFIG_def NANONET_IOC_GET_CONFIG_def NANONET_IOC_GET_STATS_def
  NANONET_IOC_RESET_STATS_def NANONET_IOC_CLEAR_CONNECTIONS_def

lemma ioc_numbers [simp]:
  "NANONET_IOC_SET_CONFIG = 0x40207501" "NANONET_IOC_GET_CONFIG = 0x80207502"
  "NANONET_IOC_GET_STATS = 0x80507503" "NANONET_IOC_RESET_STATS = 0x7504"
  "NANONET_IOC_CLEAR_CONNECTIONS = 0x7505"
  by (simp_all add: ioc_defs ioc_def NANONET_IOC_MAGIC_def push_bit_eq_mult)

definition nanonet_open :: "'w kernel \<Rightarrow> 'w nanonet \<Rightarrow> int" where
  "nanonet_open K s = nanonet_check_permissions K s"

definition nanonet_release :: "'w nanonet \<Rightarrow> int" where
  "nanonet_release s = 0"

text \<open>
  \<open>copy_from_user\<close> fills its whole destination, with zeros where the user memory cannot be
  read, and the destination is \<open>global_config\<close> itself.
\<close>

definition ioctl_set_config :: "'w kernel \<Rightarrow> u64 \<Rightarrow> 'w nanonet \<Rightarrow> int \<times> 'w nanonet" where
  "ioctl_set_config K arg s =
     (let ((left, bs), s) = call (k_copy_from_user K arg sizeof_config) s;
          s = s\<lparr>global_config := config_of bs\<rparr>
      in if left \<noteq> 0 then (- EFAULT, nanonet_log_error K ''Failed to copy config from user'' s)
         else let (ret, s) = nanonet_validate_config K (global_config s) s
              in if ret < 0
                 then (ret, nanonet_log_error K (''Invalid configuration: '' @ fmt_d ret) s)
                 else (ret, printk K ''NANONET: Configuration updated'' s))"

definition ioctl_copy_out :: "'w kernel \<Rightarrow> u64 \<Rightarrow> u8 list \<Rightarrow> string \<Rightarrow> 'w nanonet \<Rightarrow> int \<times> 'w nanonet" where
  "ioctl_copy_out K arg bs msg s =
     (let (left, s) = call (k_copy_to_user K arg bs) s
      in if left \<noteq> 0 then (- EFAULT, nanonet_log_error K msg s) else (0, s))"

definition reset_stats :: "ull_stats \<Rightarrow> ull_stats" where
  "reset_stats t = t\<lparr>packets_processed := 0, packets_bypassed := 0, responses_sent := 0, stat_errors := 0,
     connections_active := 0, connections_dropped := 0, last_process_time_ns := 0,
     min_process_time_ns := - 1, max_process_time_ns := 0, avg_process_time_ns := 0\<rparr>"

definition nanonet_ioctl :: "'w kernel \<Rightarrow> u32 \<Rightarrow> u64 \<Rightarrow> 'w nanonet \<Rightarrow> int \<times> 'w nanonet" where
  "nanonet_ioctl K cmd arg s =
     (if cmd = NANONET_IOC_SET_CONFIG then ioctl_set_config K arg s
      else if cmd = NANONET_IOC_GET_CONFIG
      then ioctl_copy_out K arg (config_bytes (global_config s)) ''Failed to copy config to user'' s
      else if cmd = NANONET_IOC_GET_STATS
      then ioctl_copy_out K arg (stats_bytes (global_stats s)) ''Failed to copy stats to user'' s
      else if cmd = NANONET_IOC_RESET_STATS
      then (0, printk K ''NANONET: Statistics reset'' (upd_stats reset_stats s))
      else if cmd = NANONET_IOC_CLEAR_CONNECTIONS
      then (0, printk K ''NANONET: TCP connections cleared'' (nanonet_clear_tcp_connections K s))
      else (- ENOTTY, nanonet_log_error K (''Invalid IOCTL command: '' @ fmt_u (unat cmd)) s))"

section \<open>The status file\<close>

definition nanonet_proc_show :: "'w nanonet \<Rightarrow> string" where
  "nanonet_proc_show s =
     (let c = global_config s; t = global_stats s; nl = [char_of (10 :: nat)]
      in ''NanoNet Module Status'' @ nl @ ''========================================'' @ nl
       @ ''Enabled: '' @ (if enabled c then ''Yes'' else ''No'') @ nl
       @ ''Target IP: '' @ fmt_ipv4 (target_ip c) @ nl
       @ ''Target Port: '' @ fmt_u (unat (ntohs (target_port c))) @ nl
       @ ''Protocol: '' @ (if cfg_protocol c = IPPROTO_TCP then ''TCP'' else ''UDP'') @ nl
       @ ''Multicast: '' @ (if multicast c then ''Yes'' else ''No'') @ nl
       @ (if multicast c then ''Multicast Group: '' @ fmt_ipv4 (multicast_group c) @ nl else [])
       @ nl @ ''Statistics:'' @ nl
       @ ''Packets Processed: '' @ fmt_u (unat (packets_processed t)) @ nl
       @ ''Packets Bypassed: '' @ fmt_u (unat (packets_bypassed t)) @ nl
       @ ''Responses Sent: '' @ fmt_u (unat (responses_sent t)) @ nl
       @ ''Errors: '' @ fmt_u (unat (stat_errors t)) @ nl
       @ ''Active Connections: '' @ fmt_u (unat (connections_active t)) @ nl
       @ ''Dropped Connections: '' @ fmt_u (unat (connections_dropped t)) @ nl
       @ ''Min Process Time: '' @ fmt_u (unat (min_process_time_ns t)) @ '' ns'' @ nl
       @ ''Max Process Time: '' @ fmt_u (unat (max_process_time_ns t)) @ '' ns'' @ nl
       @ ''Avg Process Time: '' @ fmt_u (unat (avg_process_time_ns t)) @ '' ns'' @ nl)"

section \<open>Set-up and tear-down\<close>

text \<open>
  A failed \<open>class_create\<close> or \<open>device_create\<close> gives \<open>Inl\<close> of the error number; the error
  pointer it leaves in the variable is never used again and is stored as \<open>None\<close>.
\<close>

definition ok_ptr :: "int + nat \<Rightarrow> nat option" where
  "ok_ptr r = (case r of Inl _ \<Rightarrow> None | Inr p \<Rightarrow> Some p)"

definition control_proc :: "'w kernel \<Rightarrow> nat \<Rightarrow> 'w nanonet \<Rightarrow> int \<times> 'w nanonet" where
  "control_proc K cls s =
     (let (ok, s) = call (k_proc_create K) s
      in if \<not> ok then
           (- ENOMEM, printk K ''NANONET: Failed to create proc entry''
              (callu (k_unregister_chrdev_region K (nanonet_dev_number s))
                (callu (k_cdev_del K) (callu (k_class_destroy K cls)
                  (callu (k_device_destroy K cls (nanonet_dev_number s)) s)))))
         else (0, printk K ''NANONET: Control interface initialized'' s))"

definition control_device :: "'w kernel \<Rightarrow> nat \<Rightarrow> 'w nanonet \<Rightarrow> int \<times> 'w nanonet" where
  "control_device K cls s =
     (let (r, s) = call (k_device_create K cls (nanonet_dev_number s)) s;
          s = s\<lparr>nanonet_device := ok_ptr r\<rparr>
      in case r of
           Inl e \<Rightarrow> (e, callu (k_unregister_chrdev_region K (nanonet_dev_number s))
                       (callu (k_cdev_del K) (callu (k_class_destroy K cls) s)))
         | Inr _ \<Rightarrow> control_proc K cls s)"

definition control_class :: "'w kernel \<Rightarrow> 'w nanonet \<Rightarrow> int \<times> 'w nanonet" where
  "control_class K s =
     (let (r, s) = call (k_class_create K) s;
          s = s\<lparr>nanonet_class := ok_ptr r\<rparr>
      in case r of
           Inl e \<Rightarrow> (e, callu (k_unregister_chrdev_region K (nanonet_dev_number s)) (callu (k_cdev_del K) s))
         | Inr cls \<Rightarrow> control_device K cls s)"

definition nanonet_control_init :: "'w kernel \<Rightarrow> 'w nanonet \<Rightarrow> int \<times> 'w nanonet" where
  "nanonet_control_init K s =
     (let ((ret, num), s) = call (k_alloc_chrdev_region K) s
      in if ret < 0 then (ret, printk K ''NANONET: Failed to allocate device number'' s)
         else
           (let s = s\<lparr>nanonet_dev_number := num\<rparr>;
                (ret, s) = call (k_cdev_add K num) s
            in if ret < 0 then
                 (ret, printk K ''NANONET: Failed to add character device''
                    (callu (k_unregister_chrdev_region K num) s))
               else control_class K s))"

text \<open>The tear-down runs only after a successful set-up, when both pointers are valid.\<close>

definition nanonet_control_cleanup :: "'w kernel \<Rightarrow> 'w nanonet \<Rightarrow> 'w nanonet" where
  "nanonet_control_cleanup K s =
     (let s = callu (k_remove_proc_entry K) s;
          s = (case nanonet_class s of None \<Rightarrow> s
               | Some cls \<Rightarrow> callu (k_class_destroy K cls)
                              (callu (k_device_destroy K cls (nanonet_dev_number s)) s));
          s = callu (k_cdev_del K) s;
          s = callu (k_unregister_chrdev_region K (nanonet_dev_number s)) s
      in printk K ''NANONET: Control interface cleaned up'' s)"

section \<open>What the commands do\<close>

lemma printk_frame [frame_simps]:
  "global_config (printk K msg s) = global_config s"
  "global_stats (printk K msg s) = global_stats s"
  "target_dev (printk K msg s) = target_dev s"
  "connection_hash (printk K msg s) = connection_hash s"
  "the_pool (printk K msg s) = the_pool s"
  "debug_stats (printk K msg s) = debug_stats s"
  by (simp_all add: printk_def frame_simps)

lemma copy_out_frame [frame_simps]:
  "global_config (snd (ioctl_copy_out K arg bs msg s)) = global_config s"
  "global_stats (snd (ioctl_copy_out K arg bs msg s)) = global_stats s"
  "connection_hash (snd (ioctl_copy_out K arg bs msg s)) = connection_hash s"
  "the_pool (snd (ioctl_copy_out K arg bs msg s)) = the_pool s"
  by (simp_all add: ioctl_copy_out_def call_eq frame_simps)

lemma set_config_eq:
  assumes "fst (k_copy_from_user K arg sizeof_config (world s)) = (left, bs)"
  shows "fst (ioctl_set_config K arg s) =
      (if left \<noteq> 0 then - EFAULT else if config_valid (config_of bs) then 0 else - EINVAL)"
    and "global_config (snd (ioctl_set_config K arg s)) = config_of bs"
    and "global_stats (snd (ioctl_set_config K arg s)) = global_stats s"
    and "connection_hash (snd (ioctl_set_config K arg s)) = connection_hash s"
    and "the_pool (snd (ioctl_set_config K arg s)) = the_pool s"
  using assms validate_config_result [of K "config_of bs"]
  by (simp_all add: ioctl_set_config_def call_eq split_beta Let_def frame_simps)

lemma set_config_valid:
  assumes "fst (k_copy_from_user K arg sizeof_config (world s)) = (0, bs)" and "config_valid (config_of bs)"
  shows "snd (ioctl_set_config K arg s) = s\<lparr>global_config := config_of bs, world :=
      k_printk K ''NANONET: Configuration updated'' (snd (k_copy_from_user K arg sizeof_config (world s)))\<rparr>"
  using assms by (auto simp: ioctl_set_config_def call_eq split_beta Let_def nanonet_validate_config_def config_valid_def
      printk_def callu_def)

lemma clear_frame [frame_simps]:
  "global_config (nanonet_clear_tcp_connections K s) = global_config s"
  "the_pool (nanonet_clear_tcp_connections K s) = the_pool s"
  by (simp_all add: nanonet_clear_tcp_connections_def fold_clear_bucket)

lemma conn_inv_cong:
  "connection_hash s = connection_hash s' \<Longrightarrow> global_stats s = global_stats s' \<Longrightarrow> conn_inv K s \<longleftrightarrow> conn_inv K s'"
  by (simp add: conn_inv_def)

text \<open>No command touches the response pool, and all but the reset keep the connection count right.\<close>

lemma ioctl_pool: "the_pool (snd (nanonet_ioctl K cmd arg s)) = the_pool s"
  using set_config_eq(5) [of K arg s, OF surjective_pairing]
  by (simp add: nanonet_ioctl_def frame_simps upd_stats_def)

lemma ioctl_conn_inv:
  assumes "conn_inv K s" and "cmd \<noteq> NANONET_IOC_RESET_STATS"
  shows "conn_inv K (snd (nanonet_ioctl K cmd arg s))"
proof (cases "cmd = NANONET_IOC_CLEAR_CONNECTIONS")
  case True
  then show ?thesis
    using clear_conn_inv [OF assms(1)] by (simp add: nanonet_ioctl_def conn_inv_def frame_simps)
next
  case False
  then have "connection_hash (snd (nanonet_ioctl K cmd arg s)) = connection_hash s
      \<and> global_stats (snd (nanonet_ioctl K cmd arg s)) = global_stats s"
    using assms(2) set_config_eq(3,4) [of K arg s, OF surjective_pairing]
    by (simp add: nanonet_ioctl_def frame_simps)
  with assms(1) conn_inv_cong show ?thesis by metis
qed

lemma ioctl_config:
  "cmd \<noteq> NANONET_IOC_SET_CONFIG \<Longrightarrow> global_config (snd (nanonet_ioctl K cmd arg s)) = global_config s"
  by (simp add: nanonet_ioctl_def frame_simps upd_stats_def)

text \<open>C23. Setting a configuration: the result says whether it could be read and is valid, but
  the bytes replace the running configuration in every case, also when the command fails; the
  statistics, the connections and the response pool are not touched.\<close>

theorem set_config_installs:
  assumes "fst (k_copy_from_user K arg sizeof_config (world s)) = (left, bs)"
  shows "fst (nanonet_ioctl K NANONET_IOC_SET_CONFIG arg s) =
      (if left \<noteq> 0 then - EFAULT else if config_valid (config_of bs) then 0 else - EINVAL)
    \<and> global_config (snd (nanonet_ioctl K NANONET_IOC_SET_CONFIG arg s)) = config_of bs
    \<and> global_stats (snd (nanonet_ioctl K NANONET_IOC_SET_CONFIG arg s)) = global_stats s
    \<and> connection_hash (snd (nanonet_ioctl K NANONET_IOC_SET_CONFIG arg s)) = connection_hash s
    \<and> the_pool (snd (nanonet_ioctl K NANONET_IOC_SET_CONFIG arg s)) = the_pool s"
  using set_config_eq [OF assms] by (simp add: nanonet_ioctl_def)

definition sample_request :: "ull_config \<Rightarrow> sample_world nanonet" where
  "sample_request c = (sample_state 17)\<lparr>world := sample_world\<lparr>sw_user := (\<lambda>_. config_bytes c)\<rparr>\<rparr>"

theorem set_config_installs_witness:
  "fst (nanonet_ioctl sample_kernel NANONET_IOC_SET_CONFIG 64 (sample_request initial_config)) = - EINVAL
    \<and> global_config (snd (nanonet_ioctl sample_kernel NANONET_IOC_SET_CONFIG 64 (sample_request initial_config)))
        = initial_config"
  using set_config_installs [of sample_kernel 64 "sample_request initial_config" 0 "config_bytes initial_config"]
    cfg.length_enc [of initial_config] cfg.dec_enc [of initial_config]
  by (simp add: sample_request_def config_valid_def initial_config_def)

text \<open>C22. Reading the configuration into a user buffer and setting it from the same buffer: the second command reports
  whether the configuration is valid, and leaves configuration, statistics, connections and pool
  as they were; a valid one leaves every global of the module as it was.\<close>

theorem config_get_set:
  assumes "user_memory K" and "fst (nanonet_ioctl K NANONET_IOC_GET_CONFIG arg s) = 0"
    and "nanonet_ioctl K NANONET_IOC_SET_CONFIG arg (snd (nanonet_ioctl K NANONET_IOC_GET_CONFIG arg s)) = (r, s')"
  shows "r = (if config_valid (global_config s) then 0 else - EINVAL)
    \<and> global_config s' = global_config s \<and> global_stats s' = global_stats s
    \<and> connection_hash s' = connection_hash s \<and> the_pool s' = the_pool s
    \<and> (config_valid (global_config s) \<longrightarrow> (\<exists>w. s' = s\<lparr>world := w\<rparr>))"
proof -
  let ?bs = "config_bytes (global_config s)" and ?s1 = "snd (nanonet_ioctl K NANONET_IOC_GET_CONFIG arg s)"
  have left: "fst (k_copy_to_user K arg ?bs (world s)) = 0"
    using assms(2) by (simp add: nanonet_ioctl_def ioctl_copy_out_def call_eq split: if_splits)
  then have get: "?s1 = s\<lparr>world := snd (k_copy_to_user K arg ?bs (world s))\<rparr>"
    by (simp add: nanonet_ioctl_def ioctl_copy_out_def call_eq)
  have copied: "fst (k_copy_from_user K arg sizeof_config (world ?s1)) = (0, ?bs)"
    unfolding get using assms(1) left cfg.length_enc [of "global_config s"]
    by (auto simp: user_memory_def dest!: spec [where x = arg] spec [where x = ?bs])
  have set: "ioctl_set_config K arg ?s1 = (r, s')"
    using assms(3) by (simp add: nanonet_ioctl_def)
  have dec: "config_of ?bs = global_config s" by (simp add: cfg.dec_enc)
  have "s' = s\<lparr>world := world s'\<rparr>" if "config_valid (global_config s)"
    using set_config_valid [OF copied] that dec set get by (intro nanonet.equality) simp_all
  then have "\<exists>w. s' = s\<lparr>world := w\<rparr>" if "config_valid (global_config s)"
    using that by blast
  then show ?thesis
    using set_config_eq [OF copied] dec set get by simp
qed

theorem config_get_set_witness:
  "fst (nanonet_ioctl sample_kernel NANONET_IOC_SET_CONFIG 64
      (snd (nanonet_ioctl sample_kernel NANONET_IOC_GET_CONFIG 64 (sample_state 17)))) = 0
   \<and> fst (nanonet_ioctl sample_kernel NANONET_IOC_SET_CONFIG 64
      (snd (nanonet_ioctl sample_kernel NANONET_IOC_GET_CONFIG 64 (initial_nanonet sample_world)))) = - EINVAL"
proof -
  have get: "fst (nanonet_ioctl sample_kernel NANONET_IOC_GET_CONFIG 64 s) = 0" for s
    by (simp add: nanonet_ioctl_def ioctl_copy_out_def call_eq)
  note rt = config_get_set [OF sample_user_memory get surjective_pairing]
  show ?thesis
    using rt [of "sample_state 17"] rt [of "initial_nanonet sample_world"]
    by (simp add: config_valid_def sample_config_def initial_nanonet_def initial_config_def)
qed

text \<open>C36. Resetting the statistics while connections are tracked loses their count: the table is
  kept and the counter set to zero, so that clearing the connections afterwards takes the
  counter below zero.\<close>

theorem reset_loses_connection_count:
  assumes "conn_inv K s" and "0 < hash_size (connection_hash s)" and "hash_size (connection_hash s) < 2 ^ 64"
  shows "\<not> conn_inv K (snd (nanonet_ioctl K NANONET_IOC_RESET_STATS arg s))
    \<and> connections_active (global_stats (snd (nanonet_ioctl K NANONET_IOC_CLEAR_CONNECTIONS arg'
        (snd (nanonet_ioctl K NANONET_IOC_RESET_STATS arg s))))) = - of_nat (hash_size (connection_hash s))"
proof -
  have n: "of_nat (hash_size (connection_hash s)) \<noteq> (0 :: u64)"
  proof
    assume "of_nat (hash_size (connection_hash s)) = (0 :: u64)"
    then have "unat (of_nat (hash_size (connection_hash s)) :: u64) = 0" by simp
    with assms(2,3) show False by (simp add: unat_of_nat)
  qed
  show ?thesis
    using n assms(1)
    by (simp add: nanonet_ioctl_def conn_inv_def frame_simps upd_stats_def reset_stats_def
        clear_all_connections)
qed

theorem reset_loses_connection_count_witness:
  "connections_active (global_stats (snd (nanonet_ioctl sample_kernel NANONET_IOC_CLEAR_CONNECTIONS 0
     (snd (nanonet_ioctl sample_kernel NANONET_IOC_RESET_STATS 0 sample_tracking))))) = - 1"
  using reset_loses_connection_count [OF sample_tracking_size(1), of 0 0] by (simp add: sample_tracking_size(2))

end
