(* ===== verification/Nanonet.thy ===== *)
theory Nanonet
  imports Packet_Processor Control_Interface
begin

text \<open>
  src/nanonet.c: the netfilter hook that takes a packet through the parser, the validation,
  the filter, the connection tracker and the application, and keeps the statistics; loading
  and unloading of the module.
\<close>

unbundle bit_operations_syntax

section \<open>The hook\<close>

datatype verdict = NF_ACCEPT | NF_STOLEN

definition count_bypassed :: "ull_stats \<Rightarrow> ull_stats" where
  "count_bypassed t = t\<lparr>packets_bypassed := packets_bypassed t + 1\<rparr>"

definition count_error :: "ull_stats \<Rightarrow> ull_stats" where
  "count_error t = t\<lparr>stat_errors := stat_errors t + 1\<rparr>"

definition count_response :: "ull_stats \<Rightarrow> ull_stats" where
  "count_response t = t\<lparr>responses_sent := responses_sent t + 1\<rparr>"

definition count_processed :: "ull_stats \<Rightarrow> ull_stats" where
  "count_processed t = t\<lparr>packets_processed := packets_processed t + 1\<rparr>"

lemmas count_defs = count_bypassed_def count_error_def count_response_def count_processed_def

text \<open>
  The processing times. The mean is updated in 64-bit arithmetic; the division traps when
  the packet counter is zero.
\<close>

definition record_time :: "u64 \<Rightarrow> ull_stats \<Rightarrow> fault + ull_stats" where
  "record_time process_time t =
     (let t = t\<lparr>last_process_time_ns := process_time\<rparr>;
          t = (if process_time < min_process_time_ns t then t\<lparr>min_process_time_ns := process_time\<rparr> else t);
          t = (if process_time > max_process_time_ns t then t\<lparr>max_process_time_ns := process_time\<rparr> else t);
          n = packets_processed t
      in if n = 0 then Inl DivideError
         else Inr (t\<lparr>avg_process_time_ns := (avg_process_time_ns t * (n - 1) + process_time) div n\<rparr>))"

text \<open>The memory readable through the payload pointer.\<close>

definition payload_mem :: "sk_buff \<Rightarrow> parsed \<Rightarrow> u8 list option" where
  "payload_mem skb p = map_option (\<lambda>i. drop (skb_off skb + i) (skb_buf skb)) (p_payload p)"

text \<open>The tests on address, protocol and port; \<open>None\<close> lets the packet through to the application.\<close>

definition hook_filter ::
    "'w kernel \<Rightarrow> sk_buff \<Rightarrow> parsed \<Rightarrow> ull_iphdr \<Rightarrow> 'w nanonet \<Rightarrow> fault + (verdict option \<times> 'w nanonet)" where
  "hook_filter K skb p ip s =
     (let c = global_config s
      in if daddr ip \<noteq> target_ip c \<and> (\<not> multicast c \<or> daddr ip \<noteq> multicast_group c)
         then Inr (Some NF_ACCEPT, upd_stats count_bypassed s)
         else if cfg_protocol c = IPPROTO_TCP \<and> p_tcp_hdr p \<noteq> None then
           and_then (need MemFault (Option.bind (p_tcp_hdr p) (load_tcphdr skb))) (\<lambda>tcp.
             if tcp_dest tcp \<noteq> target_port c then Inr (Some NF_ACCEPT, upd_stats count_bypassed s)
             else let (result, s) = nanonet_track_tcp_connection K ip tcp s
                  in if result < 0 then Inr (Some NF_ACCEPT, upd_stats count_error s)
                     else Inr (None, s))
         else if cfg_protocol c = IPPROTO_UDP \<and> p_udp_hdr p \<noteq> None then
           and_then (need MemFault (Option.bind (p_udp_hdr p) (load_udphdr skb))) (\<lambda>udp.
             if udp_dest udp \<noteq> target_port c then Inr (Some NF_ACCEPT, upd_stats count_bypassed s)
             else Inr (None, s))
         else Inr (None, s))"

text \<open>The ports of the trace event come from the TCP header if there is one, from the UDP header otherwise.\<close>

definition trace_ports :: "sk_buff \<Rightarrow> parsed \<Rightarrow> fault + (u16 \<times> u16)" where
  "trace_ports skb p =
     (case p_tcp_hdr p of
        Some i \<Rightarrow> and_then (need MemFault (load_tcphdr skb i)) (\<lambda>tcp. Inr (ntohs (tcp_source tcp), ntohs (tcp_dest tcp)))
      | None \<Rightarrow> and_then (need MemFault (Option.bind (p_udp_hdr p) (load_udphdr skb)))
                  (\<lambda>udp. Inr (ntohs (udp_source udp), ntohs (udp_dest udp))))"

definition count_result :: "'w kernel \<Rightarrow> int \<Rightarrow> 'w nanonet \<Rightarrow> 'w nanonet" where
  "count_result K result s =
     (if result < 0
      then nanonet_log_error K (''Application logic failed: '' @ fmt_d result) (upd_stats count_error s)
      else if result > 0 then upd_stats count_response s
      else s)"

definition hook_finish ::
    "'w kernel \<Rightarrow> sk_buff \<Rightarrow> parsed \<Rightarrow> ull_iphdr \<Rightarrow> u64 \<Rightarrow> 'w nanonet \<Rightarrow> fault + (verdict \<times> 'w nanonet)" where
  "hook_finish K skb p ip start_time s =
     and_then (nanonet_process_application_logic K (payload_mem skb p) (p_payload_len p) s) (\<lambda>(result, s).
       let s = upd_stats count_processed (count_result K result s);
           (end_time, s) = get_timestamp_ns K s;
           process_time = end_time - start_time
       in and_then (record_time process_time (global_stats s)) (\<lambda>t.
          and_then (trace_ports skb p) (\<lambda>(sport, dport).
            Inr (NF_STOLEN,
              callu (k_trace_packet K
                \<lparr>ev_src_ip = saddr ip, ev_src_port = sport, ev_dst_ip = daddr ip, ev_dst_port = dport,
                 ev_process_time_ns = process_time, ev_result = result\<rparr>)
                (s\<lparr>global_stats := t\<rparr>)))))"

definition nanonet_hook :: "'w kernel \<Rightarrow> sk_buff \<Rightarrow> 'w nanonet \<Rightarrow> fault + (verdict \<times> 'w nanonet)" where
  "nanonet_hook K skb s =
     (if \<not> enabled (global_config s) \<or> skb_dev skb = None
      then Inr (NF_ACCEPT, upd_stats count_bypassed s)
      else
        let (start_time, s) = get_timestamp_ns K s
        in and_then (need MemFault (ull_parse_packet skb)) (\<lambda>(result, p).
           if result < 0
           then Inr (NF_ACCEPT, nanonet_log_error K (''Packet parsing failed: '' @ fmt_d result)
                  (upd_stats count_error s))
           else
             and_then (need MemFault (Option.bind (p_ip_hdr p) (load_iphdr skb))) (\<lambda>ip.
               let (valid, s) = nanonet_validate_packet K ip s
               in if valid < 0 then Inr (NF_ACCEPT, upd_stats count_error s)
                  else
                    and_then (hook_filter K skb p ip s) (\<lambda>(v, s).
                      case v of Some verdict \<Rightarrow> Inr (verdict, s)
                      | None \<Rightarrow> hook_finish K skb p ip start_time s))))"

section \<open>The module\<close>

definition init_multicast :: "'w kernel \<Rightarrow> 'w nanonet \<Rightarrow> int \<times> 'w nanonet" where
  "init_multicast K s =
     (case target_dev s of
        None \<Rightarrow> (0, s)
      | Some dev \<Rightarrow>
          if \<not> multicast (global_config s) then (0, s)
          else call (k_ip_mc_join_group K (multicast_group (global_config s)) (ifindex dev)) s)"

text \<open>The steps of \<open>nanonet_init\<close> after the first, each undoing what was done before it when it fails.\<close>

definition init_hook :: "'w kernel \<Rightarrow> net_device \<Rightarrow> 'w nanonet \<Rightarrow> int \<times> 'w nanonet" where
  "init_hook K dev s =
     (let (result, s) = call (k_nf_register_net_hook K) s
      in if result < 0 then
           (result, callu (k_dev_put K dev) (nanonet_cleanup_response_pool K (nanonet_control_cleanup K
              (nanonet_debug_cleanup K (printk K ''NANONET: Failed to register netfilter hook'' s)))))
         else
           (0, printk K ''NANONET: Use /dev/nanonet for control or check /proc/nanonet for status''
                 (printk K ''NANONET: Module loaded successfully'' s)))"

definition init_group :: "'w kernel \<Rightarrow> net_device \<Rightarrow> 'w nanonet \<Rightarrow> int \<times> 'w nanonet" where
  "init_group K dev s =
     (let (result, s) = init_multicast K s
      in if result < 0 then
           (result, callu (k_dev_put K dev) (nanonet_cleanup_response_pool K (nanonet_control_cleanup K
              (nanonet_debug_cleanup K (printk K ''NANONET: Failed to join multicast group'' s)))))
         else init_hook K dev s)"

definition init_debug :: "'w kernel \<Rightarrow> net_device \<Rightarrow> 'w nanonet \<Rightarrow> int \<times> 'w nanonet" where
  "init_debug K dev s =
     (let (result, s) = nanonet_debug_init K s
      in if result < 0 then
           (result, callu (k_dev_put K dev) (nanonet_cleanup_response_pool K (nanonet_control_cleanup K
              (printk K ''NANONET: Failed to initialize debug interface'' s))))
         else init_group K dev s)"

definition init_control :: "'w kernel \<Rightarrow> net_device \<Rightarrow> 'w nanonet \<Rightarrow> int \<times> 'w nanonet" where
  "init_control K dev s =
     (let (result, s) = nanonet_control_init K s
      in if result < 0 then
           (result, callu (k_dev_put K dev) (nanonet_cleanup_response_pool K
              (printk K ''NANONET: Failed to initialize control interface'' s)))
         else init_debug K dev s)"

definition nanonet_init :: "'w kernel \<Rightarrow> 'w nanonet \<Rightarrow> int \<times> 'w nanonet" where
  "nanonet_init K s =
     (let s = printk K ''NANONET: Initializing ultra-low latency networking module'' s;
          (d, s) = call (k_dev_get_by_name K ''eth0'') s;
          s = s\<lparr>target_dev := d\<rparr>
      in case d of
           None \<Rightarrow> (- ENODEV, printk K ''NANONET: Failed to find network device'' s)
         | Some dev \<Rightarrow>
             (let (result, s) = nanonet_init_response_pool K s
              in if result < 0 then
                   (result, callu (k_dev_put K dev)
                      (printk K ''NANONET: Failed to initialize response pool'' s))
                 else init_control K dev s))"

definition nanonet_exit :: "'w kernel \<Rightarrow> 'w nanonet \<Rightarrow> 'w nanonet" where
  "nanonet_exit K s =
     (let s = printk K ''NANONET: Unloading module'' s;
          s = callu (k_nf_unregister_net_hook K) s;
          s = nanonet_debug_cleanup K s;
          s = nanonet_control_cleanup K s;
          s = nanonet_cleanup_response_pool K s;
          s = (case target_dev s of None \<Rightarrow> s | Some d \<Rightarrow> callu (k_dev_put K d) s)
      in printk K ''NANONET: Module unloaded successfully'' s)"

section \<open>The verdict and the counters\<close>

lemma upd_stats_frame [frame_simps]:
  "global_config (upd_stats f s) = global_config s"
  "global_stats (upd_stats f s) = f (global_stats s)"
  "target_dev (upd_stats f s) = target_dev s"
  "connection_hash (upd_stats f s) = connection_hash s"
  "the_pool (upd_stats f s) = the_pool s"
  "debug_stats (upd_stats f s) = debug_stats s"
  by (simp_all add: upd_stats_def)

lemma track_frame [frame_simps]:
  "global_config (snd (nanonet_track_tcp_connection K ip tcp s)) = global_config s"
  "the_pool (snd (nanonet_track_tcp_connection K ip tcp s)) = the_pool s"
  by (auto simp: nanonet_track_tcp_connection_def Let_def call_eq frame_simps split: option.split)

text \<open>The counters of packets: connections come and go with the tracker and are left out.\<close>

definition packet_counts :: "ull_stats \<Rightarrow> u64 \<times> u64 \<times> u64 \<times> u64" where
  "packet_counts t = (packets_processed t, packets_bypassed t, stat_errors t, responses_sent t)"

definition time_stats :: "ull_stats \<Rightarrow> u64 \<times> u64 \<times> u64 \<times> u64" where
  "time_stats t = (last_process_time_ns t, min_process_time_ns t, max_process_time_ns t, avg_process_time_ns t)"

lemma track_counts:
  "packet_counts (global_stats (snd (nanonet_track_tcp_connection K ip tcp s))) = packet_counts (global_stats s)"
  "time_stats (global_stats (snd (nanonet_track_tcp_connection K ip tcp s))) = time_stats (global_stats s)"
  by (auto simp: nanonet_track_tcp_connection_def Let_def call_eq frame_simps packet_counts_def time_stats_def
      split: option.split)

text \<open>What the filter can do: let the packet through with the statistics as they were, or accept
  it and count it once.\<close>

lemma hook_filter_cases:
  assumes "hook_filter K skb p ip s = Inr (v, s')"
  obtains (pass) "v = None" "packet_counts (global_stats s') = packet_counts (global_stats s)"
  | (bypass) "v = Some NF_ACCEPT" "packet_counts (global_stats s') = packet_counts (count_bypassed (global_stats s))"
  | (error) "v = Some NF_ACCEPT" "packet_counts (global_stats s') = packet_counts (count_error (global_stats s))"
  using assms track_counts(1) [of K ip _ s]
  by (auto simp: hook_filter_def Let_def split_beta and_then_eq_Inr frame_simps packet_counts_def count_defs
      split: if_splits)

lemma hook_filter_frame:
  assumes "hook_filter K skb p ip s = Inr (v, s')"
  shows "global_config s' = global_config s \<and> the_pool s' = the_pool s
    \<and> time_stats (global_stats s') = time_stats (global_stats s)"
  using assms track_counts(2) [of K ip _ s]
  by (auto simp: hook_filter_def Let_def split_beta and_then_eq_Inr frame_simps time_stats_def count_defs
      split: if_splits)

lemma hook_filter_conn_inv:
  assumes "hook_filter K skb p ip s = Inr (v, s')" and "conn_inv K s"
  shows "conn_inv K s'"
  using assms track_conn_inv [of K s ip]
  by (auto simp: hook_filter_def Let_def split_beta and_then_eq_Inr frame_simps conn_inv_def count_defs
      split: if_splits)

lemma count_result_frame [frame_simps]:
  "global_config (count_result K r s) = global_config s"
  "connection_hash (count_result K r s) = connection_hash s"
  "the_pool (count_result K r s) = the_pool s"
  "r \<le> 0 \<Longrightarrow> global_stats (count_result K r s) = (if r < 0 then count_error else id) (global_stats s)"
  by (simp_all add: count_result_def frame_simps)

lemma record_time_frame:
  assumes "record_time pt t = Inr t'"
  shows "packet_counts t' = packet_counts t \<and> connections_active t' = connections_active t
    \<and> connections_dropped t' = connections_dropped t \<and> last_process_time_ns t' = pt"
  using assms by (auto simp: record_time_def Let_def packet_counts_def split: if_splits)

text \<open>The parts of a run of \<open>hook_finish\<close> that returns.\<close>

lemma hook_finish_cases:
  assumes "hook_finish K skb p ip start s = Inr (v, s')"
  obtains r s1 pt t where
    "nanonet_process_application_logic K (payload_mem skb p) (p_payload_len p) s = Inr (r, s1)"
    "record_time pt (count_processed ((if r < 0 then count_error else id) (global_stats s))) = Inr t"
    "v = NF_STOLEN" "r \<le> 0" "global_stats s' = t" "global_config s' = global_config s1"
    "the_pool s' = the_pool s1" "connection_hash s' = connection_hash s"
proof -
  obtain r s1 where app: "nanonet_process_application_logic K (payload_mem skb p) (p_payload_len p) s = Inr (r, s1)"
    using assms by (auto simp: hook_finish_def and_then_eq_Inr)
  note fr = application_logic_frame [OF app]
  define s2 where "s2 = upd_stats count_processed (count_result K r s1)"
  define pt where "pt = fst (get_timestamp_ns K s2) - start"
  have st: "global_stats (snd (get_timestamp_ns K s2)) =
      count_processed ((if r < 0 then count_error else id) (global_stats s))"
    using fr by (simp add: s2_def frame_simps)
  obtain t where t: "record_time pt (global_stats (snd (get_timestamp_ns K s2))) = Inr t"
    and rest: "v = NF_STOLEN" "global_stats s' = t" "global_config s' = global_config s1"
      "the_pool s' = the_pool s1" "connection_hash s' = connection_hash s1"
    using assms app
    by (auto simp: hook_finish_def and_then_eq_Inr split_beta Let_def s2_def pt_def frame_simps)
  show ?thesis
    using that [of r s1 pt t] app t rest fr by (simp add: st)
qed

text \<open>The hook on a packet the parser accepts.\<close>

lemma hook_checked:
  assumes "enabled (global_config s)" and "skb_dev skb \<noteq> None" and "ull_parse_packet skb = Some (r, p)"
    and "\<not> r < 0" and "Option.bind (p_ip_hdr p) (load_iphdr skb) = Some ip"
  shows "nanonet_hook K skb s =
     (if fst (nanonet_validate_packet K ip (snd (get_timestamp_ns K s))) < 0
      then Inr (NF_ACCEPT, upd_stats count_error (snd (nanonet_validate_packet K ip (snd (get_timestamp_ns K s)))))
      else and_then (hook_filter K skb p ip (snd (nanonet_validate_packet K ip (snd (get_timestamp_ns K s)))))
        (\<lambda>(v, s'). case v of Some verdict \<Rightarrow> Inr (verdict, s')
           | None \<Rightarrow> hook_finish K skb p ip (fst (get_timestamp_ns K s)) s'))"
  using assms(1,2,4)
  by (simp add: nanonet_hook_def Let_def split_beta assms(3,5) del: not_None_eq split del: if_split)

text \<open>The parts of a run of the hook that returns.\<close>

lemma hook_cases:
  assumes "nanonet_hook K skb s = Inr (v, s')"
  obtains (off) "\<not> enabled (global_config s) \<or> skb_dev skb = None" "v = NF_ACCEPT" "s' = upd_stats count_bypassed s"
  | (bad) r p where "ull_parse_packet skb = Some (r, p)" "r < 0" "v = NF_ACCEPT"
      "global_stats s' = count_error (global_stats s)" "global_config s' = global_config s"
      "connection_hash s' = connection_hash s" "the_pool s' = the_pool s"
  | (invalid) r p ip where "ull_parse_packet skb = Some (r, p)" "\<not> r < 0" 
      "Option.bind (p_ip_hdr p) (load_iphdr skb) = Some ip" "v = NF_ACCEPT"
      "global_stats s' = count_error (global_stats s)" "global_config s' = global_config s"
      "connection_hash s' = connection_hash s" "the_pool s' = the_pool s"
  | (filtered) r p ip s1 where "ull_parse_packet skb = Some (r, p)" "\<not> r < 0"
      "Option.bind (p_ip_hdr p) (load_iphdr skb) = Some ip"
      "global_stats s1 = global_stats s" "global_config s1 = global_config s"
      "connection_hash s1 = connection_hash s" "the_pool s1 = the_pool s"
      "hook_filter K skb p ip s1 = Inr (Some v, s')"
  | (processed) r p ip s1 s2 start where "ull_parse_packet skb = Some (r, p)" "\<not> r < 0"
      "Option.bind (p_ip_hdr p) (load_iphdr skb) = Some ip"
      "global_stats s1 = global_stats s" "global_config s1 = global_config s"
      "connection_hash s1 = connection_hash s" "the_pool s1 = the_pool s"
      "hook_filter K skb p ip s1 = Inr (None, s2)" "hook_finish K skb p ip start s2 = Inr (v, s')"
proof (cases "\<not> enabled (global_config s) \<or> skb_dev skb = None")
  case True
  with assms off show ?thesis by (auto simp: nanonet_hook_def)
next
  case False
  then have en: "enabled (global_config s)" "skb_dev skb \<noteq> None" by simp_all
  define s0 where "s0 = snd (get_timestamp_ns K s)"
  define start where "start = fst (get_timestamp_ns K s)"
  obtain r p where parse: "ull_parse_packet skb = Some (r, p)"
    using assms False by (auto simp: nanonet_hook_def Let_def split_beta and_then_eq_Inr need_eq_Inr)
  show ?thesis
  proof (cases "r < 0")
    case True
    with assms False parse bad show ?thesis
      by (auto simp: nanonet_hook_def Let_def split_beta frame_simps)
  next
    case nonneg: False
    obtain ip where ip: "Option.bind (p_ip_hdr p) (load_iphdr skb) = Some ip"
      using assms False parse nonneg
      by (auto simp: nanonet_hook_def Let_def split_beta and_then_eq_Inr need_eq_Inr)
    define s1 where "s1 = snd (nanonet_validate_packet K ip s0)"
    have s1: "global_stats s1 = global_stats s" "global_config s1 = global_config s"
      "connection_hash s1 = connection_hash s" "the_pool s1 = the_pool s"
      by (simp_all add: s1_def s0_def frame_simps)
    note run = assms [unfolded hook_checked [OF en parse nonneg ip], folded s0_def, folded s1_def start_def]
    show ?thesis
    proof (cases "fst (nanonet_validate_packet K ip s0) < 0")
      case True
      with run have "v = NF_ACCEPT" "s' = upd_stats count_error s1" by simp_all
      with s1 show ?thesis by (intro invalid [OF parse nonneg ip]) (simp_all add: frame_simps)
    next
      case False
      with run obtain vo s2 where f: "hook_filter K skb p ip s1 = Inr (vo, s2)"
        and c: "(case vo of Some verdict \<Rightarrow> Inr (verdict, s2) | None \<Rightarrow> hook_finish K skb p ip start s2) = Inr (v, s')"
        by (auto simp: and_then_eq_Inr)
      show ?thesis
      proof (cases vo)
        case None
        with f c show ?thesis by (intro processed [OF parse nonneg ip s1]) simp_all
      next
        case (Some verdict)
        with f c show ?thesis by (intro filtered [OF parse nonneg ip s1]) simp
      qed
    qed
  qed
qed

text \<open>Every packet the hook returns for is counted once: an accepted packet as bypassed or as an
  error, a stolen one as processed, with one more error when the application failed.\<close>

lemma hook_counts:
  assumes "nanonet_hook K skb s = Inr (v, s')"
  shows "(v = NF_ACCEPT \<and> packet_counts (global_stats s') \<in>
           {packet_counts (count_bypassed (global_stats s)), packet_counts (count_error (global_stats s))})
    \<or> (v = NF_STOLEN \<and> packet_counts (global_stats s') \<in>
           {packet_counts (count_processed (global_stats s)),
            packet_counts (count_processed (count_error (global_stats s)))})"
  using assms
proof (cases rule: hook_cases)
  case (filtered r p ip s1)
  from filtered(8) show ?thesis
    by (cases rule: hook_filter_cases) (simp_all add: filtered)
next
  case (processed r p ip s1 s2 start)
  have c: "packet_counts (global_stats s2) = packet_counts (global_stats s)"
    using processed(8) by (cases rule: hook_filter_cases) (simp_all add: processed)
  from processed(9) show ?thesis
  proof (cases rule: hook_finish_cases)
    case (1 r' s1' pt t)
    with record_time_frame [OF 1(2)] c show ?thesis
      by (auto simp: packet_counts_def count_defs split: if_splits)
  qed
qed (simp_all add: frame_simps)

text \<open>The hook on the sample packets.\<close>

definition sample_tcp_parsed :: parsed where
  "sample_tcp_parsed = \<lparr>p_ip_hdr = Some 14, p_tcp_hdr = Some 34, p_udp_hdr = None, p_payload = Some 54, p_payload_len = 0\<rparr>"

lemma parse_sample_tcp:
  "ull_parse_packet (sample_received (sample_tcp_packet 91 141)) = Some (0, sample_tcp_parsed)"
  by (simp add: parse_eval sample_packet_defs sample_tcp_parsed_def)

definition sample_tcp_ip :: ull_iphdr where
  "sample_tcp_ip = \<lparr>version_ihl = 0x45, tos = 0, tot_len = 0x2800, ip_id = 0, frag_off = 0x40, ttl = 0x40, ip_protocol = 6,
    ip_check = 0x8D5B, saddr = 0x0101A8C0, daddr = 0x6401A8C0\<rparr>"

lemma sample_tcp_daddr: "daddr sample_tcp_ip = 0x6401A8C0"
  by (simp add: sample_tcp_ip_def)

lemma sample_tcp_ip: "load_iphdr (sample_received (sample_tcp_packet 91 141)) 14 = Some sample_tcp_ip"
  by (simp add: load_iphdr_def skb_peek_def peek_def sample_packet_defs iphdr_of_def ldw_def sample_tcp_ip_def)

lemma sample_tcp_port: "\<exists>tcp. load_tcphdr (sample_received (sample_tcp_packet 91 141)) 34 = Some tcp"
  by (simp add: load_tcphdr_def skb_peek_def peek_def sample_packet_defs)

lemma sample_received_dev [simp]: "skb_dev (sample_received bs) = Some sample_dev"
  by (simp add: sample_received_def)

lemma sample_validate:
  "nanonet_validate_packet sample_kernel sample_tcp_ip s = (0, s)"
  by (simp add: nanonet_validate_packet_def call_eq sample_tcp_ip_def)

lemma hook_sample_tcp:
  assumes "global_config s = sample_config 17" and "packets_processed (global_stats s) = 0"
  shows "\<exists>s'. nanonet_hook sample_kernel (sample_received (sample_tcp_packet 91 141)) s = Inr (NF_STOLEN, s')"
proof -
  obtain tcp where tcp: "load_tcphdr (sample_received (sample_tcp_packet 91 141)) 34 = Some tcp"
    using sample_tcp_port by blast
  have "Option.bind (p_ip_hdr sample_tcp_parsed) (load_iphdr (sample_received (sample_tcp_packet 91 141))) = Some sample_tcp_ip"
    by (simp add: sample_tcp_parsed_def sample_tcp_ip)
  note h = hook_checked [OF _ _ parse_sample_tcp _ this, of s sample_kernel]
  have "hook_filter sample_kernel skb sample_tcp_parsed sample_tcp_ip s = Inr (None, s)"
    if "global_config s = sample_config 17" for skb s
    using that
    by (simp add: hook_filter_def sample_tcp_parsed_def sample_tcp_ip_def sample_config_def IPPROTO_TCP_def IPPROTO_UDP_def)
  moreover have "\<exists>s'. hook_finish sample_kernel (sample_received (sample_tcp_packet 91 141)) sample_tcp_parsed sample_tcp_ip t s
      = Inr (NF_STOLEN, s')" if "packets_processed (global_stats s) = 0" for t s
    using that
    by (simp add: hook_finish_def payload_mem_def sample_tcp_parsed_def nanonet_process_application_logic_def
        count_result_def Let_def split_beta record_time_def count_processed_def trace_ports_def tcp frame_simps)
  ultimately show ?thesis
    using h assms by (simp add: sample_validate frame_simps sample_config_def)
qed

text \<open>The same segment with the correct checksum.\<close>

lemma parse_sample_correct: "\<exists>p. ull_parse_packet (sample_received (sample_tcp_packet 183 26)) = Some (- EINVAL, p)"
  by (simp add: parse_eval sample_packet_defs)

lemma hook_sample_correct:
  assumes "global_config s = sample_config 17"
  shows "\<exists>v s'. nanonet_hook sample_kernel (sample_received (sample_tcp_packet 183 26)) s = Inr (v, s')
    \<and> global_config s' = sample_config 17 \<and> packets_processed (global_stats s') = packets_processed (global_stats s)"
  using parse_sample_correct assms
  by (auto simp: nanonet_hook_def Let_def split_beta frame_simps sample_config_def count_defs)

text \<open>A sequence of packets.\<close>

fun hook_run :: "'w kernel \<Rightarrow> sk_buff list \<Rightarrow> 'w nanonet \<Rightarrow> fault + (verdict list \<times> 'w nanonet)" where
  "hook_run K [] s = Inr ([], s)"
| "hook_run K (skb # skbs) s =
     and_then (nanonet_hook K skb s) (\<lambda>(v, s). and_then (hook_run K skbs s) (\<lambda>(vs, s). Inr (v # vs, s)))"

text \<open>C1. Over any sequence of packets the counters agree with the verdicts: the stolen packets are
  the processed ones, the accepted ones are bypassed or errors, with at most one more error for
  each stolen packet (a failure of the application); the counter of responses never moves,
  although responses are sent.\<close>

theorem counters_match_verdicts:
  assumes "hook_run K skbs s = Inr (vs, s')"
  shows "length vs = length skbs
    \<and> packets_processed (global_stats s') = packets_processed (global_stats s) + of_nat (count_list vs NF_STOLEN)
    \<and> (\<exists>k \<le> count_list vs NF_STOLEN.
          packets_bypassed (global_stats s') + stat_errors (global_stats s') =
          packets_bypassed (global_stats s) + stat_errors (global_stats s) + of_nat (count_list vs NF_ACCEPT + k))
    \<and> responses_sent (global_stats s') = responses_sent (global_stats s)"
  using assms
proof (induction skbs arbitrary: s vs)
  case (Cons skb skbs)
  then obtain v s1 vs' where h: "nanonet_hook K skb s = Inr (v, s1)" and r: "hook_run K skbs s1 = Inr (vs', s')"
    and vs: "vs = v # vs'"
    by (auto simp: and_then_eq_Inr)
  obtain k where k: "k \<le> count_list vs' NF_STOLEN" "packets_bypassed (global_stats s') + stat_errors (global_stats s') =
          packets_bypassed (global_stats s1) + stat_errors (global_stats s1) + of_nat (count_list vs' NF_ACCEPT + k)"
    using Cons.IH [OF r] by blast
  define j where "j = (if stat_errors (global_stats s1) = stat_errors (global_stats s) + 1 \<and> v = NF_STOLEN then 1 else 0 :: nat)"
  have "packets_bypassed (global_stats s') + stat_errors (global_stats s') =
      packets_bypassed (global_stats s) + stat_errors (global_stats s) + of_nat (count_list vs NF_ACCEPT + (k + j))
      \<and> k + j \<le> count_list vs NF_STOLEN"
    using k hook_counts [OF h] by (auto simp: vs j_def packet_counts_def count_defs algebra_simps)
  then show ?case
    using Cons.IH [OF r] hook_counts [OF h] by (auto simp: vs packet_counts_def count_defs)
qed simp

theorem counters_match_verdicts_witness:
  "\<exists>vs s'. hook_run sample_kernel
      [sample_received (sample_tcp_packet 183 26), sample_received (sample_tcp_packet 91 141)] (sample_state 17) = Inr (vs, s')
    \<and> length vs = 2 \<and> responses_sent (global_stats s') = 0"
proof -
  let ?skbs = "[sample_received (sample_tcp_packet 183 26), sample_received (sample_tcp_packet 91 141)]"
  obtain vs s' where r: "hook_run sample_kernel ?skbs (sample_state 17) = Inr (vs, s')"
    using hook_sample_correct [of "sample_state 17"] hook_sample_tcp by (fastforce simp: initial_stats_def)
  with counters_match_verdicts [OF r] show ?thesis by (auto simp: initial_stats_def)
qed

section \<open>What the hook keeps\<close>

text \<open>The configuration without the running sequence number.\<close>

definition fixed_config :: "ull_config \<Rightarrow> ull_config" where
  "fixed_config c = c\<lparr>cfg_seq_num := 0\<rparr>"

lemma send_response_config:
  assumes "nanonet_send_response K orig data s = Inr (r, s')"
  shows "fixed_config (global_config s') = fixed_config (global_config s)"
  using assms
  by (auto simp: nanonet_send_response_def and_then_eq_Inr split_beta Let_def frame_simps fixed_config_def
      dest!: create_response_frame split: if_splits option.splits)

lemma application_logic_config:
  assumes "nanonet_process_application_logic K payload n s = Inr (r, s')"
  shows "fixed_config (global_config s') = fixed_config (global_config s)"
proof (cases "payload = None \<or> n \<le> 0 \<or> application_logic_type (global_config s) \<noteq> 0")
  case True
  then show ?thesis
    using assms by (auto simp: nanonet_process_application_logic_def frame_simps split: if_splits)
next
  case False
  then obtain r1 resp s1 where m: "process_market_data K payload n s = Inr (r1, resp, s1)"
    using assms by (auto simp: nanonet_process_application_logic_def and_then_eq_Inr)
  with False assms process_market_data_result [OF m] show ?thesis
    by (auto simp: nanonet_process_application_logic_def and_then_eq_Inr split_beta Let_def frame_simps
        dest!: send_response_config split: if_splits option.splits)
qed

lemma hook_config:
  assumes "nanonet_hook K skb s = Inr (v, s')"
  shows "fixed_config (global_config s') = fixed_config (global_config s)"
  using assms
proof (cases rule: hook_cases)
  case (filtered r p ip s1)
  with hook_filter_frame [OF filtered(8)] show ?thesis by simp
next
  case (processed r p ip s1 s2 start)
  note f = hook_filter_frame [OF processed(8)]
  from processed(9) show ?thesis
  proof (cases rule: hook_finish_cases)
    case (1 r' s1' pt t)
    with application_logic_config [OF 1(1)] f processed show ?thesis by simp
  qed
qed (simp_all add: frame_simps)

lemma hook_conn_inv:
  assumes "nanonet_hook K skb s = Inr (v, s')" and "conn_inv K s"
  shows "conn_inv K s'"
  using assms(1)
proof (cases rule: hook_cases)
  case (filtered r p ip s1)
  with assms(2) hook_filter_conn_inv [OF filtered(8)] show ?thesis by (simp add: conn_inv_def)
next
  case (processed r p ip s1 s2 start)
  with assms(2) have c: "conn_inv K s2" 
    using hook_filter_conn_inv [OF processed(8)] by (simp add: conn_inv_def)
  from processed(9) show ?thesis
  proof (cases rule: hook_finish_cases)
    case (1 r' s1' pt t)
    with record_time_frame [OF 1(2)] c show ?thesis
      by (auto simp: conn_inv_def count_defs split: if_splits)
  qed
qed (use assms(2) in \<open>simp_all add: conn_inv_def frame_simps count_defs\<close>)

context pool_property
begin

lemma hook_keeps:
  assumes "nanonet_hook K skb s = Inr (v, s')" and "P s"
  shows "P s'"
  using assms(1)
proof (cases rule: hook_cases)
  case off
  with assms(2) pool_cong [of s' s] show ?thesis by (simp add: frame_simps)
next
  case (bad r p)
  with assms(2) pool_cong [of s' s] show ?thesis by simp
next
  case (invalid r p ip)
  with assms(2) pool_cong [of s' s] show ?thesis by simp
next
  case (filtered r p ip s1)
  with assms(2) hook_filter_frame [OF filtered(8)] pool_cong [of s' s] show ?thesis by simp
next
  case (processed r p ip s1 s2 start)
  with assms(2) have c: "P s2"
    using hook_filter_frame [OF processed(8)] pool_cong [of s2 s] by simp
  from processed(9) show ?thesis
  proof (cases rule: hook_finish_cases)
    case (1 r' s1' pt t)
    with application_keeps [OF 1(1) c] pool_cong [of s' s1'] show ?thesis by simp
  qed
qed

end

section \<open>The processing times\<close>

text \<open>A run of processed packets, with their processing times.\<close>

fun record_all :: "u64 list \<Rightarrow> ull_stats \<Rightarrow> fault + ull_stats" where
  "record_all [] t = Inr t"
| "record_all (x # xs) t = and_then (record_time x (count_processed t)) (record_all xs)"

lemma record_all_snoc:
  "record_all (xs @ [x]) t = and_then (record_all xs t) (\<lambda>t. record_time x (count_processed t))"
proof (induction xs arbitrary: t)
  case Nil
  show ?case by (cases "record_time x (count_processed t)") simp_all
next
  case (Cons y xs)
  then show ?case by (cases "record_time y (count_processed t)") simp_all
qed

text \<open>One step of the running mean, in natural numbers.\<close>

lemma mean_step:
  fixes a n x m :: nat
  assumes "n * a \<le> m" and "2 * m \<le> 2 * (n * a) + n * (n - 1)"
  defines "q \<equiv> (a * n + x) div (n + 1)"
  shows "(n + 1) * q \<le> m + x" and "2 * (m + x) \<le> 2 * ((n + 1) * q) + (n + 1) * n"
proof -
  have d: "(n + 1) * q + (a * n + x) mod (n + 1) = a * n + x"
    unfolding q_def by (rule mult_div_mod_eq)
  have r: "(a * n + x) mod (n + 1) \<le> n"
    using mod_less_divisor [of "n + 1" "a * n + x"] by linarith
  show "(n + 1) * q \<le> m + x"
    using d assms(1) by (simp add: mult.commute)
  have "n * (n - 1) + 2 * n = (n + 1) * n"
    by (cases n) (simp_all add: algebra_simps)
  moreover have "2 * (m + x) \<le> 2 * A + B"
    if "C + 2 * n = B" "A + R = P + x" "R \<le> n" "2 * m \<le> 2 * P + C" for A B C P R :: nat
    using that by simp
  ultimately show "2 * (m + x) \<le> 2 * ((n + 1) * q) + (n + 1) * n"
    using d r assms(2) by (metis mult.commute)
qed

lemma unat_mean_step:
  fixes avg x :: u64
  assumes "unat avg * n + unat x < 2 ^ 64" and "n + 1 < 2 ^ 64"
  shows "unat ((avg * (of_nat n + 1 - 1) + x) div (of_nat n + 1)) = (unat avg * n + unat x) div (n + 1)"
proof -
  have n: "unat (of_nat n + 1 :: u64) = n + 1" "unat (of_nat n :: u64) = n"
    using assms(2) by (simp_all add: unat_of_nat unat_word_ariths)
  have "unat (avg * of_nat n + x) = unat avg * n + unat x"
    using assms n by (simp add: unat_word_ariths)
  then show ?thesis
    using n by (simp add: unat_div_distrib)
qed

definition times_recorded :: "u64 list \<Rightarrow> ull_stats \<Rightarrow> bool" where
  "times_recorded pts t \<longleftrightarrow> packets_processed t = of_nat (length pts)
     \<and> min_process_time_ns t = fold min pts (- 1) \<and> max_process_time_ns t = fold max pts 0
     \<and> length pts * unat (avg_process_time_ns t) \<le> sum_list (map unat pts)
     \<and> 2 * sum_list (map unat pts)
         \<le> 2 * (length pts * unat (avg_process_time_ns t)) + length pts * (length pts - 1)"

lemma record_time_step:
  assumes "times_recorded pts t" and "sum_list (map unat pts) + unat x < 2 ^ 64" and "length pts + 1 < 2 ^ 64"
  shows "\<exists>t'. record_time x (count_processed t) = Inr t' \<and> times_recorded (pts @ [x]) t'
     \<and> last_process_time_ns t' = x"
proof -
  let ?n = "length pts" and ?a = "avg_process_time_ns t"
  have n0: "(of_nat ?n + 1 :: u64) \<noteq> 0"
  proof
    assume "(of_nat ?n + 1 :: u64) = 0"
    then have "unat (of_nat ?n + 1 :: u64) = 0" by simp
    with assms(3) show False by (simp add: unat_of_nat unat_word_ariths)
  qed
  have a: "?n * unat ?a \<le> sum_list (map unat pts)"
    "2 * sum_list (map unat pts) \<le> 2 * (?n * unat ?a) + ?n * (?n - 1)"
    using assms(1) by (simp_all add: times_recorded_def)
  have "unat ?a * ?n + unat x < 2 ^ 64"
    using a(1) assms(2) by (simp add: mult.commute)
  note avg = unat_mean_step [OF this assms(3)]
  note mean = mean_step [OF a, of "unat x"]
  have p: "packets_processed t = of_nat ?n" and mn: "min_process_time_ns t = fold min pts (- 1)"
    and mx: "max_process_time_ns t = fold max pts 0"
    using assms(1) by (simp_all add: times_recorded_def)
  define t' where "t' = t\<lparr>packets_processed := of_nat ?n + 1, last_process_time_ns := x,
      min_process_time_ns := min x (fold min pts (- 1)), max_process_time_ns := max x (fold max pts 0),
      avg_process_time_ns := (?a * (of_nat ?n + 1 - 1) + x) div (of_nat ?n + 1)\<rparr>"
  have "record_time x (count_processed t) = Inr t'"
    using n0 p mn mx
    by (auto simp: record_time_def count_processed_def Let_def t'_def min_def max_def)
  moreover have "times_recorded (pts @ [x]) t'"
    using mean avg by (simp add: times_recorded_def t'_def add.commute del: mult_Suc)
  ultimately show ?thesis
    by (auto simp: t'_def)
qed

lemma record_all_times:
  assumes "sum_list (map unat pts) < 2 ^ 64" and "length pts < 2 ^ 64"
  shows "\<exists>t. record_all pts (reset_stats t0) = Inr t \<and> times_recorded pts t
    \<and> (pts \<noteq> [] \<longrightarrow> last_process_time_ns t = last pts)"
  using assms
proof (induction pts rule: rev_induct)
  case Nil
  show ?case by (simp add: times_recorded_def reset_stats_def)
next
  case (snoc x pts)
  then obtain t where t: "record_all pts (reset_stats t0) = Inr t" "times_recorded pts t"
    by auto
  from record_time_step [OF t(2)] snoc.prems show ?case
    by (auto simp: record_all_snoc t(1))
qed

lemma fold_min_Min: "xs \<noteq> [] \<Longrightarrow> fold min xs (- 1) = Min (set xs)" for xs :: "u64 list"
proof -
  assume "xs \<noteq> []"
  have "fold min xs (- 1) = Min (set (- 1 # xs))"
    by (simp only: Min.set_eq_fold)
  also have "\<dots> = Min (set xs)"
    using \<open>xs \<noteq> []\<close> by (simp add: min_absorb2)
  finally show ?thesis .
qed

lemma fold_max_Max: "xs \<noteq> [] \<Longrightarrow> fold max xs 0 = Max (set xs)" for xs :: "u64 list"
proof -
  assume "xs \<noteq> []"
  have "fold max xs 0 = Max (set (0 # xs))"
    by (simp only: Max.set_eq_fold)
  also have "\<dots> = Max (set xs)"
    using \<open>xs \<noteq> []\<close> by (simp add: max_absorb2)
  finally show ?thesis .
qed

text \<open>C8. After a reset, recording the processing times of a run of packets never traps and gives their
  number, the last, the smallest and the largest of them, and a mean that is never above the
  true one and at most \<open>(n - 1) / 2\<close> nanoseconds below it; provided the times add up
  to less than 2^64.\<close>

theorem timing_statistics:
  assumes "pts \<noteq> []" and "sum_list (map unat pts) < 2 ^ 64" and "length pts < 2 ^ 64"
  shows "\<exists>t. record_all pts (reset_stats t0) = Inr t
    \<and> unat (packets_processed t) = length pts
    \<and> last_process_time_ns t = last pts
    \<and> min_process_time_ns t = Min (set pts) \<and> max_process_time_ns t = Max (set pts)
    \<and> length pts * unat (avg_process_time_ns t) \<le> sum_list (map unat pts)
    \<and> 2 * sum_list (map unat pts)
        \<le> 2 * (length pts * unat (avg_process_time_ns t)) + length pts * (length pts - 1)"
proof -
  obtain t where t: "record_all pts (reset_stats t0) = Inr t" "times_recorded pts t" "last_process_time_ns t = last pts"
    using record_all_times [OF assms(2,3)] assms(1) by blast
  moreover have "unat (packets_processed t) = length pts"
    using t(2) assms(3) by (simp add: times_recorded_def unat_of_nat)
  ultimately show ?thesis
    using assms(1) by (simp add: times_recorded_def fold_min_Min fold_max_Max)
qed

theorem timing_statistics_witness:
  "\<exists>t. record_all [300, 100, 200] (reset_stats initial_stats) = Inr t \<and> unat (packets_processed t) = 3
    \<and> min_process_time_ns t = 100 \<and> max_process_time_ns t = 300 \<and> last_process_time_ns t = 200"
  using timing_statistics [of "[300, 100, 200]" initial_stats] by auto

section \<open>Which packets the hook takes\<close>

lemma parse_transport_result: "parse_transport skb ip ihl out = Some (r, p) \<Longrightarrow> r \<le> 0"
  by (auto simp: parse_transport_def Let_def split: if_splits bind_splits)

lemma parse_result: "ull_parse_packet skb = Some (r, p) \<Longrightarrow> r \<le> 0"
  by (auto simp: ull_parse_packet_def Let_def dest: parse_transport_result split: if_splits bind_splits)

definition address_selected :: "ull_config \<Rightarrow> ull_iphdr \<Rightarrow> bool" where
  "address_selected c ip \<longleftrightarrow> daddr ip = target_ip c \<or> multicast c \<and> daddr ip = multicast_group c"

text \<open>The destination port is compared only when the packet's protocol is the configured one.\<close>

definition port_selected :: "ull_config \<Rightarrow> sk_buff \<Rightarrow> parsed \<Rightarrow> bool" where
  "port_selected c skb p \<longleftrightarrow>
     (if cfg_protocol c = IPPROTO_TCP
      then (case Option.bind (p_tcp_hdr p) (load_tcphdr skb) of None \<Rightarrow> True | Some tcp \<Rightarrow> tcp_dest tcp = target_port c)
      else if cfg_protocol c = IPPROTO_UDP
      then (case Option.bind (p_udp_hdr p) (load_udphdr skb) of None \<Rightarrow> True | Some udp \<Rightarrow> udp_dest udp = target_port c)
      else True)"

lemma hook_filter_pass:
  assumes "hook_filter K skb p ip s = Inr (None, s')"
  shows "address_selected (global_config s) ip \<and> port_selected (global_config s) skb p"
  using assms
  by (auto simp: hook_filter_def address_selected_def port_selected_def Let_def split_beta and_then_eq_Inr
      need_eq_Inr split: if_splits option.splits)

text \<open>C5. The hook steals a packet only when the module is enabled, the parser accepted it, and its
  destination address and, for the configured protocol, its destination port are the configured
  ones.\<close>

theorem stolen_selected:
  assumes "nanonet_hook K skb s = Inr (NF_STOLEN, s')"
  shows "enabled (global_config s) \<and> skb_dev skb \<noteq> None
    \<and> (\<exists>p ip. ull_parse_packet skb = Some (0, p) \<and> Option.bind (p_ip_hdr p) (load_iphdr skb) = Some ip
        \<and> address_selected (global_config s) ip \<and> port_selected (global_config s) skb p)"
proof -
  have en: "enabled (global_config s) \<and> skb_dev skb \<noteq> None"
    using assms by (auto simp: nanonet_hook_def split: if_splits)
  from assms have "\<exists>p ip. ull_parse_packet skb = Some (0, p) \<and> Option.bind (p_ip_hdr p) (load_iphdr skb) = Some ip
        \<and> address_selected (global_config s) ip \<and> port_selected (global_config s) skb p"
  proof (cases rule: hook_cases)
    case (filtered r p ip s1)
    from filtered(8) show ?thesis by (cases rule: hook_filter_cases) simp_all
  next
    case (processed r p ip s1 s2 start)
    have "r = 0" using parse_result [OF processed(1)] processed(2) by simp
    with processed(1,3) hook_filter_pass [OF processed(8)] processed(5) show ?thesis by auto
  qed simp_all
  with en show ?thesis by blast
qed

theorem stolen_selected_witness:
  "enabled (sample_config 17) \<and> (\<exists>p ip. ull_parse_packet (sample_received (sample_tcp_packet 91 141)) = Some (0, p)
     \<and> address_selected (sample_config 17) ip)"
proof -
  obtain s' where h: "nanonet_hook sample_kernel (sample_received (sample_tcp_packet 91 141)) (sample_state 17) = Inr (NF_STOLEN, s')"
    using hook_sample_tcp [of "sample_state 17"] by (auto simp: initial_stats_def)
  show ?thesis
    using stolen_selected [OF h] by auto
qed

text \<open>The configured protocol is TCP or UDP and the parsed packet is not of it.\<close>

definition other_protocol :: "ull_config \<Rightarrow> parsed \<Rightarrow> bool" where
  "other_protocol c p \<longleftrightarrow> cfg_protocol c = IPPROTO_TCP \<and> p_tcp_hdr p = None
     \<or> cfg_protocol c = IPPROTO_UDP \<and> p_udp_hdr p = None"

text \<open>C30. A packet of the other protocol is not compared with the target port: with a TCP configuration every UDP
  packet, and with a UDP configuration every TCP packet, that the parser and the validation accept
  and that is for the target address is stolen, whatever its ports are.\<close>

theorem other_protocol_stolen:
  assumes "enabled (global_config s)" and "skb_dev skb \<noteq> None"
    and "ull_parse_packet skb = Some (0, p)" and "load_iphdr skb 14 = Some ip" and "p_ip_hdr p = Some 14"
    and "other_protocol (global_config s) p" and "address_selected (global_config s) ip"
    and "fst (nanonet_validate_packet K ip (snd (get_timestamp_ns K s))) = 0"
    and "nanonet_hook K skb s = Inr (v, s')"
  shows "v = NF_STOLEN"
proof -
  have ip: "Option.bind (p_ip_hdr p) (load_iphdr skb) = Some ip"
    by (simp add: assms)
  define s1 where "s1 = snd (nanonet_validate_packet K ip (snd (get_timestamp_ns K s)))"
  have "hook_filter K skb p ip s1 = Inr (None, s1)"
    using assms(6,7) by (auto simp: hook_filter_def s1_def frame_simps address_selected_def other_protocol_def Let_def
        IPPROTO_TCP_def IPPROTO_UDP_def)
  then have "hook_finish K skb p ip (fst (get_timestamp_ns K s)) s1 = Inr (v, s')"
    using assms(8,9) hook_checked [OF assms(1-3) _ ip, of K] by (simp add: s1_def)
  then show ?thesis by (cases rule: hook_finish_cases)
qed

text \<open>Both directions: the sample segment with a UDP configuration, and the sample datagram with a TCP configuration.\<close>

definition sample_tcp_state :: "sample_world nanonet" where
  "sample_tcp_state = (sample_state 6)\<lparr>global_config := (sample_config 6)\<lparr>application_logic_type := 1\<rparr>\<rparr>"

lemma hook_sample_udp:
  "\<exists>v s'. nanonet_hook sample_kernel (sample_received (sample_udp_packet 219 129)) sample_tcp_state = Inr (v, s')"
proof -
  have "\<not> isl (nanonet_hook sample_kernel (sample_received (sample_udp_packet 219 129)) sample_tcp_state)"
    by (simp add: nanonet_hook_def parse_sample_udp sample_ip sample_udp sample_tcp_state_def sample_config_def
        nanonet_validate_packet_def call_eq hook_filter_def hook_finish_def payload_mem_def
        nanonet_process_application_logic_def count_result_def Let_def split_beta record_time_def count_processed_def
        trace_ports_def frame_simps initial_stats_def count_error_def)
  then show ?thesis
    by (cases "nanonet_hook sample_kernel (sample_received (sample_udp_packet 219 129)) sample_tcp_state") auto
qed

theorem other_protocol_stolen_witness:
  "(\<exists>s'. nanonet_hook sample_kernel (sample_received (sample_tcp_packet 91 141)) (sample_state 17) = Inr (NF_STOLEN, s'))
   \<and> (\<exists>s'. nanonet_hook sample_kernel (sample_received (sample_udp_packet 219 129)) sample_tcp_state = Inr (NF_STOLEN, s'))"
proof
  obtain v s' where h: "nanonet_hook sample_kernel (sample_received (sample_tcp_packet 91 141)) (sample_state 17) = Inr (v, s')"
    using hook_sample_tcp [of "sample_state 17"] by (auto simp: initial_stats_def)
  have "v = NF_STOLEN"
    by (rule other_protocol_stolen [OF _ _ parse_sample_tcp sample_tcp_ip _ _ _ _ h])
      (simp_all add: sample_tcp_parsed_def sample_validate address_selected_def other_protocol_def sample_config_def
        sample_tcp_daddr IPPROTO_UDP_def)
  with h show "\<exists>s'. nanonet_hook sample_kernel (sample_received (sample_tcp_packet 91 141)) (sample_state 17) = Inr (NF_STOLEN, s')"
    by blast
next
  obtain v s' where h: "nanonet_hook sample_kernel (sample_received (sample_udp_packet 219 129)) sample_tcp_state = Inr (v, s')"
    using hook_sample_udp by blast
  have "v = NF_STOLEN"
    by (rule other_protocol_stolen [OF _ _ parse_sample_udp sample_ip _ _ _ _ h])
      (simp_all add: sample_tcp_state_def address_selected_def other_protocol_def sample_config_def
        nanonet_validate_packet_def call_eq)
  with h show "\<exists>s'. nanonet_hook sample_kernel (sample_received (sample_udp_packet 219 129)) sample_tcp_state = Inr (NF_STOLEN, s')"
    by blast
qed

text \<open>C6. A packet whose IP header carries a correct, non-zero checksum is never processed.\<close>

theorem correct_packets_not_processed:
  assumes "load_iphdr skb 14 = Some ip" and "skb_peek skb 14 (unat (version_ihl ip AND 0x0F) * 4) = Some hdr"
    and "rfc1071 hdr = 0" and "ip_check ip \<noteq> 0"
    and "nanonet_hook K skb s = Inr (v, s')"
  shows "v = NF_ACCEPT \<and> packets_processed (global_stats s') = packets_processed (global_stats s)"
proof -
  have "r < 0" if "ull_parse_packet skb = Some (r, p)" for r p
    using parse_rejects_valid_checksum [OF assms(1-4) that] .
  with assms(5) show ?thesis
    by (cases rule: hook_cases) (auto simp: frame_simps count_defs)
qed

theorem correct_packets_not_processed_witness:
  "\<exists>s'. nanonet_hook sample_kernel (sample_received (sample_tcp_packet 183 26)) (sample_state 17) = Inr (NF_ACCEPT, s')"
proof -
  let ?skb = "sample_received (sample_tcp_packet 183 26)"
  let ?hdr = "take 20 (drop 14 (sample_tcp_packet 183 26))"
  obtain v s' where h: "nanonet_hook sample_kernel ?skb (sample_state 17) = Inr (v, s')"
    using hook_sample_correct [of "sample_state 17"] by auto
  have "v = NF_ACCEPT \<and> packets_processed (global_stats s') = packets_processed (global_stats (sample_state 17))"
    by (rule correct_packets_not_processed [OF _ _ _ _ h, of "iphdr_of ?hdr" ?hdr])
      (simp_all add: load_iphdr_def skb_peek_def peek_def sample_packet_defs iphdr_of_def ldw_def rfc1071_def oc_fold_def)
  with h show ?thesis by blast
qed

end
