(* ===== verification/Resources.thy ===== *)
theory Resources
  imports Nanonet
begin

text \<open>
  What the module acquires from the kernel and gives back: the accounts of the set-up and
  tear-down functions of src/control_interface.c, src/debug.c, src/optimizations.c and
  src/nanonet.c under the laws of \<open>kernel_ledger\<close>.
\<close>

section \<open>The accounts of single calls\<close>

lemma memory_services:
  assumes "kernel_ledger K held"
  shows "held (world (snd (get_timestamp_ns K s))) = held (world s)"
    and "held (world (snd (call (k_ratelimit K rl) s))) = held (world s)"
    and "held (world (printk K msg s)) = held (world s)"
    and "held (world (callu (k_trace_packet K e) s)) = held (world s)"
    and "held (world (snd (call (k_kmalloc K n) s))) = held (world s) + acquired (Block \<circ> fst) (fst (call (k_kmalloc K n) s))"
    and "held (world (callu (k_kfree K a) s)) = held (world s) - {#Block a#}"
    and "held (world (snd (call (k_alloc_skb K n) s))) = held (world s) + acquired (SkBuff \<circ> skb_addr) (fst (call (k_alloc_skb K n) s))"
    and "held (world (callu (k_kfree_skb K b) s)) = held (world s) - {#SkBuff (skb_addr b)#}"
    and "held (world (snd (call (k_dev_queue_xmit K b) s))) = held (world s) - {#SkBuff (skb_addr b)#}"
    and "held (world (snd (call (k_dev_get_by_name K nm) s))) = held (world s) + acquired Netdev (fst (call (k_dev_get_by_name K nm) s))"
    and "held (world (callu (k_dev_put K d) s)) = held (world s) - {#Netdev d#}"
  using assms
  by (simp_all add: kernel_ledger_def memory_ledger_def call_eq callu_def printk_def get_timestamp_ns_eq Let_def)

lemma device_services:
  assumes "kernel_ledger K held"
  shows "held (world (snd (call (k_alloc_chrdev_region K) s))) = held (world s) +
      (if fst (fst (call (k_alloc_chrdev_region K) s)) < 0 then {#} else {#Chrdev (snd (fst (call (k_alloc_chrdev_region K) s)))#})"
    and "held (world (callu (k_unregister_chrdev_region K n) s)) = held (world s) - {#Chrdev n#}"
    and "held (world (snd (call (k_cdev_add K n) s))) = held (world s) + (if fst (call (k_cdev_add K n) s) < 0 then {#} else {#Cdev#})"
    and "held (world (callu (k_cdev_del K) s)) = held (world s) - {#Cdev#}"
    and "held (world (callu (k_class_destroy K c) s)) = held (world s) - {#DevClass c#}"
    and "held (world (callu (k_device_destroy K c n) s)) = held (world s) - {#ClassDevice c n#}"
    and "held (world (snd (call (k_proc_create K) s))) = held (world s) + (if fst (call (k_proc_create K) s) then {#ProcEntry#} else {#})"
    and "held (world (callu (k_remove_proc_entry K) s)) = held (world s) - {#ProcEntry#}"
  using assms by (simp_all add: kernel_ledger_def device_ledger_def call_eq callu_def)

lemma class_create_cases:
  assumes "kernel_ledger K held"
  obtains (fail) e where "fst (call (k_class_create K) s) = Inl e" "e < 0"
      "held (world (snd (call (k_class_create K) s))) = held (world s)"
  | (ok) c where "fst (call (k_class_create K) s) = Inr c"
      "held (world (snd (call (k_class_create K) s))) = held (world s) + {#DevClass c#}"
proof -
  have "case fst (k_class_create K (world s)) of
      Inl e \<Rightarrow> e < 0 \<and> held (snd (k_class_create K (world s))) = held (world s)
    | Inr c \<Rightarrow> held (snd (k_class_create K (world s))) = held (world s) + {#DevClass c#}"
    using assms unfolding kernel_ledger_def device_ledger_def by blast
  with fail ok show thesis by (auto simp: call_eq split: sum.splits)
qed

lemma device_create_cases:
  assumes "kernel_ledger K held"
  obtains (fail) e where "fst (call (k_device_create K c n) s) = Inl e" "e < 0"
      "held (world (snd (call (k_device_create K c n) s))) = held (world s)"
  | (ok) d where "fst (call (k_device_create K c n) s) = Inr d"
      "held (world (snd (call (k_device_create K c n) s))) = held (world s) + {#ClassDevice c n#}"
proof -
  have "case fst (k_device_create K c n (world s)) of
      Inl e \<Rightarrow> e < 0 \<and> held (snd (k_device_create K c n (world s))) = held (world s)
    | Inr _ \<Rightarrow> held (snd (k_device_create K c n (world s))) = held (world s) + {#ClassDevice c n#}"
    using assms unfolding kernel_ledger_def device_ledger_def by blast
  with fail ok show thesis by (auto simp: call_eq split: sum.splits)
qed

lemma hook_services:
  assumes "kernel_ledger K held"
  shows "held (world (snd (call (k_debugfs_create_dir K) s))) = held (world s) + acquired DebugDir (fst (call (k_debugfs_create_dir K) s))"
    and "held (world (snd (call (k_debugfs_create_file K d) s))) = held (world s)"
    and "held (world (callu (k_debugfs_remove_recursive K dir) s)) = held (world s) - acquired DebugDir dir"
    and "held (world (snd (call (k_nf_register_net_hook K) s))) = held (world s) +
      (if fst (call (k_nf_register_net_hook K) s) < 0 then {#} else {#NfHook#})"
    and "held (world (callu (k_nf_unregister_net_hook K) s)) = held (world s) - {#NfHook#}"
  using assms by (simp_all add: kernel_ledger_def hook_ledger_def call_eq callu_def)

lemma log_error_account:
  assumes "kernel_ledger K held"
  shows "held (world (nanonet_log_error K msg s)) = held (world s)"
  using memory_services [OF assms]
  by (simp add: nanonet_log_error_def Let_def split_beta)

lemmas services = memory_services device_services hook_services log_error_account

section \<open>The control and debug interfaces\<close>

definition control_res :: "'w nanonet \<Rightarrow> resource multiset" where
  "control_res s = {#Chrdev (nanonet_dev_number s)#} + {#Cdev#}
     + (case nanonet_class s of None \<Rightarrow> {#} | Some c \<Rightarrow> {#DevClass c#} + {#ClassDevice c (nanonet_dev_number s)#})
     + {#ProcEntry#}"

text \<open>The control variables are changed by the set-up of the control interface only.\<close>

lemma call_control [simp]:
  "nanonet_dev_number (snd (call f s)) = nanonet_dev_number s" "nanonet_dev_number (callu g s) = nanonet_dev_number s"
  "nanonet_class (snd (call f s)) = nanonet_class s" "nanonet_class (callu g s) = nanonet_class s"
  "nanonet_debug_dir (snd (call f s)) = nanonet_debug_dir s" "nanonet_debug_dir (callu g s) = nanonet_debug_dir s"
  "nanonet_dev_number (printk K msg s) = nanonet_dev_number s" "nanonet_class (printk K msg s) = nanonet_class s"
  "nanonet_debug_dir (printk K msg s) = nanonet_debug_dir s"
  by (simp_all add: call_eq callu_def printk_def)

lemma control_proc_account:
  assumes L: "kernel_ledger K held" and "control_proc K c s = (r, s')"
  shows "held (world s') = (if r < 0 then held (world s) - {#ClassDevice c (nanonet_dev_number s)#} - {#DevClass c#}
      - {#Cdev#} - {#Chrdev (nanonet_dev_number s)#} else held (world s) + {#ProcEntry#})
    \<and> nanonet_dev_number s' = nanonet_dev_number s \<and> nanonet_class s' = nanonet_class s"
  using assms(2) by (auto simp: control_proc_def Let_def split_beta services [OF L] split: if_splits)

lemma control_device_account:
  assumes L: "kernel_ledger K held" and run: "control_device K c s = (r, s')"
  shows "held (world s') = (if r < 0 then held (world s) - {#DevClass c#} - {#Cdev#} - {#Chrdev (nanonet_dev_number s)#}
      else held (world s) + {#ClassDevice c (nanonet_dev_number s)#} + {#ProcEntry#})
    \<and> nanonet_dev_number s' = nanonet_dev_number s \<and> nanonet_class s' = nanonet_class s"
  using L
proof (cases rule: device_create_cases [where c = c and n = "nanonet_dev_number s" and s = s])
  case (fail e)
  with run show ?thesis by (auto simp: control_device_def Let_def split_beta services [OF L])
next
  case (ok d)
  with run have "control_proc K c ((snd (call (k_device_create K c (nanonet_dev_number s)) s))\<lparr>nanonet_device := ok_ptr (Inr d)\<rparr>) = (r, s')"
    by (simp add: control_device_def Let_def split_beta)
  from control_proc_account [OF L this] ok(2) show ?thesis by simp
qed

lemma control_class_account:
  assumes L: "kernel_ledger K held" and run: "control_class K s = (r, s')"
  shows "if r < 0 then held (world s') = held (world s) - {#Cdev#} - {#Chrdev (nanonet_dev_number s)#}
     else \<exists>c. nanonet_class s' = Some c \<and> nanonet_dev_number s' = nanonet_dev_number s
        \<and> held (world s') = held (world s) + {#DevClass c#} + {#ClassDevice c (nanonet_dev_number s)#} + {#ProcEntry#}"
  using L
proof (cases rule: class_create_cases [where s = s])
  case (fail e)
  with run show ?thesis by (auto simp: control_class_def Let_def split_beta services [OF L])
next
  case (ok c)
  with run have "control_device K c ((snd (call (k_class_create K) s))\<lparr>nanonet_class := ok_ptr (Inr c)\<rparr>) = (r, s')"
    by (simp add: control_class_def Let_def split_beta)
  from control_device_account [OF L this] ok(2) show ?thesis
    by (auto simp: ok_ptr_def)
qed

lemma control_init_account:
  assumes L: "kernel_ledger K held" and run: "nanonet_control_init K s = (r, s')"
  shows "held (world s') = held (world s) + (if r < 0 then {#} else control_res s')"
proof -
  define ret num s1 where "ret = fst (fst (call (k_alloc_chrdev_region K) s))"
    and "num = snd (fst (call (k_alloc_chrdev_region K) s))"
    and "s1 = (snd (call (k_alloc_chrdev_region K) s))\<lparr>nanonet_dev_number := num\<rparr>"
  define s2 where "s2 = snd (call (k_cdev_add K num) s1)"
  show ?thesis
  proof (cases "ret < 0 \<or> fst (call (k_cdev_add K num) s1) < 0")
    case True
    with run show ?thesis
      by (auto simp: nanonet_control_init_def Let_def split_beta services [OF L] ret_def num_def s1_def split: if_splits)
  next
    case False
    then have "control_class K s2 = (r, s')"
      using run by (simp add: nanonet_control_init_def Let_def split_beta ret_def num_def s1_def s2_def)
    moreover have "held (world s2) = held (world s) + {#Chrdev num#} + {#Cdev#}" "nanonet_dev_number s2 = num"
      using False by (simp_all add: s2_def services [OF L] s1_def ret_def num_def)
    ultimately show ?thesis
      using control_class_account [OF L, of s2 r s'] by (auto simp: control_res_def split: if_splits)
  qed
qed

lemma control_cleanup_account:
  assumes L: "kernel_ledger K held"
  shows "held (world (nanonet_control_cleanup K s)) = held (world s) - control_res s"
proof (cases "nanonet_class s")
  case None
  then show ?thesis
    by (simp add: nanonet_control_cleanup_def services [OF L] control_res_def multiset_eq_iff)
next
  case (Some c)
  then show ?thesis
    by (simp add: nanonet_control_cleanup_def services [OF L] control_res_def multiset_eq_iff)
qed

lemma debug_init_account:
  assumes L: "kernel_ledger K held" and run: "nanonet_debug_init K s = (r, s')"
  shows "held (world s') = held (world s) + (if r < 0 then {#} else acquired DebugDir (nanonet_debug_dir s'))"
  using run by (auto simp: nanonet_debug_init_def Let_def split_beta services [OF L] split: option.splits)

lemma debug_cleanup_account:
  assumes L: "kernel_ledger K held"
  shows "held (world (nanonet_debug_cleanup K s)) = held (world s) - acquired DebugDir (nanonet_debug_dir s)"
  by (simp add: nanonet_debug_cleanup_def services [OF L])

section \<open>The response pool\<close>

definition slot_res :: "nat list \<Rightarrow> 'w nanonet \<Rightarrow> resource multiset" where
  "slot_res is s = mset (map (\<lambda>i. SkBuff (skb_addr (the (pool (the_pool s) i)))) is)"

lemma slot_res_cong: "(\<And>i. i \<in> set is \<Longrightarrow> pool (the_pool s) i = pool (the_pool s') i) \<Longrightarrow> slot_res is s = slot_res is s'"
  by (auto simp: slot_res_def intro!: image_mset_cong)

lemma release_below_account:
  assumes L: "kernel_ledger K held" and "\<And>j. j < i \<Longrightarrow> pool (the_pool s) j \<noteq> None"
  shows "held (world (release_below K i s)) = held (world s) - slot_res [0..<i] s"
  using assms(2)
proof (induction i arbitrary: s)
  case (Suc i)
  obtain skb where skb: "pool (the_pool s) i = Some skb"
    using Suc.prems [of i] by auto
  let ?s = "callu (k_kfree_skb K skb) s"
  have "held (world (release_below K i ?s)) = held (world ?s) - slot_res [0..<i] ?s"
    by (rule Suc.IH) (simp add: frame_simps Suc.prems)
  moreover have "slot_res [0..<i] ?s = slot_res [0..<i] s"
    by (rule slot_res_cong) (simp add: frame_simps)
  ultimately show ?case
    by (simp add: skb kfree_skb_ptr_def services [OF L] slot_res_def)
qed (simp add: slot_res_def)

lemma fill_pool_account:
  assumes L: "kernel_ledger K held" and "fill_pool K i s = (r, s')" and "i \<le> 256"
    and "\<And>j. j < i \<Longrightarrow> pool (the_pool s) j \<noteq> None"
  shows "if r < 0 then held (world s') = held (world s) - slot_res [0..<i] s
    else r = 0 \<and> held (world s') = held (world s) + slot_res [i..<256] s' \<and> (\<forall>j<i. pool (the_pool s') j = pool (the_pool s) j)"
  using assms(2-4)
proof (induction "256 - i" arbitrary: i s)
  case 0
  then have "i = 256" by simp
  with 0 show ?case by (simp add: fill_pool.simps [of K 256 s] slot_res_def)
next
  case (Suc n)
  define s1 where "s1 = snd (call (k_alloc_skb K 1500) s)"
  have s1: "the_pool s1 = the_pool s"
    by (simp add: s1_def frame_simps)
  have i: "i < 256" using Suc.hyps(2) by simp
  show ?case
  proof (cases "fst (call (k_alloc_skb K 1500) s)")
    case None
    let ?s = "nanonet_log_error K (''Failed to allocate skb for response pool at index '' @ fmt_u i) (set_pool i None s1)"
    have "r < 0" and s': "s' = release_below K i ?s"
      using Suc.prems(1) None i by (simp_all add: fill_pool.simps [of K i s] split_beta s1_def Let_def split: option.splits)
    have "held (world s') = held (world ?s) - slot_res [0..<i] ?s"
      unfolding s' by (rule release_below_account [OF L]) (simp add: frame_simps set_pool_def s1 Suc.prems(3))
    moreover have "slot_res [0..<i] ?s = slot_res [0..<i] s"
      by (rule slot_res_cong) (simp add: frame_simps set_pool_def s1)
    ultimately show ?thesis
      using \<open>r < 0\<close> None by (simp add: services [OF L] s1_def set_pool_def)
  next
    case (Some skb)
    let ?s = "set_pool i (Some skb) s1"
    have run: "fill_pool K (Suc i) ?s = (r, s')"
      using Suc.prems(1) Some i by (simp add: fill_pool.simps [of K i s] split_beta s1_def split: option.splits)
    have slots: "pool (the_pool ?s) j \<noteq> None" if "j < Suc i" for j
      using that Suc.prems(3) by (auto simp: set_pool_def s1 less_Suc_eq)
    have IH: "if r < 0 then held (world s') = held (world ?s) - slot_res [0..<Suc i] ?s
        else r = 0 \<and> held (world s') = held (world ?s) + slot_res [Suc i..<256] s' \<and> (\<forall>j<Suc i. pool (the_pool s') j = pool (the_pool ?s) j)"
      by (rule Suc.hyps(1) [OF _ run _ slots]) (use Suc.hyps(2) in auto)
    have acc: "held (world ?s) = held (world s) + {#SkBuff (skb_addr skb)#}"
      using Some by (simp add: set_pool_def s1_def services [OF L])
    have below: "slot_res [0..<i] ?s = slot_res [0..<i] s"
      by (rule slot_res_cong) (simp add: set_pool_def s1)
    have "slot_res [0..<Suc i] ?s = slot_res [0..<i] s + {#SkBuff (skb_addr skb)#}"
      using below by (simp add: slot_res_def set_pool_def)
    moreover have "[i..<256] = i # [Suc i..<256]"
      using i by (rule upt_conv_Cons)
    ultimately show ?thesis
      using IH acc by (auto simp: slot_res_def set_pool_def s1 split: if_splits)
  qed
qed

lemma init_pool_account:
  assumes L: "kernel_ledger K held" and "nanonet_init_response_pool K s = (r, s')"
  shows "held (world s') = held (world s) + (if r < 0 then {#} else slot_res [0..<256] s')" and "\<not> r < 0 \<Longrightarrow> r = 0"
  using fill_pool_account [OF L, of 0 "reset_indices s" r s'] assms(2)
  by (auto simp: nanonet_init_response_pool_def reset_indices_def slot_res_def split: if_splits)

lemma fold_kfree_skb_account:
  assumes L: "kernel_ledger K held"
  shows "held (fold (k_kfree_skb K) bs w) = held w - mset (map (SkBuff \<circ> skb_addr) bs)"
proof (induction bs arbitrary: w)
  case (Cons b bs)
  have "held (k_kfree_skb K b w) = held w - {#SkBuff (skb_addr b)#}"
    using L by (simp add: kernel_ledger_def memory_ledger_def)
  with Cons show ?case by simp
qed simp

lemma cleanup_pool_account:
  assumes L: "kernel_ledger K held" and inv: "pool_inv s"
  shows "held (world (nanonet_cleanup_response_pool K s)) = held (world s) - slot_res [pool_head (the_pool s)..<256] s"
  using cleanup_frees [OF inv, of K] fold_kfree_skb_account [OF L]
  by (simp add: slots_from_def slot_res_def multiset.map_comp comp_def)

section \<open>Loading and unloading\<close>

text \<open>Which variables the set-up and tear-down functions leave alone.\<close>

lemma control_init_keeps:
  assumes "nanonet_control_init K s = (r, s')"
  shows "the_pool s' = the_pool s" "target_dev s' = target_dev s" "global_config s' = global_config s"
    "global_stats s' = global_stats s" "connection_hash s' = connection_hash s"
  using assms
  by (auto simp: nanonet_control_init_def control_class_def control_device_def control_proc_def Let_def split_beta
      frame_simps split: if_splits sum.splits)

lemma debug_init_keeps:
  assumes "nanonet_debug_init K s = (r, s')"
  shows "the_pool s' = the_pool s" "target_dev s' = target_dev s" "global_config s' = global_config s"
    "nanonet_dev_number s' = nanonet_dev_number s" "nanonet_class s' = nanonet_class s"
    "global_stats s' = global_stats s" "connection_hash s' = connection_hash s"
  using assms by (auto simp: nanonet_debug_init_def Let_def split_beta frame_simps split: option.splits)

lemma debug_cleanup_keeps [simp]:
  "the_pool (nanonet_debug_cleanup K s) = the_pool s" "target_dev (nanonet_debug_cleanup K s) = target_dev s"
  "nanonet_dev_number (nanonet_debug_cleanup K s) = nanonet_dev_number s"
  "nanonet_class (nanonet_debug_cleanup K s) = nanonet_class s"
  by (simp_all add: nanonet_debug_cleanup_def frame_simps)

lemma control_cleanup_keeps [simp]:
  "the_pool (nanonet_control_cleanup K s) = the_pool s" "target_dev (nanonet_control_cleanup K s) = target_dev s"
  by (simp_all add: nanonet_control_cleanup_def Let_def frame_simps split: option.split)

lemma cleanup_pool_keeps [simp]:
  "target_dev (nanonet_cleanup_response_pool K s) = target_dev s"
  by (simp add: nanonet_cleanup_response_pool_def fold_cleanup_slot reset_indices_def)

lemma release_below_keeps:
  "target_dev (release_below K i s) = target_dev s" "global_config (release_below K i s) = global_config s"
  "global_stats (release_below K i s) = global_stats s" "connection_hash (release_below K i s) = connection_hash s"
  by (induction i arbitrary: s) (auto simp: kfree_skb_ptr_def frame_simps split: option.split)

lemma fill_pool_keeps:
  "target_dev (snd (fill_pool K i s)) = target_dev s \<and> global_config (snd (fill_pool K i s)) = global_config s
    \<and> global_stats (snd (fill_pool K i s)) = global_stats s \<and> connection_hash (snd (fill_pool K i s)) = connection_hash s"
proof (induction K i s rule: fill_pool.induct)
  case (1 K i s)
  then show ?case
    by (subst (1 2 3 4) fill_pool.simps)
      (auto simp: call_eq Let_def release_below_keeps frame_simps set_pool_def split: option.split)
qed

lemma fill_pool_result: "fst (fill_pool K i s) \<le> 0"
proof (induction K i s rule: fill_pool.induct)
  case (1 K i s)
  then show ?case
    by (subst fill_pool.simps) (auto simp: call_eq Let_def split: option.split)
qed

lemma init_pool_keeps:
  assumes "nanonet_init_response_pool K s = (r, s')"
  shows "target_dev s' = target_dev s" "global_config s' = global_config s"
    "global_stats s' = global_stats s" "connection_hash s' = connection_hash s"
  using fill_pool_keeps [of K 0 "reset_indices s"] assms
  by (simp_all add: nanonet_init_response_pool_def reset_indices_def)

lemma control_res_keeps [simp]:
  "control_res (printk K msg s) = control_res s" "control_res (snd (call f s)) = control_res s"
  "control_res (callu g s) = control_res s" "control_res (nanonet_debug_cleanup K s) = control_res s"
  by (simp_all add: control_res_def cong: option.case_cong)

lemma slot_res_keeps [simp]:
  "slot_res is (printk K msg s) = slot_res is s" "slot_res is (snd (call f s)) = slot_res is s"
  "slot_res is (callu g s) = slot_res is s" "slot_res is (nanonet_debug_cleanup K s) = slot_res is s"
  "slot_res is (nanonet_control_cleanup K s) = slot_res is s"
  by (simp_all add: slot_res_def frame_simps)

text \<open>What the tear-down gives back.\<close>

definition undo_all :: "net_device \<Rightarrow> 'w nanonet \<Rightarrow> resource multiset" where
  "undo_all dev s = acquired DebugDir (nanonet_debug_dir s) + control_res s
     + slot_res [pool_head (the_pool s)..<256] s + {#Netdev dev#}"

lemma undo_all_keeps [simp]:
  "undo_all dev (printk K msg s) = undo_all dev s" "undo_all dev (snd (call f s)) = undo_all dev s"
  "undo_all dev (callu g s) = undo_all dev s"
  by (simp_all add: undo_all_def frame_simps)

lemma pool_inv_keeps [simp]:
  "pool_inv (printk K msg s) = pool_inv s" "pool_inv (snd (call f s)) = pool_inv s" "pool_inv (callu g s) = pool_inv s"
  "pool_inv (nanonet_debug_cleanup K s) = pool_inv s" "pool_inv (nanonet_control_cleanup K s) = pool_inv s"
  by (simp_all add: pool_inv_def frame_simps)

lemma teardown_account:
  assumes L: "kernel_ledger K held" and "pool_inv s"
  shows "held (world (callu (k_dev_put K dev) (nanonet_cleanup_response_pool K (nanonet_control_cleanup K
      (nanonet_debug_cleanup K (printk K msg s)))))) = held (world s) - undo_all dev s"
  using assms(2)
  by (simp add: services [OF L] control_cleanup_account [OF L] debug_cleanup_account [OF L] undo_all_def
      cleanup_pool_account [OF L] frame_simps)

lemma init_hook_account:
  assumes L: "kernel_ledger K held" and "pool_inv s" and run: "init_hook K dev s = (r, s')"
  shows "if r < 0 then held (world s') = held (world s) - undo_all dev s
    else held (world s') = held (world s) + {#NfHook#} \<and> undo_all dev s' = undo_all dev s \<and> the_pool s' = the_pool s
      \<and> target_dev s' = target_dev s"
  using run assms(2)
  by (auto simp: init_hook_def Let_def split_beta hook_services [OF L] memory_services(3) [OF L]
      teardown_account [OF L] frame_simps split: if_splits)

lemma init_debug_account:
  assumes L: "kernel_ledger K held" and inv: "pool_inv s" and mc: "\<not> multicast (global_config s)"
    and run: "init_debug K dev s = (r, s')"
  shows "if r < 0 then held (world s') = held (world s) - (control_res s + slot_res [pool_head (the_pool s)..<256] s + {#Netdev dev#})
    else held (world s') + control_res s + slot_res [pool_head (the_pool s)..<256] s + {#Netdev dev#}
        = held (world s) + undo_all dev s' + {#NfHook#} \<and> the_pool s' = the_pool s \<and> target_dev s' = target_dev s"
proof -
  obtain r1 s1 where d: "nanonet_debug_init K s = (r1, s1)" by fastforce
  note k = debug_init_keeps [OF d]
  have inv1: "pool_inv s1" using inv k(1) pool_inv_cong by metis
  have res: "control_res s1 = control_res s" "slot_res is s1 = slot_res is s" for "is"
    using k by (simp_all add: control_res_def slot_res_def cong: option.case_cong)
  note acc = debug_init_account [OF L d]
  show ?thesis
  proof (cases "r1 < 0")
    case True
    then show ?thesis
      using run d acc inv1 res k
      by (auto simp: init_debug_def services [OF L] control_cleanup_account [OF L] cleanup_pool_account [OF L] frame_simps)
  next
    case False
    have "init_multicast K s1 = (0, s1)"
      using mc k by (simp add: init_multicast_def split: option.split)
    then have "init_hook K dev s1 = (r, s')"
      using run d False by (simp add: init_debug_def init_group_def)
    from init_hook_account [OF L inv1 this] show ?thesis
      using acc False res k by (auto simp: undo_all_def ac_simps split: if_splits)
  qed
qed

lemma init_control_account:
  assumes L: "kernel_ledger K held" and inv: "pool_inv s" and mc: "\<not> multicast (global_config s)"
    and run: "init_control K dev s = (r, s')"
  shows "if r < 0 then held (world s') = held (world s) - (slot_res [pool_head (the_pool s)..<256] s + {#Netdev dev#})
    else held (world s') + slot_res [pool_head (the_pool s)..<256] s + {#Netdev dev#}
        = held (world s) + undo_all dev s' + {#NfHook#} \<and> the_pool s' = the_pool s \<and> target_dev s' = target_dev s"
proof -
  obtain r1 s1 where c: "nanonet_control_init K s = (r1, s1)" by fastforce
  note k = control_init_keeps [OF c]
  have inv1: "pool_inv s1" using inv k(1) pool_inv_cong by metis
  have res: "slot_res is s1 = slot_res is s" for "is"
    using k by (simp add: slot_res_def)
  note acc = control_init_account [OF L c]
  show ?thesis
  proof (cases "r1 < 0")
    case True
    then show ?thesis
      using run c acc inv1 res k
      by (auto simp: init_control_def services [OF L] cleanup_pool_account [OF L] frame_simps)
  next
    case False
    then have "init_debug K dev s1 = (r, s')"
      using run c by (simp add: init_control_def)
    from init_debug_account [OF L inv1 _ this] show ?thesis
      using acc False res k mc by (auto simp: ac_simps split: if_splits)
  qed
qed

lemma init_account:
  assumes L: "kernel_ledger K held" and fresh: "\<And>i. pool (the_pool s) i = None" and mc: "\<not> multicast (global_config s)"
    and run: "nanonet_init K s = (r, s')"
  shows "if r < 0 then held (world s') = held (world s)
    else pool_inv s' \<and> (\<exists>dev. target_dev s' = Some dev \<and> held (world s') = held (world s) + undo_all dev s' + {#NfHook#})"
proof -
  define s0 where "s0 = snd (call (k_dev_get_by_name K ''eth0'') (printk K ''NANONET: Initializing ultra-low latency networking module'' s))"
  define d where "d = fst (call (k_dev_get_by_name K ''eth0'') (printk K ''NANONET: Initializing ultra-low latency networking module'' s))"
  have acc0: "held (world s0) = held (world s) + acquired Netdev d"
    by (simp add: s0_def d_def services [OF L])
  have s0: "the_pool s0 = the_pool s" "global_config s0 = global_config s"
    by (simp_all add: s0_def frame_simps)
  show ?thesis
  proof (cases d)
    case None
    with run acc0 show ?thesis
      by (auto simp: nanonet_init_def Let_def split_beta s0_def d_def services [OF L])
  next
    case (Some dev)
    obtain r1 s1 where p: "nanonet_init_response_pool K (s0\<lparr>target_dev := Some dev\<rparr>) = (r1, s1)" by fastforce
    have run1: "(if r1 < 0 then (r1, callu (k_dev_put K dev) (printk K ''NANONET: Failed to initialize response pool'' s1))
        else init_control K dev s1) = (r, s')"
      using run Some p by (simp add: nanonet_init_def Let_def split_beta s0_def d_def cong: if_cong)
    note acc = init_pool_account [OF L p]
    show ?thesis
    proof (cases "r1 < 0")
      case True
      with run1 acc acc0 Some show ?thesis by (auto simp: services [OF L])
    next
      case False
      then have inv: "pool_inv s1" and head: "pool_head (the_pool s1) = 0"
        using acc(2) init_pool_inv [of K "s0\<lparr>target_dev := Some dev\<rparr>" s1] p fresh s0 by auto
      have keep: "target_dev s1 = Some dev" "global_config s1 = global_config s"
        using init_pool_keeps [OF p] s0 by simp_all
      from run1 False have "init_control K dev s1 = (r, s')" by simp
      from init_control_account [OF L inv _ this] show ?thesis
        using acc(1) acc0 Some False mc keep head inv pool_inv_cong [of s' s1]
        by (auto simp: ac_simps split: if_splits)
    qed
  qed
qed

text \<open>A successful set-up leaves the configuration, the statistics and the connections alone.\<close>

lemma init_hook_keeps:
  assumes "init_hook K dev s = (0, s')"
  shows "global_config s' = global_config s \<and> global_stats s' = global_stats s \<and> connection_hash s' = connection_hash s
    \<and> the_pool s' = the_pool s"
  using assms by (auto simp: init_hook_def Let_def split_beta frame_simps split: if_splits)

lemma init_group_keeps:
  assumes "init_group K dev s = (0, s')"
  shows "global_config s' = global_config s \<and> global_stats s' = global_stats s \<and> connection_hash s' = connection_hash s
    \<and> the_pool s' = the_pool s"
proof -
  obtain r s1 where m: "init_multicast K s = (r, s1)" by fastforce
  have "global_config s1 = global_config s \<and> global_stats s1 = global_stats s \<and> connection_hash s1 = connection_hash s
      \<and> the_pool s1 = the_pool s"
    using m by (auto simp: init_multicast_def call_eq split: option.splits if_splits)
  moreover have "init_hook K dev s1 = (0, s')"
    using assms m by (auto simp: init_group_def split: if_splits)
  ultimately show ?thesis using init_hook_keeps by metis
qed

lemma init_keeps:
  assumes "nanonet_init K s = (0, s')" and fresh: "\<And>i. pool (the_pool s) i = None"
  shows "global_config s' = global_config s \<and> global_stats s' = global_stats s \<and> connection_hash s' = connection_hash s
    \<and> pool_inv s' \<and> (\<exists>s0 s1. the_pool s0 = the_pool s \<and> nanonet_init_response_pool K s0 = (0, s1) \<and> the_pool s' = the_pool s1)"
proof -
  define s0 where "s0 = snd (call (k_dev_get_by_name K ''eth0'') (printk K ''NANONET: Initializing ultra-low latency networking module'' s))"
  have s0: "global_config s0 = global_config s" "global_stats s0 = global_stats s" "connection_hash s0 = connection_hash s"
      "the_pool s0 = the_pool s"
    by (simp_all add: s0_def frame_simps)
  obtain dev r1 s1 where p: "nanonet_init_response_pool K (s0\<lparr>target_dev := Some dev\<rparr>) = (r1, s1)"
    and c: "init_control K dev s1 = (0, s')" and r1: "\<not> r1 < 0"
    using assms by (auto simp: nanonet_init_def Let_def split_beta s0_def prod_eq_iff split: option.splits if_splits)
  obtain r2 s2 where ci: "nanonet_control_init K s1 = (r2, s2)" by fastforce
  obtain r3 s3 where di: "nanonet_debug_init K s2 = (r3, s3)" by fastforce
  have g: "init_group K dev s3 = (0, s')"
    using c ci di by (auto simp: init_control_def init_debug_def split: if_splits)
  have "r1 = 0"
    using p r1 fill_pool_result [of K 0 "reset_indices (s0\<lparr>target_dev := Some dev\<rparr>)"]
    by (auto simp: nanonet_init_response_pool_def)
  then have inv: "pool_inv s1"
    using init_pool_inv [of K "s0\<lparr>target_dev := Some dev\<rparr>" s1] p fresh s0 by simp
  have "\<exists>s0 s1. the_pool s0 = the_pool s \<and> nanonet_init_response_pool K s0 = (0, s1) \<and> the_pool s' = the_pool s1"
    by (rule exI [of _ "s0\<lparr>target_dev := Some dev\<rparr>"], rule exI [of _ s1])
      (use init_group_keeps [OF g] debug_init_keeps [OF di] control_init_keeps [OF ci] s0 p \<open>r1 = 0\<close> in simp)
  then show ?thesis
    using init_group_keeps [OF g] debug_init_keeps [OF di] control_init_keeps [OF ci] init_pool_keeps [OF p] s0
      pool_inv_cong [of s1 s'] inv by simp
qed

lemma exit_account:
  assumes L: "kernel_ledger K held" and "pool_inv s" and "target_dev s = Some dev"
  shows "held (world (nanonet_exit K s)) = held (world s) - {#NfHook#} - undo_all dev s"
  using assms(2,3)
  by (simp add: nanonet_exit_def Let_def services [OF L] control_cleanup_account [OF L] debug_cleanup_account [OF L]
      cleanup_pool_account [OF L] undo_all_def frame_simps ac_simps add_mset_commute)

section \<open>The sample kernel\<close>

text \<open>The sample kernel with any outcome of the registration of the hook.\<close>

definition hook_kernel :: "int \<Rightarrow> sample_world kernel" where
  "hook_kernel c = sample_kernel\<lparr>k_nf_register_net_hook := (\<lambda>w. (c, if c < 0 then w else take_res NfHook w))\<rparr>"

lemma hook_kernel_ledger: "kernel_ledger (hook_kernel c) sw_held"
  unfolding kernel_ledger_def
proof (intro conjI)
  show "memory_ledger (hook_kernel c) sw_held"
    by (simp add: memory_ledger_def hook_kernel_def take_res_def drop_res_def sample_skb_def)
  show "device_ledger (hook_kernel c) sw_held"
    by (simp add: device_ledger_def hook_kernel_def take_res_def drop_res_def)
  show "hook_ledger (hook_kernel c) sw_held"
    by (simp add: hook_ledger_def hook_kernel_def take_res_def drop_res_def split: option.split)
qed

lemma hook_kernel_init: "fst (nanonet_init (hook_kernel c) (initial_nanonet w)) = (if c < 0 then c else 0)"
proof -
  let ?K = "hook_kernel c"
  have ctl: "fst (nanonet_control_init ?K s) = 0" and dbg: "fst (nanonet_debug_init ?K s) = 0" for s
    by (simp_all add: hook_kernel_def nanonet_control_init_def control_class_def control_device_def control_proc_def
        nanonet_debug_init_def call_eq Let_def)
  have hook: "fst (init_hook ?K dev s) = (if c < 0 then c else 0)" for dev s
    by (simp add: hook_kernel_def init_hook_def call_eq Let_def)
  have mc: "fst (init_multicast ?K s) = 0" for s
    by (simp add: hook_kernel_def init_multicast_def call_eq split: option.split)
  have "fst (init_control ?K dev s) = (if c < 0 then c else 0)" for dev s
    by (simp add: init_control_def init_debug_def init_group_def split_beta Let_def ctl dbg mc hook)
  moreover have "fst (fill_pool ?K 0 s) = 0" for s
    by (rule fill_pool_succeeds) (simp add: hook_kernel_def)
  moreover have "k_dev_get_by_name ?K nm w = (Some sample_dev, take_res (Netdev sample_dev) w)" for nm w
    by (simp add: hook_kernel_def)
  ultimately show ?thesis
    by (simp add: nanonet_init_def nanonet_init_response_pool_def call_eq split_beta Let_def)
qed

section \<open>The balance\<close>

text \<open>C12. A module that fails to load has given back everything: whichever step of \<open>nanonet_init\<close> fails, the kernel
  resources the module owns are those it owned before.\<close>

theorem load_failure_releases:
  assumes "kernel_ledger K held" and "nanonet_init K (initial_nanonet w) = (r, s')" and "r < 0"
  shows "held (world s') = held w"
  using init_account [OF assms(1) _ _ assms(2)] assms(3)
  by (simp add: initial_nanonet_def initial_config_def)

theorem load_failure_releases_witness:
  "sw_held (world (snd (nanonet_init (hook_kernel (- 12)) (initial_nanonet sample_world)))) = {#}"
  using load_failure_releases [OF hook_kernel_ledger, of "- 12" sample_world, OF surjective_pairing]
  by (simp add: hook_kernel_init sample_world_def)

text \<open>C3. Loading and unloading the module is balanced: after a successful \<open>nanonet_init\<close>, \<open>nanonet_exit\<close> gives back
  exactly what was acquired.\<close>

theorem load_unload_balanced:
  assumes "kernel_ledger K held" and "nanonet_init K (initial_nanonet w) = (0, s')"
  shows "held (world (nanonet_exit K s')) = held w"
proof -
  obtain dev where "pool_inv s'" and d: "target_dev s' = Some dev"
    and h: "held (world s') = held w + undo_all dev s' + {#NfHook#}"
    using init_account [OF assms(1) _ _ assms(2)] by (auto simp: initial_nanonet_def initial_config_def)
  from exit_account [OF assms(1) this(1,2)] h show ?thesis by simp
qed

lemma hook_kernel_load:
  "nanonet_init (hook_kernel 0) (initial_nanonet w) = (0, snd (nanonet_init (hook_kernel 0) (initial_nanonet w)))"
  using hook_kernel_init [of 0 w] by (simp add: prod_eq_iff)

theorem load_unload_balanced_witness:
  "sw_held (world (nanonet_exit (hook_kernel 0) (snd (nanonet_init (hook_kernel 0) (initial_nanonet sample_world))))) = {#}"
  using load_unload_balanced [OF hook_kernel_ledger hook_kernel_load, of sample_world] by (simp add: sample_world_def)

text \<open>C32. Unloading frees no memory block: whatever connections the module tracks, their blocks are still allocated after
  \<open>nanonet_exit\<close>, which does not clear the table.\<close>

theorem exit_leaks_connections:
  assumes "kernel_ledger K held" and "pool_inv s" and "target_dev s = Some dev"
  shows "count (held (world (nanonet_exit K s))) (Block a) = count (held (world s)) (Block a)
    \<and> connection_hash (nanonet_exit K s) = connection_hash s"
proof -
  have "count (undo_all dev s) (Block a) = 0"
    by (auto simp: undo_all_def control_res_def slot_res_def acquired_def not_in_iff [symmetric] split: option.split)
  moreover have "connection_hash (nanonet_exit K s) = connection_hash s"
    by (simp add: nanonet_exit_def Let_def nanonet_cleanup_response_pool_def fold_cleanup_slot reset_indices_def
        nanonet_control_cleanup_def nanonet_debug_cleanup_def frame_simps split: option.split)
  ultimately show ?thesis
    using exit_account [OF assms] by simp
qed

text \<open>A module with a filled pool, the device and one tracked connection.\<close>

definition loaded_tracking :: "sample_world nanonet" where
  "loaded_tracking = sample_tracking\<lparr>target_dev := Some sample_dev,
     the_pool := the_pool (snd (nanonet_init_response_pool sample_kernel (sample_state 6)))\<rparr>"

theorem exit_leaks_connections_witness:
  "count (sw_held (world (nanonet_exit sample_kernel loaded_tracking))) (Block 100) = 1"
proof -
  have inv: "pool_inv loaded_tracking"
    using init_pool_inv [OF sample_pool, of 6] by (simp add: loaded_tracking_def pool_inv_def)
  have "hash_lookup sample_kernel (\<lambda>_. []) k = None" for k
    by (simp add: hash_lookup_def)
  then have "sw_held (world loaded_tracking) = {#Block 100#}"
    by (simp add: loaded_tracking_def sample_tracking_def nanonet_track_tcp_connection_def Let_def call_eq
        sample_syn_def upd_stats_def sample_world_def take_res_def)
  then show ?thesis
    using exit_leaks_connections [OF sample_ledger inv, of sample_dev 100] by (simp add: loaded_tracking_def)
qed

section \<open>What a response costs\<close>

lemma obtain_response_netdevs:
  assumes L: "kernel_ledger K held"
  shows "count (held (world (snd (obtain_response_skb K n s)))) (Netdev d) = count (held (world s)) (Netdev d)"
proof -
  have get: "held (world (snd (nanonet_get_response_skb K s))) = held (world s)"
    by (simp add: nanonet_get_response_skb_def Let_def services [OF L] set_pool_def)
  obtain r s1 where g: "nanonet_get_response_skb K s = (r, s1)" by fastforce
  show ?thesis
  proof (cases r)
    case None
    obtain b s2 where a: "call (k_alloc_skb K (n + NET_IP_ALIGN K)) s1 = (b, s2)" by fastforce
    have "count (held (world s2)) (Netdev d) = count (held (world s1)) (Netdev d)"
      using memory_services(7) [OF L, of "n + NET_IP_ALIGN K" s1] a by (cases b) auto
    then show ?thesis
      using None get by (cases b) (simp_all add: obtain_response_skb_def g a services [OF L])
  next
    case (Some b)
    with get show ?thesis by (simp add: obtain_response_skb_def g)
  qed
qed

lemma create_response_netdevs:
  assumes L: "kernel_ledger K held" and run: "nanonet_create_response_packet K None data s = Inr (Some skb, s')"
  shows "\<exists>d. \<forall>e. count (held (world s')) (Netdev e) = count (held (world s)) (Netdev e) + (if e = d then 1 else 0)"
proof -
  let ?n = "34 + transport_hdr_len (global_config s) + length data"
  obtain b s1 where o: "obtain_response_skb K ?n s = (b, s1)" by fastforce
  note acc = obtain_response_netdevs [OF L, of ?n s, unfolded o snd_conv]
  obtain dv s2 where d: "call (k_dev_get_by_name K ''eth0'') s1 = (dv, s2)" by fastforce
  have "dv \<noteq> None \<and> s' = s2"
    using run o d
    by (auto simp: nanonet_create_response_packet_def Let_def and_then_eq_Inr split: if_splits option.splits)
  then obtain dev where dev: "dv = Some dev" and s': "s' = s2" by auto
  have "held (world s2) = held (world s1) + {#Netdev dev#}"
    using memory_services(10) [OF L, of "''eth0''" s1] d dev by simp
  then show ?thesis
    using acc s' by (intro exI [of _ dev]) auto
qed

text \<open>C33. Every response that is sent costs a reference on the network device: the one \<open>dev_get_by_name\<close> took is
  never given back.\<close>

theorem response_leaks_device:
  assumes L: "kernel_ledger K held" and "nanonet_send_response K None (Some data) s = Inr (0, s')"
  shows "\<exists>d. \<forall>e. count (held (world s')) (Netdev e) = count (held (world s)) (Netdev e) + (if e = d then 1 else 0)"
proof -
  obtain b s1 where c: "nanonet_create_response_packet K None data s = Inr (Some b, s1)"
    and s': "world s' = world (snd (nanonet_raw_send K (Some b) (skb_dev b) s1))" and "fst (nanonet_raw_send K (Some b) (skb_dev b) s1) = 0"
    using assms(2)
    by (auto simp: nanonet_send_response_def and_then_eq_Inr split_beta Let_def split: if_splits option.splits)
  then obtain d where "skb_dev b = Some d"
    by (cases "skb_dev b") (auto simp: nanonet_raw_send_def)
  then have "count (held (world s')) (Netdev e) = count (held (world s1)) (Netdev e)" for e
    using s' by (simp add: nanonet_raw_send_def services [OF L])
  with create_response_netdevs [OF L c] show ?thesis by simp
qed

theorem response_leaks_device_witness:
  "\<exists>s'. nanonet_send_response sample_kernel None (Some [1, 2, 3]) (sample_state 17) = Inr (0, s')
    \<and> (\<exists>d. count (sw_held (world s')) (Netdev d) = 1)"
proof -
  obtain s' where s': "nanonet_send_response sample_kernel None (Some [1, 2, 3]) (sample_state 17) = Inr (0, s')"
    using send_response_run [of "sample_state 17" "[1, 2, 3]" sample_kernel, OF _ _ _ _ sample_obtain]
    by (auto simp: sample_config_def fresh_skb_def sample_skb_def transport_hdr_len_def)
  with response_leaks_device [OF sample_ledger s'] show ?thesis by (auto simp: sample_world_def)
qed

end
