(* ===== verification/Module_Runs.thy ===== *)
theory Module_Runs
  imports Resources
begin

text \<open>
  The loaded module as a state machine: packets arrive at the hook, privileged processes issue
  commands on the device, and the rest of the kernel changes its own state at any time.
  Every step runs to completion before the next one.
\<close>

section \<open>Steps and runs\<close>

datatype 'w event =
    Packet sk_buff verdict
  | Command u32 u64 int
  | Environment 'w

inductive module_step :: "'w kernel \<Rightarrow> 'w nanonet \<Rightarrow> 'w event \<Rightarrow> 'w nanonet \<Rightarrow> bool" for K :: "'w kernel" where
  packet: "nanonet_hook K skb s = Inr (v, s') \<Longrightarrow> module_step K s (Packet skb v) s'"
| command: "nanonet_open K s = 0 \<Longrightarrow> nanonet_ioctl K cmd arg s = (r, s') \<Longrightarrow> module_step K s (Command cmd arg r) s'"
| environment: "module_step K s (Environment w) (s\<lparr>world := w\<rparr>)"

inductive_cases packetE: "module_step K s (Packet skb v) s'"
inductive_cases commandE: "module_step K s (Command cmd arg r) s'"
inductive_cases environmentE: "module_step K s (Environment w) s'"

inductive module_run :: "'w kernel \<Rightarrow> 'w nanonet \<Rightarrow> 'w event list \<Rightarrow> 'w nanonet \<Rightarrow> bool" for K :: "'w kernel" where
  nil: "module_run K s [] s"
| cons: "module_step K s e s' \<Longrightarrow> module_run K s' es s'' \<Longrightarrow> module_run K s (e # es) s''"

inductive_simps module_run_Nil [simp]: "module_run K s [] s'"
inductive_simps module_run_Cons: "module_run K s (e # es) s'"

definition loaded :: "'w kernel \<Rightarrow> 'w nanonet \<Rightarrow> bool" where
  "loaded K s \<longleftrightarrow> (\<exists>w. nanonet_init K (initial_nanonet w) = (0, s))"

lemma run_invariant:
  assumes "module_run K s es s'" and "P s" and "\<forall>e \<in> set es. ok e"
    and "\<And>s e s'. module_step K s e s' \<Longrightarrow> ok e \<Longrightarrow> P s \<Longrightarrow> P s'"
  shows "P s'"
  using assms(1-3)
proof (induction rule: module_run.induct)
  case (cons s e s' es s'')
  then show ?case using assms(4) by auto
qed

section \<open>Invariants\<close>

fun is_command :: "u32 \<Rightarrow> 'w event \<Rightarrow> bool" where
  "is_command cmd (Command c _ _) \<longleftrightarrow> c = cmd"
| "is_command cmd _ \<longleftrightarrow> False"

lemma loaded_state:
  assumes "loaded K s"
  shows "global_config s = initial_config" "global_stats s = initial_stats" "connection_hash s = (\<lambda>_. [])" "pool_inv s"
proof -
  obtain w where "nanonet_init K (initial_nanonet w) = (0, s)"
    using assms by (auto simp: loaded_def)
  from init_keeps [OF this] show "global_config s = initial_config" "global_stats s = initial_stats"
      "connection_hash s = (\<lambda>_. [])" "pool_inv s"
    by (simp_all add: initial_nanonet_def)
qed

lemma loaded_conn_inv: "loaded K s \<Longrightarrow> conn_inv K s"
  using loaded_state [of K s] ct.invar_empty [of K] by (simp add: conn_inv_def initial_stats_def hash_size_def)

lemma step_pool_inv:
  assumes "module_step K s e s'" and "pool_inv s"
  shows "pool_inv s'"
  using assms
proof (cases rule: module_step.cases)
  case (command cmd arg r)
  with ioctl_pool [of K cmd arg s] assms(2) pool_inv_cong show ?thesis by (metis snd_conv)
next
  case (packet skb v)
  with assms(2) inv.hook_keeps show ?thesis by metis
qed (simp add: pool_inv_def)

lemma step_conn_inv:
  assumes "module_step K s e s'" and "\<not> is_command NANONET_IOC_RESET_STATS e" and "conn_inv K s"
  shows "conn_inv K s'"
  using assms
proof (cases rule: module_step.cases)
  case (command cmd arg r)
  with assms(2,3) ioctl_conn_inv [of K s cmd arg] show ?thesis by simp
qed (auto dest: hook_conn_inv simp: conn_inv_def)

text \<open>C2. From loading on, through any packets, commands and changes of the environment other than a reset of the
  statistics, the connection table is well formed, the counter of active connections is its
  size, and the response pool keeps its form.\<close>

theorem module_invariant:
  assumes "loaded K s0" and "module_run K s0 es s" and "\<forall>e \<in> set es. \<not> is_command NANONET_IOC_RESET_STATS e"
  shows "conn_inv K s \<and> pool_inv s"
proof (rule run_invariant [OF assms(2) _ assms(3)])
  show "conn_inv K s0 \<and> pool_inv s0"
    using assms(1) loaded_conn_inv loaded_state(4) by blast
qed (auto intro: step_conn_inv step_pool_inv)

text \<open>A run: the sample packet, then clearing the connections.\<close>

definition sample_loaded :: "sample_world nanonet" where
  "sample_loaded = snd (nanonet_init (hook_kernel 0) (initial_nanonet sample_world))"

definition sample_cleared :: "sample_world nanonet" where
  "sample_cleared = snd (nanonet_ioctl (hook_kernel 0) NANONET_IOC_CLEAR_CONNECTIONS 0 (upd_stats count_bypassed sample_loaded))"

abbreviation sample_events :: "sample_world event list" where
  "sample_events \<equiv> [Packet (sample_received (sample_tcp_packet 91 141)) NF_ACCEPT, Command NANONET_IOC_CLEAR_CONNECTIONS 0 0]"

lemma sample_loaded: "loaded (hook_kernel 0) sample_loaded"
  unfolding loaded_def sample_loaded_def using hook_kernel_load by blast

lemma sample_run: "module_run (hook_kernel 0) sample_loaded sample_events sample_cleared"
proof -
  have off: "\<not> enabled (global_config sample_loaded)"
    using loaded_state(1) [OF sample_loaded] by (simp add: initial_config_def)
  have "module_step (hook_kernel 0) sample_loaded (Packet (sample_received (sample_tcp_packet 91 141)) NF_ACCEPT)
      (upd_stats count_bypassed sample_loaded)"
    by (rule packet) (simp add: nanonet_hook_def off)
  moreover have "module_step (hook_kernel 0) (upd_stats count_bypassed sample_loaded)
      (Command NANONET_IOC_CLEAR_CONNECTIONS 0 0) sample_cleared"
    by (rule command) (simp_all add: nanonet_open_def nanonet_check_permissions_def hook_kernel_def sample_cleared_def
        nanonet_ioctl_def)
  ultimately show ?thesis
    by (auto intro: module_run.intros)
qed

theorem module_invariant_witness: "conn_inv (hook_kernel 0) sample_cleared \<and> pool_inv sample_cleared"
  by (rule module_invariant [OF sample_loaded sample_run]) simp

section \<open>The configuration\<close>

lemma step_config:
  assumes "module_step K s e s'" and "\<not> is_command NANONET_IOC_SET_CONFIG e"
  shows "fixed_config (global_config s') = fixed_config (global_config s)"
  using assms
proof (cases rule: module_step.cases)
  case (command cmd arg r)
  with assms(2) ioctl_config [of cmd K arg s] show ?thesis by simp
qed (auto dest: hook_config)

text \<open>C17. A module nobody has configured takes no packet: as long as no configuration is set, every packet is accepted.\<close>

theorem unconfigured_accepts:
  assumes "loaded K s0" and "module_run K s0 es s" and "\<forall>e \<in> set es. \<not> is_command NANONET_IOC_SET_CONFIG e"
    and "nanonet_hook K skb s = Inr (v, s')"
  shows "v = NF_ACCEPT \<and> s' = upd_stats count_bypassed s"
proof -
  have "\<not> enabled (global_config s)"
  proof -
    have "fixed_config (global_config s) = fixed_config initial_config"
      by (rule run_invariant [OF assms(2) _ assms(3)])
        (simp only: loaded_state(1) [OF assms(1)], metis step_config)
    then have "enabled (fixed_config (global_config s)) = enabled (fixed_config initial_config)" by simp
    then show ?thesis by (simp add: fixed_config_def initial_config_def)
  qed
  with assms(4) show ?thesis by (simp add: nanonet_hook_def)
qed

theorem unconfigured_accepts_witness:
  "\<exists>s'. nanonet_hook (hook_kernel 0) (sample_received (sample_tcp_packet 91 141)) sample_cleared = Inr (NF_ACCEPT, s')"
proof -
  have "\<not> enabled (global_config sample_cleared)"
    using loaded_state(1) [OF sample_loaded]
    by (simp add: sample_cleared_def ioctl_config frame_simps initial_config_def)
  then obtain v s' where h: "nanonet_hook (hook_kernel 0) (sample_received (sample_tcp_packet 91 141)) sample_cleared = Inr (v, s')"
    by (simp add: nanonet_hook_def)
  have "v = NF_ACCEPT \<and> s' = upd_stats count_bypassed sample_cleared"
    by (rule unconfigured_accepts [OF sample_loaded sample_run _ h]) simp
  with h show ?thesis by simp
qed

section \<open>The counters\<close>

fun stolen :: "'w event \<Rightarrow> bool" where
  "stolen (Packet _ v) \<longleftrightarrow> v = NF_STOLEN"
| "stolen _ \<longleftrightarrow> False"

lemma ioctl_packet_counts:
  assumes "cmd \<noteq> NANONET_IOC_RESET_STATS"
  shows "packet_counts (global_stats (snd (nanonet_ioctl K cmd arg s))) = packet_counts (global_stats s)"
  using assms set_config_eq(3) [of K arg s, OF surjective_pairing]
  by (simp add: nanonet_ioctl_def frame_simps packet_counts_def nanonet_clear_tcp_connections_def fold_clear_bucket)

lemma step_processed:
  assumes "module_step K s e s'" and "\<not> is_command NANONET_IOC_RESET_STATS e"
  shows "packets_processed (global_stats s') = packets_processed (global_stats s) + (if stolen e then 1 else 0)
    \<and> responses_sent (global_stats s') = responses_sent (global_stats s)"
  using assms
proof (cases rule: module_step.cases)
  case (packet skb v)
  with hook_counts [OF packet(2)] show ?thesis by (auto simp: packet_counts_def count_defs)
next
  case (command cmd arg r)
  with assms(2) ioctl_packet_counts [of cmd K arg s] show ?thesis by (simp add: packet_counts_def)
qed auto

text \<open>C15. As long as the statistics are not reset, the counter of processed packets is the number of packets the hook has
  stolen since loading, and the counter of responses is zero.\<close>

theorem processed_counts_stolen:
  assumes "loaded K s0" and "module_run K s0 es s" and "\<forall>e \<in> set es. \<not> is_command NANONET_IOC_RESET_STATS e"
  shows "packets_processed (global_stats s) = of_nat (length (filter stolen es)) \<and> responses_sent (global_stats s) = 0"
proof -
  have "packets_processed (global_stats s) = packets_processed (global_stats s0) + of_nat (length (filter stolen es))
      \<and> responses_sent (global_stats s) = responses_sent (global_stats s0)"
    using assms(2,3)
  proof (induction rule: module_run.induct)
    case (cons s e s' es s'')
    with step_processed [OF cons.hyps(1)] show ?case by simp
  qed simp
  then show ?thesis
    using loaded_state(2) [OF assms(1)] by (simp add: initial_stats_def)
qed

theorem processed_counts_stolen_witness: "packets_processed (global_stats sample_cleared) = 0"
  using processed_counts_stolen [OF sample_loaded sample_run] by simp

end
