(* ===== verification/Liveness.thy ===== *)
theory Liveness
  imports Module_Runs
begin

text \<open>
  The hook always returns: no fault on any packet whose lengths stay inside it, in any state
  the loaded module can reach, for a kernel whose allocators give what they are asked for.
\<close>

unbundle bit_operations_syntax

section \<open>Buffers\<close>

text \<open>\<open>kmalloc\<close> gives blocks of the size asked for, \<open>alloc_skb\<close> empty buffers of at least it; the alignment is small.\<close>

definition allocator_laws :: "'w kernel \<Rightarrow> bool" where
  "allocator_laws K \<longleftrightarrow> (\<forall>n w a bs. fst (k_kmalloc K n w) = Some (a, bs) \<longrightarrow> length bs = n)
     \<and> (\<forall>n w b. n \<le> 1500 \<longrightarrow> fst (k_alloc_skb K n w) = Some b \<longrightarrow> fresh_skb n b) \<and> NET_IP_ALIGN K \<le> 64"

definition pool_fresh :: "'w nanonet \<Rightarrow> bool" where
  "pool_fresh s \<longleftrightarrow> (\<forall>i b. pool (the_pool s) i = Some b \<longrightarrow> fresh_skb 1500 b)"

lemma fresh_skb_mono: "fresh_skb n b \<Longrightarrow> m \<le> n \<Longrightarrow> fresh_skb m b"
  by (simp add: fresh_skb_def)

lemma pool_fresh_cong: "the_pool s = the_pool s' \<Longrightarrow> pool_fresh s \<longleftrightarrow> pool_fresh s'"
  by (simp add: pool_fresh_def)

lemma pool_fresh_keeps [simp]:
  "pool_fresh (nanonet_log_error K msg s) = pool_fresh s" "pool_fresh (callu g s) = pool_fresh s"
  "pool_fresh (snd (call f s)) = pool_fresh s" "pool_fresh (s\<lparr>global_config := c\<rparr>) = pool_fresh s"
  "pool_fresh (s\<lparr>global_stats := t\<rparr>) = pool_fresh s" "pool_fresh (s\<lparr>world := w\<rparr>) = pool_fresh s"
  "pool_fresh (snd (nanonet_raw_send K x d s)) = pool_fresh s"
  "pool_fresh (upd_stats h s) = pool_fresh s" "pool_fresh (snd (get_timestamp_ns K s)) = pool_fresh s"
  "pool_fresh (count_result K r s) = pool_fresh s"
  by (rule pool_fresh_cong, simp add: frame_simps raw_send_pool)+

lemma get_response_fresh:
  assumes "nanonet_get_response_skb K s = (r, s')" and "pool_fresh s"
  shows "pool_fresh s' \<and> (\<forall>b. r = Some b \<longrightarrow> fresh_skb 1500 b)"
  using assms
  by (auto simp: nanonet_get_response_skb_def pool_fresh_def Let_def set_pool_def frame_simps split: if_splits)

interpretation fresh: pool_property pool_fresh K for K :: "'w kernel"
  by unfold_locales (erule pool_fresh_cong, metis get_response_fresh surjective_pairing)

lemma obtain_response_fresh:
  assumes "allocator_laws K" and "pool_fresh s" and "n + NET_IP_ALIGN K \<le> 1500" and "obtain_response_skb K n s = (r, s')"
  shows "pool_fresh s' \<and> (\<forall>b. r = Some b \<longrightarrow> fresh_skb (NET_IP_ALIGN K + n) b)"
proof -
  obtain r1 s1 where g: "nanonet_get_response_skb K s = (r1, s1)" by fastforce
  note f = get_response_fresh [OF g assms(2)]
  have pool: "the_pool s' = the_pool s1"
    using obtain_response_pool [of K n s] assms(4) g by simp
  show ?thesis
  proof (cases r1)
    case None
    have "fresh_skb (n + NET_IP_ALIGN K) b" if "r = Some b" for b
      using that assms(1,3,4) None g
      by (auto simp: obtain_response_skb_def call_eq allocator_laws_def split: option.splits)
    then show ?thesis
      using f pool pool_fresh_cong by (auto simp: add.commute)
  next
    case (Some b)
    then show ?thesis
      using assms(3,4) g f fresh_skb_mono [of 1500 b] by (auto simp: obtain_response_skb_def)
  qed
qed

section \<open>Sending returns\<close>

lemma create_response_returns:
  assumes "allocator_laws K" and "pool_fresh s" and "length data \<le> 1000"
  shows "\<exists>r s'. nanonet_create_response_packet K None data s = Inr (r, s') \<and> pool_fresh s'"
proof -
  let ?c = "global_config s"
  let ?n = "34 + transport_hdr_len ?c + length data"
  have t: "transport_hdr_len ?c \<le> 20" by (simp add: transport_hdr_len_def)
  obtain b s1 where o: "obtain_response_skb K ?n s = (b, s1)" by fastforce
  have f: "pool_fresh s1" "\<And>skb. b = Some skb \<Longrightarrow> fresh_skb (NET_IP_ALIGN K + 34 + transport_hdr_len ?c + length data) skb"
    using obtain_response_fresh [OF assms(1,2) _ o] assms t by (auto simp: allocator_laws_def add.assoc)
  show ?thesis
  proof (cases b)
    case None
    with o f(1) assms(2) show ?thesis by (auto simp: nanonet_create_response_packet_def Let_def)
  next
    case (Some skb)
    obtain b' where "fill_response K None data ?c skb = Inr b'"
      using fill_response_bytes [OF f(2) [OF Some]] by blast
    with Some o f(1) assms(2) show ?thesis
      by (auto simp: nanonet_create_response_packet_def Let_def split_beta split: option.splits)
  qed
qed

lemma send_response_returns:
  assumes "allocator_laws K" and "pool_fresh s" and "length data \<le> 1000"
  shows "\<exists>r s'. nanonet_send_response K None (Some data) s = Inr (r, s') \<and> pool_fresh s'"
proof -
  obtain b s1 where c: "nanonet_create_response_packet K None data s = Inr (b, s1)" and f: "pool_fresh s1"
    using create_response_returns [OF assms] by blast
  show ?thesis
    using f assms(2) c by (auto simp: nanonet_send_response_def split_beta Let_def split: option.split)
qed

lemma market_data_returns:
  assumes "allocator_laws K" and "0 \<le> n" and "n < 2 ^ 31" and "\<And>bs. mem = Some bs \<Longrightarrow> nat n \<le> length bs"
  shows "\<exists>r resp s'. process_market_data K mem n s = Inr (r, resp, s') \<and> the_pool s' = the_pool s
    \<and> (\<forall>a d. resp = Some (a, d) \<longrightarrow> length d = 41)"
proof (cases mem)
  case None
  then show ?thesis by (simp add: process_market_data_def frame_simps)
next
  case (Some bs)
  show ?thesis
  proof (cases "n < 24")
    case True
    then have "(of_int n :: u64) < 24"
      using assms(2) by (simp add: word_less_def uint_word_of_int)
    with Some show ?thesis by (simp add: process_market_data_def frame_simps)
  next
    case False
    then have len: "\<not> (of_int n :: u64) < 24" "24 \<le> length bs"
      using unsigned_len_ge [of n] assms(3,4) Some by (auto simp: le_nat_iff)
    let ?m = "market_of (take 24 bs)"
    have m: "length (md_symbol ?m) = 8"
      using len by (simp add: market_of_def)
    have "length (order_bytes (new_order ?m ts block)) = 41" if "length block = 41" for ts block
      using new_order_ok ord.length_enc that m by (simp add: market_ok_def)
    moreover have "length block = 41" if "fst (k_kmalloc K 41 (world s)) = Some (a, block)" for a block
      using that assms(1) unfolding allocator_laws_def by blast
    ultimately show ?thesis
      using len Some
      by (auto simp: process_market_data_def peek_def call_eq get_timestamp_ns_eq Let_def frame_simps split: option.split)
  qed
qed

lemma application_logic_returns:
  assumes "allocator_laws K" and "pool_fresh s" and "0 \<le> n" and "n < 2 ^ 31"
    and "\<And>bs. mem = Some bs \<Longrightarrow> nat n \<le> length bs"
  shows "\<exists>r s'. nanonet_process_application_logic K mem n s = Inr (r, s') \<and> pool_fresh s'"
proof -
  obtain r resp s1 where m: "process_market_data K mem n s = Inr (r, resp, s1)" "the_pool s1 = the_pool s"
    and d: "\<And>a d. resp = Some (a, d) \<Longrightarrow> length d = 41"
    using market_data_returns [OF assms(1,3,4,5)] by metis
  have f: "pool_fresh s1"
    using assms(2) m(2) pool_fresh_cong by metis
  show ?thesis
  proof (cases resp)
    case None
    with m(1) f assms(2) show ?thesis by (auto simp: nanonet_process_application_logic_def)
  next
    case (Some ad)
    obtain a bs where ad: "ad = (a, bs)" by fastforce
    obtain r2 s2 where "nanonet_send_response K None (Some bs) s1 = Inr (r2, s2)" "pool_fresh s2"
      using send_response_returns [OF assms(1) f, of bs] d Some ad by auto
    with m(1) Some ad f assms(2) show ?thesis
      by (auto simp: nanonet_process_application_logic_def Let_def)
  qed
qed

section \<open>The hook returns\<close>

text \<open>A packet of less than 2 GiB in a well-formed buffer whose announced lengths stay inside it.\<close>

definition good_packet :: "sk_buff \<Rightarrow> bool" where
  "good_packet skb \<longleftrightarrow> skb_wf skb \<and> unat (skb_len skb) < 2 ^ 31 \<and> lengths_inside skb"

lemma good_packet_parse:
  assumes "good_packet skb"
  obtains r p where "ull_parse_packet skb = Some (r, p)"
  using parse_returns [of skb] assms unfolding good_packet_def by blast

text \<open>What an accepted packet lets the hook read.\<close>

lemma accepted_reads:
  assumes "good_packet skb" and "ull_parse_packet skb = Some (0, p)"
  shows "\<exists>ip. Option.bind (p_ip_hdr p) (load_iphdr skb) = Some ip" and "\<exists>sp dp. trace_ports skb p = Inr (sp, dp)"
    and "\<And>i. p_tcp_hdr p = Some i \<Longrightarrow> \<exists>tcp. load_tcphdr skb i = Some tcp"
    and "\<And>i. p_udp_hdr p = Some i \<Longrightarrow> \<exists>udp. load_udphdr skb i = Some udp"
    and "0 \<le> p_payload_len p" and "p_payload_len p < 2 ^ 31"
    and "\<And>bs. payload_mem skb p = Some bs \<Longrightarrow> nat (p_payload_len p) \<le> length bs"
proof -
  have wf: "skb_wf skb" and small: "unat (skb_len skb) < 2 ^ 31"
    using assms(1) by (simp_all add: good_packet_def)
  have ib: "parsed_in_bounds skb p"
    using parse_ok_in_bounds [OF assms(2) small] .
  then obtain t i where t: "34 \<le> t"
    "p_tcp_hdr p = Some t \<and> p_udp_hdr p = None \<and> t + 20 \<le> unat (skb_len skb)
      \<or> p_tcp_hdr p = None \<and> p_udp_hdr p = Some t \<and> t + 8 \<le> unat (skb_len skb)"
    and i: "payload_from skb i p"
    by (auto simp: parsed_in_bounds_def)
  show tcp: "\<exists>tcp. load_tcphdr skb i = Some tcp" if "p_tcp_hdr p = Some i" for i
    using that t by (auto simp: load_tcphdr_def skb_peek_wf wf)
  show udp: "\<exists>udp. load_udphdr skb i = Some udp" if "p_udp_hdr p = Some i" for i
    using that t by (auto simp: load_udphdr_def skb_peek_wf wf)
  show "\<exists>ip. Option.bind (p_ip_hdr p) (load_iphdr skb) = Some ip"
    using ib by (auto simp: parsed_in_bounds_def)
  show "\<exists>sp dp. trace_ports skb p = Inr (sp, dp)"
    using t(2) tcp udp by (fastforce simp: trace_ports_def)
  show "0 \<le> p_payload_len p" "p_payload_len p < 2 ^ 31"
    using i small by (auto simp: payload_from_def split: if_splits simp del: of_nat_unat)
  show "nat (p_payload_len p) \<le> length bs" if "payload_mem skb p = Some bs" for bs
    using that i wf by (auto simp: payload_from_def payload_mem_def skb_wf_def split: if_splits simp del: of_nat_unat)
qed

lemma hook_filter_returns:
  assumes "good_packet skb" and "ull_parse_packet skb = Some (0, p)" and "pool_fresh s"
  shows "\<exists>v s'. hook_filter K skb p ip s = Inr (v, s') \<and> pool_fresh s'
    \<and> packets_processed (global_stats s') = packets_processed (global_stats s)"
proof -
  have "\<not> isl (need MemFault (Option.bind (p_tcp_hdr p) (load_tcphdr skb)))" if "p_tcp_hdr p \<noteq> None"
    using that accepted_reads(3) [OF assms(1,2)] by fastforce
  moreover have "\<not> isl (need MemFault (Option.bind (p_udp_hdr p) (load_udphdr skb)))" if "p_udp_hdr p \<noteq> None"
    using that accepted_reads(4) [OF assms(1,2)] by fastforce
  ultimately have "\<not> isl (hook_filter K skb p ip s)"
    by (auto simp: hook_filter_def Let_def split_beta and_then_def split: sum.splits)
  then obtain v s' where r: "hook_filter K skb p ip s = Inr (v, s')"
    by (cases "hook_filter K skb p ip s") auto
  have "pool_fresh s'"
    using hook_filter_frame [OF r] assms(3) pool_fresh_cong by metis
  moreover have "packets_processed (global_stats s') = packets_processed (global_stats s)"
    using r by (cases rule: hook_filter_cases) (simp_all add: packet_counts_def count_defs)
  ultimately show ?thesis using r by blast
qed

lemma record_time_returns:
  assumes "packets_processed t \<noteq> - 1" shows "\<exists>t'. record_time pt (count_processed t) = Inr t'"
proof -
  have "packets_processed t + 1 \<noteq> 0"
    using assms by (metis add.commute eq_neg_iff_add_eq_0)
  then show ?thesis by (auto simp: record_time_def count_processed_def Let_def)
qed

lemma hook_finish_returns:
  assumes "allocator_laws K" and "good_packet skb" and "ull_parse_packet skb = Some (0, p)" and "pool_fresh s"
    and "packets_processed (global_stats s) \<noteq> - 1"
  shows "\<exists>v s'. hook_finish K skb p ip start s = Inr (v, s') \<and> pool_fresh s'"
proof -
  note reads = accepted_reads [OF assms(2,3)]
  obtain r s1 where app: "nanonet_process_application_logic K (payload_mem skb p) (p_payload_len p) s = Inr (r, s1)"
    and f: "pool_fresh s1"
    using application_logic_returns [OF assms(1,4) reads(5,6,7)] by blast
  define s2 where "s2 = snd (get_timestamp_ns K (upd_stats count_processed (count_result K r s1)))"
  have stats: "global_stats s2 = count_processed ((if r < 0 then count_error else id) (global_stats s))"
    using application_logic_frame [OF app] by (simp add: s2_def frame_simps)
  have "packets_processed ((if r < 0 then count_error else id) (global_stats s)) \<noteq> - 1"
    using assms(5) by (simp add: count_error_def)
  then obtain t where t: "record_time (fst (get_timestamp_ns K (upd_stats count_processed (count_result K r s1))) - start)
      (global_stats s2) = Inr t"
    unfolding stats using record_time_returns by blast
  obtain sp dp where "trace_ports skb p = Inr (sp, dp)" using reads(2) by blast
  then show ?thesis
    using app t f by (simp add: hook_finish_def split_beta Let_def s2_def)
qed

lemma hook_returns_fresh:
  assumes K: "allocator_laws K" and skb: "good_packet skb" and f: "pool_fresh s"
    and n: "packets_processed (global_stats s) \<noteq> - 1"
  shows "\<exists>v s'. nanonet_hook K skb s = Inr (v, s') \<and> pool_fresh s'"
proof (cases "\<not> enabled (global_config s) \<or> skb_dev skb = None")
  case True
  with f show ?thesis by (auto simp: nanonet_hook_def)
next
  case False
  then have en: "enabled (global_config s)" "skb_dev skb \<noteq> None" by simp_all
  obtain r p where parse: "ull_parse_packet skb = Some (r, p)"
    using good_packet_parse [OF skb] .
  show ?thesis
  proof (cases "r < 0")
    case True
    with en parse f show ?thesis by (simp add: nanonet_hook_def Let_def split_beta del: not_None_eq)
  next
    case nn: False
    with parse_result [OF parse] have "r = 0" by simp
    note parse0 = parse [unfolded this]
    obtain ip where ip: "Option.bind (p_ip_hdr p) (load_iphdr skb) = Some ip"
      using accepted_reads(1) [OF skb parse0] by blast
    define s1 where "s1 = snd (nanonet_validate_packet K ip (snd (get_timestamp_ns K s)))"
    have f1: "pool_fresh s1" "packets_processed (global_stats s1) \<noteq> - 1"
      using f n pool_fresh_cong [of s1 s] by (simp_all add: s1_def frame_simps)
    obtain v s2 where fl: "hook_filter K skb p ip s1 = Inr (v, s2)" "pool_fresh s2" "packets_processed (global_stats s2) \<noteq> - 1"
      using hook_filter_returns [OF skb parse0 f1(1)] f1(2) by metis
    obtain v' s3 where fin: "hook_finish K skb p ip (fst (get_timestamp_ns K s)) s2 = Inr (v', s3)" "pool_fresh s3"
      using hook_finish_returns [OF K skb parse0 fl(2,3)] by blast
    show ?thesis
      using hook_checked [OF en parse nn ip, of K, folded s1_def] f1 fl fin by (cases v) auto
  qed
qed

section \<open>From loading on\<close>

lemma fill_pool_fresh:
  assumes "allocator_laws K"
  shows "pool_fresh s \<Longrightarrow> fst (fill_pool K i s) = 0 \<Longrightarrow> pool_fresh (snd (fill_pool K i s))"
proof (induction "256 - i" arbitrary: i s)
  case 0
  then show ?case by (simp add: fill_pool.simps [of K i s])
next
  case (Suc n)
  then have i: "i < 256" by simp
  obtain skb s1 where a: "call (k_alloc_skb K 1500) s = (Some skb, s1)"
    using Suc.prems(2) i
    by (cases "call (k_alloc_skb K 1500) s"; cases "fst (call (k_alloc_skb K 1500) s)")
      (auto simp: fill_pool.simps [of K i s] Let_def)
  have "fresh_skb 1500 skb" "the_pool s1 = the_pool s"
    using a assms by (auto simp: call_eq allocator_laws_def)
  then have "pool_fresh (set_pool i (Some skb) s1)"
    using Suc.prems(1) by (auto simp: pool_fresh_def set_pool_def)
  moreover have "fill_pool K i s = fill_pool K (Suc i) (set_pool i (Some skb) s1)"
    using a i by (simp add: fill_pool.simps [of K i s])
  ultimately show ?case
    using Suc.hyps(1) [of "Suc i" "set_pool i (Some skb) s1"] Suc.hyps(2) Suc.prems(2) by simp
qed

lemma initial_pool: "the_pool s0 = the_pool (initial_nanonet w) \<Longrightarrow> pool (the_pool s0) i = None" "pool (the_pool (initial_nanonet w)) i = None"
  by (simp_all add: initial_nanonet_def)

lemma loaded_fresh:
  assumes "allocator_laws K" and "loaded K s"
  shows "pool_fresh s"
proof -
  obtain w where "nanonet_init K (initial_nanonet w) = (0, s)"
    using assms(2) by (auto simp: loaded_def)
  from init_keeps [OF this] obtain s0 s1 where "\<And>i. pool (the_pool s0) i = None"
    and p: "nanonet_init_response_pool K s0 = (0, s1)" and s: "the_pool s = the_pool s1"
    by (metis initial_pool)
  then have "pool_fresh (reset_indices s0)"
    by (simp add: pool_fresh_def reset_indices_def)
  from fill_pool_fresh [OF assms(1) this, of 0] have "pool_fresh s1"
    using p by (simp add: nanonet_init_response_pool_def)
  with s pool_fresh_cong show ?thesis by blast
qed

lemma step_fresh:
  assumes "module_step K s e s'" and "pool_fresh s"
  shows "pool_fresh s'"
  using assms
proof (cases rule: module_step.cases)
  case (packet skb v)
  with assms(2) fresh.hook_keeps show ?thesis by metis
next
  case (command cmd arg r)
  with ioctl_pool [of K cmd arg s] assms(2) pool_fresh_cong show ?thesis by (metis snd_conv)
qed simp

text \<open>C4. The hook returns a verdict, without a fault, in every state the loaded module reaches, unless 2^64 - 1 packets
  have been counted. This holds for every packet of less than 2 GiB whose announced lengths stay
  inside it: the header length of an IPv4 packet and the datagram length of a UDP packet with a
  checksum. The kernel's allocators return blocks and buffers of the size they are asked for.\<close>

theorem hook_returns:
  assumes "allocator_laws K" and "loaded K s0" and "module_run K s0 es s" and "good_packet skb"
    and "packets_processed (global_stats s) \<noteq> - 1"
  shows "\<exists>v s'. nanonet_hook K skb s = Inr (v, s')"
proof -
  have "pool_fresh s"
    using run_invariant [where P = pool_fresh and ok = "\<lambda>_. True", OF assms(3) loaded_fresh [OF assms(1,2)]] step_fresh by blast
  with hook_returns_fresh [OF assms(1,4) _ assms(5)] show ?thesis by blast
qed

text \<open>The configured sample module: the device's owner has set a configuration that selects the sample packet.\<close>

lemma hook_kernel_allocator: "allocator_laws (hook_kernel c)"
  by (simp add: allocator_laws_def hook_kernel_def fresh_skb_def sample_skb_def)

definition sample_owner :: sample_world where
  "sample_owner = sample_world\<lparr>sw_user := (\<lambda>_. config_bytes (sample_config 17))\<rparr>"

definition sample_configured :: "sample_world nanonet" where
  "sample_configured = snd (ioctl_set_config (hook_kernel 0) 64 (sample_loaded\<lparr>world := sample_owner\<rparr>))"

lemma sample_configured_run:
  "\<exists>r. module_run (hook_kernel 0) sample_loaded [Environment sample_owner, Command NANONET_IOC_SET_CONFIG 64 r] sample_configured"
proof -
  let ?s = "sample_loaded\<lparr>world := sample_owner\<rparr>"
  obtain r where "ioctl_set_config (hook_kernel 0) 64 ?s = (r, sample_configured)"
    by (metis sample_configured_def surjective_pairing)
  then have "nanonet_ioctl (hook_kernel 0) NANONET_IOC_SET_CONFIG 64 ?s = (r, sample_configured)"
    unfolding nanonet_ioctl_def by (simp only: simp_thms if_True)
  then have "module_step (hook_kernel 0) ?s (Command NANONET_IOC_SET_CONFIG 64 r) sample_configured"
    by (intro command) (simp_all add: nanonet_open_def nanonet_check_permissions_def hook_kernel_def)
  from module_run.cons [OF environment module_run.cons [OF this module_run.nil]] show ?thesis
    by (rule exI)
qed

lemma sample_configured_eq:
  "global_config sample_configured = sample_config 17" "global_stats sample_configured = initial_stats"
proof -
  have "fst (k_copy_from_user (hook_kernel 0) 64 sizeof_config (world (sample_loaded\<lparr>world := sample_owner\<rparr>)))
      = (0, config_bytes (sample_config 17))"
    using cfg.length_enc [of "sample_config 17"] by (simp add: hook_kernel_def sample_owner_def)
  note set = set_config_eq [OF this]
  show "global_config sample_configured = sample_config 17"
    unfolding sample_configured_def set(2) by (simp add: cfg.dec_enc)
  show "global_stats sample_configured = initial_stats"
    unfolding sample_configured_def set(3) using loaded_state(2) [OF sample_loaded] by simp
qed

theorem hook_returns_witness:
  "enabled (global_config sample_configured)
   \<and> (\<exists>v s'. nanonet_hook (hook_kernel 0) (sample_received (sample_udp_packet 219 129)) sample_configured = Inr (v, s'))
   \<and> (\<exists>v s'. nanonet_hook (hook_kernel 0) sample_segment sample_configured = Inr (v, s'))"
proof (intro conjI)
  obtain r where run: "module_run (hook_kernel 0) sample_loaded
      [Environment sample_owner, Command NANONET_IOC_SET_CONFIG 64 r] sample_configured"
    using sample_configured_run by blast
  note ret = hook_returns [OF hook_kernel_allocator sample_loaded run]
  show "\<exists>v s'. nanonet_hook (hook_kernel 0) (sample_received (sample_udp_packet 219 129)) sample_configured = Inr (v, s')"
    by (rule ret) (simp_all add: sample_configured_eq initial_stats_def good_packet_def sample_udp_wf sample_udp_lengths)
  show "\<exists>v s'. nanonet_hook (hook_kernel 0) sample_segment sample_configured = Inr (v, s')"
    by (rule ret) (simp_all add: sample_configured_eq initial_stats_def good_packet_def sample_segment_ok sample_segment_len)
qed (simp add: sample_configured_eq sample_config_def)

end
