(* ===== verification/Interleaving.thy ===== *)
theory Interleaving
  imports Module_Runs
begin

text \<open>
  The statistics under concurrency. The hook increments the counter of processed packets and
  only later divides by it, without a lock, while other CPUs run the hook and a process may
  reset the statistics. A schedule is the order in which these accesses take effect.
\<close>

section \<open>Schedules\<close>

datatype stat_op = CountPacket | RecordTime u64 | ResetStats

fun stat_step :: "stat_op \<Rightarrow> ull_stats \<Rightarrow> fault + ull_stats" where
  "stat_step CountPacket t = Inr (count_processed t)"
| "stat_step (RecordTime pt) t = record_time pt t"
| "stat_step ResetStats t = Inr (reset_stats t)"

fun stat_run :: "stat_op list \<Rightarrow> ull_stats \<Rightarrow> fault + ull_stats" where
  "stat_run [] t = Inr t"
| "stat_run (e # es) t = and_then (stat_step e t) (stat_run es)"

text \<open>The packets counted since the last reset.\<close>

definition recent :: "stat_op list \<Rightarrow> nat" where
  "recent es = length (filter ((=) CountPacket) (takeWhile ((\<noteq>) ResetStats) (rev es)))"

lemma recent_simps [simp]:
  "recent [] = 0" "recent (es @ [CountPacket]) = Suc (recent es)"
  "recent (es @ [RecordTime pt]) = recent es" "recent (es @ [ResetStats]) = 0"
  by (simp_all add: recent_def)

lemma recent_le: "recent es \<le> length es"
  unfolding recent_def using length_filter_le length_takeWhile_le by (metis le_trans length_rev)

lemma stat_run_append: "stat_run (xs @ ys) t = and_then (stat_run xs t) (stat_run ys)"
  by (induction xs arbitrary: t) (auto simp: and_then_def split: sum.splits)

lemma record_time_fault: "record_time pt t = Inl f \<longleftrightarrow> packets_processed t = 0 \<and> f = DivideError"
  by (auto simp: record_time_def Let_def)

lemma record_time_processed: "record_time pt t = Inr t' \<Longrightarrow> packets_processed t' = packets_processed t"
  by (auto simp: record_time_def Let_def split: if_splits)

lemma stat_run_processed:
  assumes "packets_processed t = 0" and "stat_run es t = Inr t'"
  shows "packets_processed t' = of_nat (recent es)"
  using assms(2)
proof (induction es arbitrary: t' rule: rev_induct)
  case (snoc e es)
  then obtain t1 where "stat_run es t = Inr t1" "stat_step e t1 = Inr t'"
    by (auto simp: stat_run_append and_then_eq_Inr)
  with snoc.IH [of t1] show ?case
    by (cases e) (auto simp: count_processed_def reset_stats_def dest: record_time_processed)
qed (use assms(1) in simp)

lemma word_of_small_nat: "n < 2 ^ 64 \<Longrightarrow> (of_nat n :: u64) = 0 \<longleftrightarrow> n = 0"
  by (auto simp: word_of_nat_eq_0_iff dest: dvd_imp_le)

text \<open>A schedule records a time with no packet counted since the last reset.\<close>

definition unprotected :: "stat_op list \<Rightarrow> bool" where
  "unprotected es \<longleftrightarrow> (\<exists>pre pt post. es = pre @ RecordTime pt # post \<and> recent pre = 0)"

lemma unprotected_snoc: "unprotected (es @ [e]) \<longleftrightarrow> unprotected es \<or> (\<exists>pt. e = RecordTime pt) \<and> recent es = 0"
proof
  assume "unprotected (es @ [e])"
  then obtain pre pt post where eq: "es @ [e] = pre @ RecordTime pt # post" and r: "recent pre = 0"
    by (auto simp: unprotected_def)
  show "unprotected es \<or> (\<exists>pt. e = RecordTime pt) \<and> recent es = 0"
  proof (cases post rule: rev_cases)
    case (snoc post' x)
    with eq have "es = pre @ RecordTime pt # post'" by simp
    with r show ?thesis unfolding unprotected_def by blast
  qed (use eq r in simp)
next
  assume "unprotected es \<or> (\<exists>pt. e = RecordTime pt) \<and> recent es = 0"
  then show "unprotected (es @ [e])"
    unfolding unprotected_def by fastforce
qed

lemma stat_run_snoc_fault:
  "stat_run (es @ [e]) t = Inl f \<longleftrightarrow> stat_run es t = Inl f \<or> (\<exists>t'. stat_run es t = Inr t' \<and> stat_step e t' = Inl f)"
  by (cases "stat_run es t"; cases "stat_step e (projr (stat_run es t))") (auto simp: stat_run_append)

lemma stat_step_fault:
  "stat_step e t = Inl f \<longleftrightarrow> (\<exists>pt. e = RecordTime pt) \<and> packets_processed t = 0 \<and> f = DivideError"
  by (cases e) (simp_all add: record_time_fault)

text \<open>C16. A schedule of counting, timing and resetting steps divides by zero exactly when some packet's time is recorded
  with no packet counted since the last reset: the hook's increment does not protect its
  division from a reset that comes in between.\<close>

theorem timing_race:
  assumes "packets_processed t = 0" and "length es < 2 ^ 64"
  shows "stat_run es t = Inl f \<longleftrightarrow> f = DivideError \<and> unprotected es"
  using assms(2)
proof (induction es arbitrary: f rule: rev_induct)
  case Nil
  then show ?case by (simp add: unprotected_def)
next
  case (snoc e es)
  show ?case
  proof (cases "stat_run es t")
    case (Inl g)
    with snoc show ?thesis by (auto simp: stat_run_snoc_fault unprotected_snoc)
  next
    case (Inr t')
    have "packets_processed t' = 0 \<longleftrightarrow> recent es = 0"
      using stat_run_processed [OF assms(1) Inr] word_of_small_nat [of "recent es"] recent_le [of es] snoc.prems by simp
    moreover have "\<not> unprotected es"
      using snoc.IH [of DivideError] snoc.prems Inr by simp
    ultimately show ?thesis
      using Inr by (auto simp: stat_run_snoc_fault unprotected_snoc stat_step_fault)
  qed
qed

text \<open>One packet, and a reset between its two accesses; and two packets on two CPUs, interleaved.\<close>

theorem timing_race_witness:
  "stat_run [CountPacket, ResetStats, RecordTime 250] initial_stats = Inl DivideError
   \<and> (\<forall>f. stat_run [CountPacket, CountPacket, RecordTime 300, RecordTime 250] initial_stats \<noteq> Inl f)"
proof
  have "unprotected ([CountPacket, ResetStats] @ [RecordTime 250])"
    unfolding unprotected_snoc using recent_simps(4) [of "[CountPacket]"] by simp
  then show "stat_run [CountPacket, ResetStats, RecordTime 250] initial_stats = Inl DivideError"
    using timing_race [of initial_stats "[CountPacket, ResetStats, RecordTime 250]" DivideError]
    by (simp add: initial_stats_def)
  have "\<not> unprotected ((([] @ [CountPacket]) @ [CountPacket]) @ [RecordTime 300] @ [RecordTime 250])"
    unfolding unprotected_snoc append_assoc [symmetric] by (simp add: unprotected_def [of "[]"] recent_def)
  then show "\<forall>f. stat_run [CountPacket, CountPacket, RecordTime 300, RecordTime 250] initial_stats \<noteq> Inl f"
    using timing_race [of initial_stats "[CountPacket, CountPacket, RecordTime 300, RecordTime 250]"]
    by (simp add: initial_stats_def)
qed

end
