(* ===== verification/C_Library.thy ===== *)
theory C_Library
  imports NanoNet_Prelude
begin

text \<open>
  What the two user-space tools use of the C library. The functions that reach the operating
  system, and \<open>inet_aton\<close>, are fields of a record; \<open>'p\<close> is the state of the process and
  everything behind it. \<open>atoi\<close> is defined as the C standard and \<open>strtol\<close> say.
\<close>

record 'p libc =
  l_printf :: "string \<Rightarrow> 'p \<Rightarrow> 'p"
  l_perror :: "string \<Rightarrow> 'p \<Rightarrow> 'p"
  l_close :: "int \<Rightarrow> 'p \<Rightarrow> 'p"
  l_inet_aton :: "string \<Rightarrow> u32 option"

abbreviation nl :: string where
  "nl \<equiv> [char_of (10 :: nat)]"

text \<open>The arguments of a program: \<open>argv[argc]\<close> is the null pointer, whose use is a fault.\<close>

definition arg_at :: "string list \<Rightarrow> nat \<Rightarrow> fault + string" where
  "arg_at argv i = need MemFault (if i < length argv then Some (argv ! i) else None)"

lemma arg_at_simps [simp]:
  "i < length argv \<Longrightarrow> arg_at argv i = Inr (argv ! i)" "length argv \<le> i \<Longrightarrow> arg_at argv i = Inl MemFault"
  by (simp_all add: arg_at_def)

text \<open>\<open>strcmp(argv[i], s) == 0\<close>, and the operators that evaluate their second operand only when it is needed.\<close>

definition arg_is :: "string list \<Rightarrow> nat \<Rightarrow> string \<Rightarrow> fault + bool" where
  "arg_is argv i s = and_then (arg_at argv i) (\<lambda>a. Inr (a = s))"

definition and_also :: "fault + bool \<Rightarrow> fault + bool \<Rightarrow> fault + bool" where
  "and_also x y = and_then x (\<lambda>b. if b then y else Inr False)"

definition or_else :: "fault + bool \<Rightarrow> fault + bool \<Rightarrow> fault + bool" where
  "or_else x y = and_then x (\<lambda>b. if b then Inr True else y)"

lemma arg_is_simps [simp]:
  "i < length argv \<Longrightarrow> arg_is argv i s = Inr (argv ! i = s)" "length argv \<le> i \<Longrightarrow> arg_is argv i s = Inl MemFault"
  by (simp_all add: arg_is_def)

lemma short_circuit_simps [simp]:
  "and_also (Inr b) y = (if b then y else Inr False)" "and_also (Inl f) y = Inl f"
  "or_else (Inr b) y = (if b then Inr True else y)" "or_else (Inl f) y = Inl f"
  by (simp_all add: and_also_def or_else_def)

section \<open>Reading decimal numbers\<close>

definition is_space :: "char \<Rightarrow> bool" where
  "is_space c \<longleftrightarrow> (of_char c :: nat) \<in> {9, 10, 11, 12, 13, 32}"

definition is_digit :: "char \<Rightarrow> bool" where
  "is_digit c \<longleftrightarrow> 48 \<le> (of_char c :: nat) \<and> (of_char c :: nat) \<le> 57"

definition digits_prefix :: "string \<Rightarrow> nat" where
  "digits_prefix cs = dec_val (map (\<lambda>c. of_char c - 48) (takeWhile is_digit cs))"

text \<open>\<open>(int) strtol(s, NULL, 10)\<close> with a 64-bit \<open>long\<close>, which saturates.\<close>

definition clamp_long :: "int \<Rightarrow> int" where
  "clamp_long i = max (- (2 ^ 63)) (min (2 ^ 63 - 1) i)"

definition atoi :: "string \<Rightarrow> int" where
  "atoi s =
     (let s = dropWhile is_space s;
          v = (case s of
                 [] \<Rightarrow> 0
               | c # cs \<Rightarrow> if c = CHR ''-'' then - int (digits_prefix cs)
                           else if c = CHR ''+'' then int (digits_prefix cs)
                           else int (digits_prefix s))
      in signed_take_bit 31 (clamp_long v))"

lemma digit_char: "d < 10 \<Longrightarrow> (of_char (char_of (48 + d) :: char) :: nat) = 48 + d"
  by (simp add: of_char_of)

lemma is_digit_char: "d < 10 \<Longrightarrow> is_digit (char_of (48 + d :: nat))"
  by (simp add: is_digit_def digit_char)

lemma is_digit_fmt_u: "c \<in> set (fmt_u n) \<Longrightarrow> is_digit c"
  using dec_digits_lt by (auto simp: fmt_u_def is_digit_char)

lemma digits_prefix_fmt_u: "cs = [] \<or> \<not> is_digit (hd cs) \<Longrightarrow> digits_prefix (fmt_u n @ cs) = n"
proof -
  assume "cs = [] \<or> \<not> is_digit (hd cs)"
  then have t: "takeWhile is_digit (fmt_u n @ cs) = fmt_u n"
    using is_digit_fmt_u [of _ n] by (cases cs) (auto simp: takeWhile_append2 takeWhile_eq_all_conv)
  have m: "map (\<lambda>c. of_char c - 48) (fmt_u n) = dec_digits n"
    unfolding fmt_u_def map_map by (rule map_idI) (auto dest!: dec_digits_lt)
  show ?thesis unfolding digits_prefix_def t m by (rule dec_val_dec_digits)
qed

lemma fmt_u_head: "\<exists>d cs. fmt_u n = char_of (48 + d) # cs \<and> d < (10 :: nat)"
proof -
  have "dec_digits n \<noteq> []" by (subst dec_digits.simps) simp
  then obtain d ds where "dec_digits n = d # ds" by (cases "dec_digits n") auto
  then have "fmt_u n = char_of (48 + d) # map (\<lambda>d. char_of (48 + d)) ds" "d < 10"
    using dec_digits_lt [of d n] by (simp_all add: fmt_u_def)
  then show ?thesis by blast
qed

lemma atoi_fmt_u:
  assumes "n < 2 ^ 31"
  shows "atoi (fmt_u n) = int n"
proof -
  obtain d cs where h: "fmt_u n = char_of (48 + d) # cs" and d: "d < (10 :: nat)"
    using fmt_u_head by blast
  have "is_digit (char_of (48 + d))" using d by (rule is_digit_char)
  moreover have "\<not> is_digit CHR ''-''" "\<not> is_digit CHR ''+''" by (simp_all add: is_digit_def)
  ultimately have "char_of (48 + d) \<noteq> CHR ''-''" "char_of (48 + d) \<noteq> CHR ''+''" by metis+
  moreover have "\<not> is_space (char_of (48 + d))" using d by (auto simp: is_space_def)
  ultimately have "atoi (fmt_u n) = signed_take_bit 31 (clamp_long (int (digits_prefix (fmt_u n))))"
    by (simp add: atoi_def h)
  also have "\<dots> = int n"
    using assms digits_prefix_fmt_u [of "[]" n] by (simp add: clamp_long_def signed_take_bit_int_eq_self_iff)
  finally show ?thesis .
qed

text \<open>A signed decimal number at the start of a text, of any size.\<close>

definition read_int :: "string \<Rightarrow> int" where
  "read_int cs = (case cs of c # ds \<Rightarrow> if c = CHR ''-'' then - int (digits_prefix ds) else int (digits_prefix cs) | [] \<Rightarrow> 0)"

lemma read_int_fmt_u: "cs = [] \<or> \<not> is_digit (hd cs) \<Longrightarrow> read_int (fmt_u n @ cs) = int n"
proof -
  assume cs: "cs = [] \<or> \<not> is_digit (hd cs)"
  obtain d ds where h: "fmt_u n = char_of (48 + d) # ds" and d: "d < (10 :: nat)"
    using fmt_u_head by blast
  have "is_digit (char_of (48 + d))" "\<not> is_digit CHR ''-''" using d by (simp_all add: is_digit_char, simp add: is_digit_def)
  then have "char_of (48 + d) \<noteq> CHR ''-''" by metis
  with digits_prefix_fmt_u [OF cs, of n] h show ?thesis by (simp add: read_int_def)
qed

lemma read_int_fmt_d: "read_int (fmt_d i) = i"
  using read_int_fmt_u [of "[]" "nat i"] digits_prefix_fmt_u [of "[]" "nat (- i)"]
  by (simp add: fmt_d_def read_int_def [of "CHR ''-'' # _"])

text \<open>The lines of a text in which every line ends with a newline.\<close>

fun lines_from :: "string \<Rightarrow> string \<Rightarrow> string list" where
  "lines_from acc [] = []"
| "lines_from acc (c # cs) = (if c = char_of (10 :: nat) then rev acc # lines_from [] cs else lines_from (c # acc) cs)"

definition lines_of :: "string \<Rightarrow> string list" where
  "lines_of = lines_from []"

lemma lines_from_append:
  "char_of (10 :: nat) \<notin> set l \<Longrightarrow> lines_from acc (l @ nl @ cs) = (rev acc @ l) # lines_from [] cs"
  by (induction l arbitrary: acc) auto

lemma lines_of_Nil: "lines_of [] = []"
  by (simp add: lines_of_def)

lemma lines_of_line:
  "char_of (10 :: nat) \<notin> set l \<Longrightarrow> char_of (10 :: nat) \<notin> set v \<Longrightarrow> lines_of (l @ v @ nl @ cs) = (l @ v) # lines_of cs"
  using lines_from_append [of "l @ v" "[]" cs] by (simp add: lines_of_def)

lemma newline_char: "char_of (10 :: nat) = CHR 0x0A"
  by (simp add: char_of_def bit_0)

lemma newline_fmt: "char_of (10 :: nat) \<notin> set (fmt_u n)" "char_of (10 :: nat) \<notin> set (fmt_d i)"
  using is_digit_fmt_u [of "CHR 0x0A"] by (auto simp: newline_char is_digit_def fmt_d_def)

end
