(* ===== verification/Control_Tool.thy ===== *)
theory Control_Tool
  imports C_Library Control_Interface
begin

text \<open>
  tools/nanonet_control.c: the command line tool for \<open>/dev/nanonet\<close>. Its copy of the
  configuration struct has 28 bytes where the module's has 32, so the two programs disagree on
  the numbers of the commands that carry it. Consecutive \<open>printf\<close> calls are one output.
\<close>

unbundle bit_operations_syntax

section \<open>Data\<close>

text \<open>The tool's structs, which it declares itself. It only reads the statistics.\<close>

record tool_config =
  tc_enabled :: u32
  tc_target_ip :: u32
  tc_target_port :: u16
  tc_protocol :: u8
  tc_response_ip :: u32
  tc_response_port :: u16
  tc_application_logic_type :: u8
  tc_multicast :: u32
  tc_multicast_group :: u32

definition sizeof_tool_config :: nat where [simp]: "sizeof_tool_config = 28"

definition tool_config_bytes :: "tool_config \<Rightarrow> u8 list" where
  "tool_config_bytes c =
     stw 4 (tc_enabled c) @ stw 4 (tc_target_ip c) @ stw 2 (tc_target_port c) @ [tc_protocol c, 0] @
     stw 4 (tc_response_ip c) @ stw 2 (tc_response_port c) @ [tc_application_logic_type c, 0] @
     stw 4 (tc_multicast c) @ stw 4 (tc_multicast_group c)"

definition tool_config_of :: "u8 list \<Rightarrow> tool_config" where
  "tool_config_of bs = \<lparr>tc_enabled = ldw (take 4 bs), tc_target_ip = ldw (take 4 (drop 4 bs)),
     tc_target_port = ldw (take 2 (drop 8 bs)), tc_protocol = bs ! 10,
     tc_response_ip = ldw (take 4 (drop 12 bs)), tc_response_port = ldw (take 2 (drop 16 bs)),
     tc_application_logic_type = bs ! 18, tc_multicast = ldw (take 4 (drop 20 bs)),
     tc_multicast_group = ldw (take 4 (drop 24 bs))\<rparr>"

interpretation tcfg: struct_layout sizeof_tool_config "\<lambda>_. True" tool_config_bytes tool_config_of
  by unfold_locales (simp_all add: tool_config_bytes_def tool_config_of_def byte_simps nth_append)

definition tool_config_zero :: tool_config where
  "tool_config_zero = \<lparr>tc_enabled = 0, tc_target_ip = 0, tc_target_port = 0, tc_protocol = 0, tc_response_ip = 0,
     tc_response_port = 0, tc_application_logic_type = 0, tc_multicast = 0, tc_multicast_group = 0\<rparr>"

record tool_ull_stats =
  tu_packets_processed :: u64
  tu_packets_bypassed :: u64
  tu_responses_sent :: u64
  tu_errors :: u64
  tu_last_process_time_ns :: u64
  tu_min_process_time_ns :: u64
  tu_max_process_time_ns :: u64
  tu_avg_process_time_ns :: u64
  tu_connections_active :: u64
  tu_connections_dropped :: u64

definition sizeof_tool_stats :: nat where [simp]: "sizeof_tool_stats = 80"

definition tool_stats_of :: "u8 list \<Rightarrow> tool_ull_stats" where
  "tool_stats_of bs = \<lparr>tu_packets_processed = ldw (take 8 bs), tu_packets_bypassed = ldw (take 8 (drop 8 bs)),
     tu_responses_sent = ldw (take 8 (drop 16 bs)), tu_errors = ldw (take 8 (drop 24 bs)),
     tu_last_process_time_ns = ldw (take 8 (drop 32 bs)), tu_min_process_time_ns = ldw (take 8 (drop 40 bs)),
     tu_max_process_time_ns = ldw (take 8 (drop 48 bs)), tu_avg_process_time_ns = ldw (take 8 (drop 56 bs)),
     tu_connections_active = ldw (take 8 (drop 64 bs)), tu_connections_dropped = ldw (take 8 (drop 72 bs))\<rparr>"

definition TOOL_IOC_SET_CONFIG :: u32 where
  "TOOL_IOC_SET_CONFIG = ioc 1 1 sizeof_tool_config"

definition TOOL_IOC_GET_CONFIG :: u32 where
  "TOOL_IOC_GET_CONFIG = ioc 2 2 sizeof_tool_config"

definition TOOL_IOC_GET_STATS :: u32 where
  "TOOL_IOC_GET_STATS = ioc 2 3 sizeof_tool_stats"

definition TOOL_IOC_RESET_STATS :: u32 where
  "TOOL_IOC_RESET_STATS = ioc 0 4 0"

definition TOOL_IOC_CLEAR_CONNECTIONS :: u32 where
  "TOOL_IOC_CLEAR_CONNECTIONS = ioc 0 5 0"

text \<open>
  \<open>ioctl\<close> takes what the argument's buffer holds and returns what it holds afterwards;
  \<open>l_uninit\<close> is what a local variable of a size holds before it is set.
\<close>

record 'p tool_libc = "'p libc" +
  l_open :: "string \<Rightarrow> 'p \<Rightarrow> int \<times> 'p"
  l_ioctl :: "int \<Rightarrow> u32 \<Rightarrow> u8 list \<Rightarrow> 'p \<Rightarrow> (int \<times> u8 list) \<times> 'p"
  l_uninit :: "nat \<Rightarrow> u8 list"

section \<open>The commands\<close>

definition tool_usage :: "string \<Rightarrow> string" where
  "tool_usage name = ''Usage: '' @ name @ '' <command> [options]'' @ nl @ ''Commands:'' @ nl
     @ ''  status                    - Show current status'' @ nl
     @ ''  enable                    - Enable packet processing'' @ nl
     @ ''  disable                   - Disable packet processing'' @ nl
     @ ''  config <ip> <port> <proto> [multicast <group>]'' @ nl
     @ ''                            - Set target configuration'' @ nl
     @ ''  stats                     - Show statistics'' @ nl
     @ ''  reset                     - Reset statistics'' @ nl
     @ ''  clear-connections         - Clear TCP connections'' @ nl
     @ nl @ ''Example:'' @ nl
     @ ''  '' @ name @ '' config 192.168.1.100 8080 udp multicast 239.1.1.1'' @ nl"

definition fmt_lld :: "u64 \<Rightarrow> string" where
  "fmt_lld w = fmt_d (sint w)"

definition counters_text :: "tool_ull_stats \<Rightarrow> string" where
  "counters_text t =
     ''Statistics:'' @ nl
     @ ''Packets Processed: '' @ fmt_lld (tu_packets_processed t) @ nl
     @ ''Packets Bypassed: '' @ fmt_lld (tu_packets_bypassed t) @ nl
     @ ''Responses Sent: '' @ fmt_lld (tu_responses_sent t) @ nl
     @ ''Errors: '' @ fmt_lld (tu_errors t) @ nl
     @ ''Active Connections: '' @ fmt_lld (tu_connections_active t) @ nl
     @ ''Dropped Connections: '' @ fmt_lld (tu_connections_dropped t) @ nl
     @ ''Min Process Time: '' @ fmt_u (unat (tu_min_process_time_ns t)) @ '' ns'' @ nl
     @ ''Max Process Time: '' @ fmt_u (unat (tu_max_process_time_ns t)) @ '' ns'' @ nl
     @ ''Avg Process Time: '' @ fmt_u (unat (tu_avg_process_time_ns t)) @ '' ns'' @ nl"

definition status_text :: "tool_config \<Rightarrow> tool_ull_stats \<Rightarrow> string" where
  "status_text c t =
     ''NanoNet Module Status:'' @ nl
     @ ''Enabled: '' @ (if tc_enabled c \<noteq> 0 then ''Yes'' else ''No'') @ nl
     @ ''Target IP: '' @ fmt_ipv4 (tc_target_ip c) @ nl
     @ ''Target Port: '' @ fmt_u (unat (ntohs (tc_target_port c))) @ nl
     @ ''Protocol: '' @ (if tc_protocol c = 6 then ''TCP'' else ''UDP'') @ nl
     @ ''Multicast: '' @ (if tc_multicast c \<noteq> 0 then ''Yes'' else ''No'') @ nl
     @ (if tc_multicast c \<noteq> 0 then ''Multicast Group: '' @ fmt_ipv4 (tc_multicast_group c) @ nl else [])
     @ nl @ counters_text t"

text \<open>The two ways a command fails: with the system's error, or with a message.\<close>

definition tool_fail :: "('p, 'm) libc_scheme \<Rightarrow> int \<Rightarrow> string \<Rightarrow> 'p \<Rightarrow> int \<times> 'p" where
  "tool_fail L fd msg p = (1, l_close L fd (l_perror L msg p))"

definition tool_refuse :: "('p, 'm) libc_scheme \<Rightarrow> int \<Rightarrow> string \<Rightarrow> 'p \<Rightarrow> int \<times> 'p" where
  "tool_refuse L fd msg p = (1, l_close L fd (l_printf L (msg @ nl) p))"

definition tool_status :: "'p tool_libc \<Rightarrow> int \<Rightarrow> 'p \<Rightarrow> int \<times> 'p" where
  "tool_status L fd p =
     (let ((ret, buf), p) = l_ioctl L fd TOOL_IOC_GET_CONFIG (l_uninit L sizeof_tool_config) p
      in if ret < 0 then tool_fail L fd ''Failed to get configuration'' p
         else
           let ((ret, sbuf), p) = l_ioctl L fd TOOL_IOC_GET_STATS (l_uninit L sizeof_tool_stats) p
           in if ret < 0 then tool_fail L fd ''Failed to get statistics'' p
              else (0, l_close L fd (l_printf L (status_text (tool_config_of buf) (tool_stats_of sbuf)) p)))"

definition tool_switch :: "'p tool_libc \<Rightarrow> int \<Rightarrow> u32 \<Rightarrow> string \<Rightarrow> string \<Rightarrow> 'p \<Rightarrow> int \<times> 'p" where
  "tool_switch L fd v bad good p =
     (let ((ret, buf), p) = l_ioctl L fd TOOL_IOC_GET_CONFIG (l_uninit L sizeof_tool_config) p
      in if ret < 0 then tool_fail L fd ''Failed to get configuration'' p
         else
           let config = (tool_config_of buf)\<lparr>tc_enabled := v\<rparr>;
               ((ret, _), p) = l_ioctl L fd TOOL_IOC_SET_CONFIG (tool_config_bytes config) p
           in if ret < 0 then tool_fail L fd bad p
              else (0, l_close L fd (l_printf L (good @ nl) p)))"

definition tool_enable :: "'p tool_libc \<Rightarrow> int \<Rightarrow> 'p \<Rightarrow> int \<times> 'p" where
  "tool_enable L fd = tool_switch L fd 1 ''Failed to enable module'' ''Module enabled''"

definition tool_disable :: "'p tool_libc \<Rightarrow> int \<Rightarrow> 'p \<Rightarrow> int \<times> 'p" where
  "tool_disable L fd = tool_switch L fd 0 ''Failed to disable module'' ''Module disabled''"

definition tool_target :: "u32 \<Rightarrow> string \<Rightarrow> u8 \<Rightarrow> tool_config" where
  "tool_target ip port proto = tool_config_zero\<lparr>tc_target_ip := ip, tc_target_port := htons (of_int (atoi port)),
     tc_protocol := proto, tc_response_ip := ip, tc_response_port := htons 9999, tc_application_logic_type := 0\<rparr>"

definition tool_set :: "'p tool_libc \<Rightarrow> int \<Rightarrow> tool_config \<Rightarrow> 'p \<Rightarrow> int \<times> 'p" where
  "tool_set L fd config p =
     (let ((ret, _), p) = l_ioctl L fd TOOL_IOC_SET_CONFIG (tool_config_bytes config) p
      in if ret < 0 then tool_fail L fd ''Failed to set configuration'' p
         else (0, l_close L fd (l_printf L (''Configuration updated'' @ nl) p)))"

definition tool_configure :: "'p tool_libc \<Rightarrow> string list \<Rightarrow> int \<Rightarrow> 'p \<Rightarrow> fault + (int \<times> 'p)" where
  "tool_configure L argv fd p =
     and_then (or_else (Inr (length argv < 5)) (and_also (arg_is argv 4 ''multicast'') (Inr (length argv \<noteq> 6)))) (\<lambda>wrong.
       if wrong then and_then (arg_at argv 0) (\<lambda>name.
         Inr (tool_refuse L fd (''Usage: '' @ name @ '' config <ip> <port> <proto> [multicast <group>]'') p))
       else and_then (arg_at argv 2) (\<lambda>addr.
         case l_inet_aton L addr of
           None \<Rightarrow> Inr (tool_refuse L fd (''Invalid IP address: '' @ addr) p)
         | Some ip \<Rightarrow>
             and_then (arg_at argv 3) (\<lambda>port.
             and_then (arg_at argv 4) (\<lambda>proto.
               if proto \<noteq> ''tcp'' \<and> proto \<noteq> ''udp''
               then Inr (tool_refuse L fd (''Invalid protocol: '' @ proto @ '' (use 'tcp' or 'udp')'') p)
               else
                 let config = tool_target ip port (if proto = ''tcp'' then 6 else 17)
                 in and_then (and_also (Inr (length argv = 6))
                      (and_also (arg_is argv 4 ''udp'') (arg_is argv 5 ''multicast''))) (\<lambda>group.
                      if group then and_then (arg_at argv 6) (\<lambda>gaddr.
                        case l_inet_aton L gaddr of
                          None \<Rightarrow> Inr (tool_refuse L fd (''Invalid multicast group: '' @ gaddr) p)
                        | Some g \<Rightarrow> Inr (tool_set L fd (config\<lparr>tc_multicast := 1, tc_multicast_group := g\<rparr>) p))
                      else Inr (tool_set L fd config p))))))"

definition tool_stats :: "'p tool_libc \<Rightarrow> int \<Rightarrow> 'p \<Rightarrow> int \<times> 'p" where
  "tool_stats L fd p =
     (let ((ret, sbuf), p) = l_ioctl L fd TOOL_IOC_GET_STATS (l_uninit L sizeof_tool_stats) p
      in if ret < 0 then tool_fail L fd ''Failed to get statistics'' p
         else (0, l_close L fd (l_printf L (counters_text (tool_stats_of sbuf)) p)))"

definition tool_reset :: "'p tool_libc \<Rightarrow> int \<Rightarrow> 'p \<Rightarrow> int \<times> 'p" where
  "tool_reset L fd p =
     (let ((ret, _), p) = l_ioctl L fd TOOL_IOC_RESET_STATS [] p
      in if ret < 0 then tool_fail L fd ''Failed to reset statistics'' p
         else (0, l_close L fd (l_printf L (''Statistics reset'' @ nl) p)))"

definition tool_clear :: "'p tool_libc \<Rightarrow> int \<Rightarrow> 'p \<Rightarrow> int \<times> 'p" where
  "tool_clear L fd p =
     (let ((ret, _), p) = l_ioctl L fd TOOL_IOC_CLEAR_CONNECTIONS [] p
      in if ret < 0 then tool_fail L fd ''Failed to clear connections'' p
         else (0, l_close L fd (l_printf L (''TCP connections cleared'' @ nl) p)))"

definition tool_main :: "'p tool_libc \<Rightarrow> string list \<Rightarrow> 'p \<Rightarrow> fault + (int \<times> 'p)" where
  "tool_main L argv p =
     (if length argv < 2
      then and_then (arg_at argv 0) (\<lambda>name. Inr (1, l_printf L (tool_usage name) p))
      else
        let (fd, p) = l_open L ''/dev/nanonet'' p
        in if fd < 0 then Inr (1, l_perror L ''Failed to open device'' p)
           else and_then (arg_at argv 1) (\<lambda>cmd.
             if cmd = ''status'' then Inr (tool_status L fd p)
             else if cmd = ''enable'' then Inr (tool_enable L fd p)
             else if cmd = ''disable'' then Inr (tool_disable L fd p)
             else if cmd = ''config'' then tool_configure L argv fd p
             else if cmd = ''stats'' then Inr (tool_stats L fd p)
             else if cmd = ''reset'' then Inr (tool_reset L fd p)
             else if cmd = ''clear-connections'' then Inr (tool_clear L fd p)
             else and_then (arg_at argv 0) (\<lambda>name.
               Inr (1, l_close L fd (l_printf L (''Unknown command: '' @ cmd @ nl @ tool_usage name) p)))))"

section \<open>The tool and the module\<close>

lemma tool_ioc_numbers:
  "TOOL_IOC_SET_CONFIG = 0x401C7501" "TOOL_IOC_GET_CONFIG = 0x801C7502" "TOOL_IOC_GET_STATS = NANONET_IOC_GET_STATS"
  "TOOL_IOC_RESET_STATS = NANONET_IOC_RESET_STATS" "TOOL_IOC_CLEAR_CONNECTIONS = NANONET_IOC_CLEAR_CONNECTIONS"
  by (simp_all add: TOOL_IOC_SET_CONFIG_def TOOL_IOC_GET_CONFIG_def TOOL_IOC_GET_STATS_def TOOL_IOC_RESET_STATS_def
      TOOL_IOC_CLEAR_CONNECTIONS_def ioc_def NANONET_IOC_MAGIC_def push_bit_eq_mult)

text \<open>The module in two states that differ in the rest of the kernel at most.\<close>

definition same_module :: "'w nanonet \<Rightarrow> 'w nanonet \<Rightarrow> bool" where
  "same_module s s' \<longleftrightarrow> (\<exists>w. s' = s\<lparr>world := w\<rparr>)"

lemma same_module_simps:
  "same_module s s' \<Longrightarrow> global_config s' = global_config s \<and> global_stats s' = global_stats s
     \<and> connection_hash s' = connection_hash s \<and> the_pool s' = the_pool s"
  by (auto simp: same_module_def)

lemma same_module_refl [simp]: "same_module s s"
  unfolding same_module_def by (rule exI [of _ "world s"]) simp

text \<open>
  \<open>ioctl\<close> on an open device runs the module's handler with the address of the buffer: the user
  memory there holds the buffer's bytes before and after, and can be written at the time of the
  call. A negative result comes back as -1. \<open>dev p fd\<close> says that \<open>fd\<close> is the device in the
  state \<open>p\<close> of the process, which it is when \<open>open\<close> has just returned it. The other functions
  do not reach the module.
\<close>

definition ioctl_law :: "'w kernel \<Rightarrow> 'p tool_libc \<Rightarrow> ('p \<Rightarrow> 'w nanonet) \<Rightarrow> ('p \<Rightarrow> int \<Rightarrow> bool) \<Rightarrow> bool" where
  "ioctl_law K L md dev \<longleftrightarrow> (\<forall>fd cmd buf p. dev p fd \<longrightarrow> (\<exists>arg w.
     fst (k_copy_from_user K arg (length buf) w) = (0, buf)
   \<and> (\<forall>bs. length bs = length buf \<longrightarrow> fst (k_copy_to_user K arg bs w) = 0)
   \<and> (case nanonet_ioctl K cmd arg ((md p)\<lparr>world := w\<rparr>) of (r, s) \<Rightarrow>
        fst (fst (l_ioctl L fd cmd buf p)) = (if r < 0 then - 1 else r)
      \<and> snd (fst (l_ioctl L fd cmd buf p)) = snd (fst (k_copy_from_user K arg (length buf) (world s)))
      \<and> same_module s (md (snd (l_ioctl L fd cmd buf p))))))"

definition device_laws :: "'w kernel \<Rightarrow> 'p tool_libc \<Rightarrow> ('p \<Rightarrow> 'w nanonet) \<Rightarrow> ('p \<Rightarrow> int \<Rightarrow> bool) \<Rightarrow> bool" where
  "device_laws K L md dev \<longleftrightarrow> ioctl_law K L md dev
   \<and> (\<forall>p fd p'. l_open L ''/dev/nanonet'' p = (fd, p') \<longrightarrow> same_module (md p) (md p') \<and> (0 \<le> fd \<longrightarrow> dev p' fd))
   \<and> (\<forall>fd p. same_module (md p) (md (l_close L fd p)))
   \<and> (\<forall>msg p. same_module (md p) (md (l_printf L msg p)))
   \<and> (\<forall>msg p. same_module (md p) (md (l_perror L msg p)))"

abbreviation unchanged :: "'w nanonet \<Rightarrow> 'w nanonet \<Rightarrow> bool" where
  "unchanged s s' \<equiv> global_config s' = global_config s \<and> global_stats s' = global_stats s
     \<and> connection_hash s' = connection_hash s \<and> the_pool s' = the_pool s"

lemma device_keeps:
  assumes "device_laws K L md dev"
  shows "unchanged (md p) (md (l_close L fd p))"
    "unchanged (md p) (md (l_printf L msg p))" "unchanged (md p) (md (l_perror L msg p))"
  using assms same_module_simps unfolding device_laws_def by blast+

lemma device_open:
  assumes "device_laws K L md dev" and "l_open L ''/dev/nanonet'' p = (fd, p')"
  shows "unchanged (md p) (md p')" "0 \<le> fd \<Longrightarrow> dev p' fd"
  using assms same_module_simps unfolding device_laws_def by blast+

lemma ioctl_reaches:
  assumes "device_laws K L md dev" and "dev p fd" and "l_ioctl L fd cmd buf p = ((ret, buf'), p')"
  obtains arg w r s where "fst (k_copy_from_user K arg (length buf) w) = (0, buf)"
    "\<And>bs. length bs = length buf \<Longrightarrow> fst (k_copy_to_user K arg bs w) = 0"
    "nanonet_ioctl K cmd arg ((md p)\<lparr>world := w\<rparr>) = (r, s)" "ret = (if r < 0 then - 1 else r)"
    "buf' = snd (fst (k_copy_from_user K arg (length buf) (world s)))" "same_module s (md p')"
proof -
  obtain arg w where law: "fst (k_copy_from_user K arg (length buf) w) = (0, buf)"
      "\<And>bs. length bs = length buf \<Longrightarrow> fst (k_copy_to_user K arg bs w) = 0"
    and h: "case nanonet_ioctl K cmd arg ((md p)\<lparr>world := w\<rparr>) of (r, s) \<Rightarrow>
        fst (fst (l_ioctl L fd cmd buf p)) = (if r < 0 then - 1 else r)
      \<and> snd (fst (l_ioctl L fd cmd buf p)) = snd (fst (k_copy_from_user K arg (length buf) (world s)))
      \<and> same_module s (md (snd (l_ioctl L fd cmd buf p)))"
    using assms(1,2) unfolding device_laws_def ioctl_law_def by meson
  obtain r s where "nanonet_ioctl K cmd arg ((md p)\<lparr>world := w\<rparr>) = (r, s)" by fastforce
  with h assms(3) law that [of arg w r s] show ?thesis by simp
qed

text \<open>The module knows neither of the tool's configuration commands.\<close>

lemma config_ioctl_refused:
  assumes "device_laws K L md dev" and "dev p fd" and "l_ioctl L fd cmd buf p = ((ret, buf'), p')"
    and "cmd = TOOL_IOC_SET_CONFIG \<or> cmd = TOOL_IOC_GET_CONFIG"
  shows "ret = - 1 \<and> unchanged (md p) (md p')"
proof -
  obtain arg w r s where i: "nanonet_ioctl K cmd arg ((md p)\<lparr>world := w\<rparr>) = (r, s)"
    and ret: "ret = (if r < 0 then - 1 else r)" and same: "same_module s (md p')"
    by (rule ioctl_reaches [OF assms(1-3)])
  have "(r, s) = (- ENOTTY, nanonet_log_error K (''Invalid IOCTL command: '' @ fmt_u (unat cmd)) ((md p)\<lparr>world := w\<rparr>))"
    using i assms(4) by (auto simp: nanonet_ioctl_def tool_ioc_numbers)
  then show ?thesis
    using ret same_module_simps [OF same] by (simp add: frame_simps)
qed

lemma tool_fail_keeps:
  assumes "device_laws K L md dev"
  shows "fst (tool_fail L fd msg p) = 1" "unchanged (md p) (md (snd (tool_fail L fd msg p)))"
    "fst (tool_refuse L fd msg p) = 1" "unchanged (md p) (md (snd (tool_refuse L fd msg p)))"
  using device_keeps [OF assms] by (simp_all add: tool_fail_def tool_refuse_def)

lemma tool_set_fails:
  assumes "device_laws K L md dev" and "dev p fd"
  shows "fst (tool_set L fd c p) = 1 \<and> unchanged (md p) (md (snd (tool_set L fd c p)))"
proof -
  obtain ret buf p1 where i: "l_ioctl L fd TOOL_IOC_SET_CONFIG (tool_config_bytes c) p = ((ret, buf), p1)"
    by (metis surj_pair)
  with config_ioctl_refused [OF assms i] tool_fail_keeps [OF assms(1), of fd _ p1] show ?thesis
    by (simp add: tool_set_def)
qed

lemma tool_get_fails:
  assumes "device_laws K L md dev" and "dev p fd"
  shows "fst (tool_status L fd p) = 1 \<and> unchanged (md p) (md (snd (tool_status L fd p)))"
    "fst (tool_switch L fd v bad good p) = 1 \<and> unchanged (md p) (md (snd (tool_switch L fd v bad good p)))"
proof -
  obtain ret buf p1 where i: "l_ioctl L fd TOOL_IOC_GET_CONFIG (l_uninit L sizeof_tool_config) p = ((ret, buf), p1)"
    by (metis surj_pair)
  note r = config_ioctl_refused [OF assms i] tool_fail_keeps [OF assms(1), of fd _ p1]
  from r i show "fst (tool_status L fd p) = 1 \<and> unchanged (md p) (md (snd (tool_status L fd p)))"
    by (simp add: tool_status_def)
  from r i show "fst (tool_switch L fd v bad good p) = 1 \<and> unchanged (md p) (md (snd (tool_switch L fd v bad good p)))"
    by (simp add: tool_switch_def)
qed

lemma tool_configure_fails:
  assumes "device_laws K L md dev" and "dev p fd" and "tool_configure L argv fd p = Inr x"
  shows "fst x = 1 \<and> unchanged (md p) (md (snd x))"
  using assms(3) tool_fail_keeps(3,4) [OF assms(1), of fd _ p] tool_set_fails [OF assms(1,2)]
  by (simp add: tool_configure_def Let_def and_then_eq_Inr split: if_splits option.splits; fastforce?)

text \<open>C25. The tool cannot configure the module: \<open>status\<close>, \<open>enable\<close>, \<open>disable\<close> and \<open>config\<close> end with exit code 1 and leave
  the module's configuration, statistics, connections and pool as they were, whatever their
  arguments are.\<close>

theorem tool_cannot_configure:
  assumes "device_laws K L md dev" and "1 < length argv" and "argv ! 1 \<in> {''status'', ''enable'', ''disable'', ''config''}"
    and "tool_main L argv p = Inr (code, p')"
  shows "code = 1 \<and> global_config (md p') = global_config (md p) \<and> global_stats (md p') = global_stats (md p)
    \<and> connection_hash (md p') = connection_hash (md p) \<and> the_pool (md p') = the_pool (md p)"
proof -
  obtain fd p1 where o: "l_open L ''/dev/nanonet'' p = (fd, p1)" by fastforce
  note u = device_open [OF assms(1) o]
  have "code = 1 \<and> unchanged (md p1) (md p')"
  proof (cases "fd < 0")
    case True
    then show ?thesis
      using assms(2,4) o device_keeps(3) [OF assms(1), where p = p1] by (auto simp: tool_main_def)
  next
    case False
    with assms(2,3,4) o consider "(code, p') = tool_status L fd p1" | "(code, p') = tool_enable L fd p1"
      | "(code, p') = tool_disable L fd p1" | "tool_configure L argv fd p1 = Inr (code, p')"
      by (auto simp: tool_main_def)
    moreover have dev: "dev p1 fd" using u(2) False by simp
    ultimately show ?thesis
      using tool_get_fails [OF assms(1) dev] tool_configure_fails [OF assms(1) dev, of argv]
      by cases (metis fst_conv snd_conv tool_enable_def tool_disable_def)+
  qed
  with u(1) show ?thesis by simp
qed

text \<open>
  A process with the sample kernel behind it: its output, and the module's state.
  The device is file 3, and one address is known.
\<close>

type_synonym sample_process = "string \<times> sample_world nanonet"

definition with_buffer :: "u8 list \<Rightarrow> sample_world nanonet \<Rightarrow> sample_world nanonet" where
  "with_buffer buf s = s\<lparr>world := (world s)\<lparr>sw_user := (\<lambda>_. buf)\<rparr>\<rparr>"

definition sample_libc :: "sample_process tool_libc" where
  "sample_libc = \<lparr>
     l_printf = (\<lambda>msg (out, s). (out @ msg, s)),
     l_perror = (\<lambda>msg (out, s). (out @ msg, s)),
     l_close = (\<lambda>_ p. p),
     l_inet_aton = (\<lambda>a. if a = ''192.168.1.100'' then Some 0x6401A8C0 else None),
     l_open = (\<lambda>_ p. (3, p)),
     l_ioctl = (\<lambda>_ cmd buf (out, s).
       case nanonet_ioctl sample_kernel cmd 64 (with_buffer buf s) of
         (r, s') \<Rightarrow> ((if r < 0 then - 1 else r, take (length buf) (sw_user (world s') 64)), (out, s'))),
     l_uninit = (\<lambda>n. replicate n 0xAA)\<rparr>"

abbreviation sample_fd :: "sample_process \<Rightarrow> int \<Rightarrow> bool" where
  "sample_fd p fd \<equiv> fd = 3"

lemma sample_device: "device_laws sample_kernel sample_libc snd sample_fd"
  unfolding device_laws_def
proof (intro conjI)
  show "ioctl_law sample_kernel sample_libc snd sample_fd"
    unfolding ioctl_law_def
  proof (intro allI impI)
    fix fd cmd buf and p :: sample_process
    show "\<exists>arg w. fst (k_copy_from_user sample_kernel arg (length buf) w) = (0, buf)
        \<and> (\<forall>bs. length bs = length buf \<longrightarrow> fst (k_copy_to_user sample_kernel arg bs w) = 0)
        \<and> (case nanonet_ioctl sample_kernel cmd arg ((snd p)\<lparr>world := w\<rparr>) of (r, s) \<Rightarrow>
            fst (fst (l_ioctl sample_libc fd cmd buf p)) = (if r < 0 then - 1 else r)
          \<and> snd (fst (l_ioctl sample_libc fd cmd buf p)) = snd (fst (k_copy_from_user sample_kernel arg (length buf) (world s)))
          \<and> same_module s (snd (snd (l_ioctl sample_libc fd cmd buf p))))"
      by (rule exI [of _ 64], rule exI [of _ "world (with_buffer buf (snd p))"])
        (auto simp: with_buffer_def sample_libc_def split: prod.split)
  qed
qed (auto simp: sample_libc_def)

theorem tool_cannot_configure_witness:
  "\<exists>p. tool_main sample_libc [''nanonet_control'', ''config'', ''192.168.1.100'', ''8080'', ''udp''] ([], sample_state 17) = Inr (1, p)
     \<and> global_config (snd p) = sample_config 17"
proof -
  let ?argv = "[''nanonet_control'', ''config'', ''192.168.1.100'', ''8080'', ''udp'']"
  have "\<not> isl (tool_main sample_libc ?argv ([], sample_state 17))"
    by (simp add: tool_main_def tool_configure_def sample_libc_def)
  then obtain code p where m: "tool_main sample_libc ?argv ([], sample_state 17) = Inr (code, p)"
    by (cases "tool_main sample_libc ?argv ([], sample_state 17)") auto
  have "code = 1 \<and> global_config (snd p) = global_config (snd ([] :: string, sample_state 17))"
    using tool_cannot_configure [OF sample_device _ _ m] by simp
  with m show ?thesis by simp
qed

text \<open>What a reader of the printed statistics sees: the label and the number of every line after the first.\<close>

definition read_entry :: "string \<Rightarrow> string \<times> int" where
  "read_entry line = (let label = takeWhile (\<lambda>c. c \<noteq> CHR '':'') line in (label, read_int (drop (length label + 2) line)))"

definition read_report :: "string \<Rightarrow> (string \<times> int) list" where
  "read_report text = map read_entry (tl (lines_of text))"

lemma fmt_lld_facts: "read_int (fmt_lld w) = sint w" "char_of (10 :: nat) \<notin> set (fmt_lld w)"
  by (simp_all add: fmt_lld_def read_int_fmt_d newline_fmt)

lemma read_counters:
  "read_report (counters_text t) =
    [(''Packets Processed'', sint (tu_packets_processed t)), (''Packets Bypassed'', sint (tu_packets_bypassed t)),
     (''Responses Sent'', sint (tu_responses_sent t)), (''Errors'', sint (tu_errors t)),
     (''Active Connections'', sint (tu_connections_active t)), (''Dropped Connections'', sint (tu_connections_dropped t)),
     (''Min Process Time'', uint (tu_min_process_time_ns t)), (''Max Process Time'', uint (tu_max_process_time_ns t)),
     (''Avg Process Time'', uint (tu_avg_process_time_ns t))]"
proof -
  let ?nl = "[CHR 0x0A]"
  have head: "lines_of (''Statistics:'' @ ?nl @ cs) = ''Statistics:'' # lines_of cs" for cs
    using lines_of_line [of "''Statistics:''" "[]" cs] by (simp add: newline_char)
  have counter: "lines_of (l @ fmt_lld w @ ?nl @ cs) = (l @ fmt_lld w) # lines_of cs" if "CHR 0x0A \<notin> set l" for l w cs
    using lines_of_line [of l "fmt_lld w" cs] that fmt_lld_facts(2) by (simp add: newline_char)
  have times: "lines_of (l @ fmt_u n @ '' ns'' @ ?nl @ cs) = (l @ fmt_u n @ '' ns'') # lines_of cs"
    if "CHR 0x0A \<notin> set l" for l n cs
    using lines_of_line [of l "fmt_u n @ '' ns''" cs] that newline_fmt by (simp add: newline_char)
  have ns: "read_int (fmt_u (unat w) @ '' ns'') = uint w" for w :: u64
    using read_int_fmt_u [of "'' ns''" "unat w"] by (simp add: is_digit_def)
  have "lines_of (counters_text t) = [''Statistics:'',
     ''Packets Processed: '' @ fmt_lld (tu_packets_processed t), ''Packets Bypassed: '' @ fmt_lld (tu_packets_bypassed t),
     ''Responses Sent: '' @ fmt_lld (tu_responses_sent t), ''Errors: '' @ fmt_lld (tu_errors t),
     ''Active Connections: '' @ fmt_lld (tu_connections_active t),
     ''Dropped Connections: '' @ fmt_lld (tu_connections_dropped t),
     ''Min Process Time: '' @ fmt_u (unat (tu_min_process_time_ns t)) @ '' ns'',
     ''Max Process Time: '' @ fmt_u (unat (tu_max_process_time_ns t)) @ '' ns'',
     ''Avg Process Time: '' @ fmt_u (unat (tu_avg_process_time_ns t)) @ '' ns'']"
    using times [of "''Avg Process Time: ''" _ "[]"]
    by (simp add: counters_text_def newline_char head counter times lines_of_Nil del: append_Cons)
  then show ?thesis
    by (simp add: read_report_def read_entry_def fmt_lld_facts(1) ns [simplified])
qed

text \<open>The tool decodes what the module encodes, although each has its own struct.\<close>

lemma tool_stats_of_bytes:
  "tool_stats_of (stats_bytes t) = \<lparr>tu_packets_processed = packets_processed t, tu_packets_bypassed = packets_bypassed t,
     tu_responses_sent = responses_sent t, tu_errors = stat_errors t, tu_last_process_time_ns = last_process_time_ns t,
     tu_min_process_time_ns = min_process_time_ns t, tu_max_process_time_ns = max_process_time_ns t,
     tu_avg_process_time_ns = avg_process_time_ns t, tu_connections_active = connections_active t,
     tu_connections_dropped = connections_dropped t\<rparr>"
  by (simp add: tool_stats_of_def stats_bytes_def byte_simps)

text \<open>C26. The statistics arrive as they are: when the device opens, \<open>stats\<close> exits with 0, changes nothing in the module,
  and prints a text in which each label is followed by the module's counter of that name, signed
  for the counters and unsigned for the times.\<close>

theorem tool_stats_report:
  assumes "device_laws K L md dev" and "user_memory K" and "length (l_uninit L 80) = 80"
    and "0 \<le> fst (l_open L ''/dev/nanonet'' p)" and "1 < length argv" and "argv ! 1 = ''stats''"
    and "t = global_stats (md p)"
  shows "\<exists>fd text p1. tool_main L argv p = Inr (0, l_close L fd (l_printf L text p1))
    \<and> read_report text =
       [(''Packets Processed'', sint (packets_processed t)), (''Packets Bypassed'', sint (packets_bypassed t)),
        (''Responses Sent'', sint (responses_sent t)), (''Errors'', sint (stat_errors t)),
        (''Active Connections'', sint (connections_active t)), (''Dropped Connections'', sint (connections_dropped t)),
        (''Min Process Time'', uint (min_process_time_ns t)), (''Max Process Time'', uint (max_process_time_ns t)),
        (''Avg Process Time'', uint (avg_process_time_ns t))]
    \<and> global_config (md p1) = global_config (md p) \<and> global_stats (md p1) = global_stats (md p)
    \<and> connection_hash (md p1) = connection_hash (md p) \<and> the_pool (md p1) = the_pool (md p)"
proof -
  obtain fd p0 where o: "l_open L ''/dev/nanonet'' p = (fd, p0)" by fastforce
  have u: "unchanged (md p) (md p0)" and dev: "dev p0 fd" using device_open [OF assms(1) o] assms(4) o by simp_all
  obtain ret buf p1 where i: "l_ioctl L fd TOOL_IOC_GET_STATS (l_uninit L 80) p0 = ((ret, buf), p1)"
    by (metis surj_pair)
  obtain arg w r s where writable: "\<And>bs. length bs = 80 \<Longrightarrow> fst (k_copy_to_user K arg bs w) = 0"
    and h: "nanonet_ioctl K TOOL_IOC_GET_STATS arg ((md p0)\<lparr>world := w\<rparr>) = (r, s)" and ret: "ret = (if r < 0 then - 1 else r)"
    and buf: "buf = snd (fst (k_copy_from_user K arg 80 (world s)))" and same: "same_module s (md p1)"
    using ioctl_reaches [OF assms(1) dev i] assms(3) by metis
  let ?bs = "stats_bytes t"
  have len: "length ?bs = 80" using sts.length_enc [of t] by simp
  have "r = 0" and s: "s = (md p0)\<lparr>world := snd (k_copy_to_user K arg ?bs w)\<rparr>"
    using h writable [OF len] u assms(7) by (auto simp: nanonet_ioctl_def tool_ioc_numbers ioctl_copy_out_def call_eq)
  then have "buf = ?bs"
    using assms(2) writable [OF len] len buf by (simp add: user_memory_def) (metis snd_conv)
  then have "tool_main L argv p = Inr (0, l_close L fd (l_printf L (counters_text (tool_stats_of ?bs)) p1))"
    using o i ret \<open>r = 0\<close> assms(4-6) by (simp add: tool_main_def tool_stats_def)
  moreover have "unchanged (md p) (md p1)"
    using same_module_simps [OF same] u s by simp
  ultimately show ?thesis
    using read_counters [of "tool_stats_of ?bs"] unfolding tool_stats_of_bytes by auto
qed

text \<open>Statistics with a different number in every place.\<close>

definition sample_counts :: "sample_world nanonet" where
  "sample_counts = (sample_state 17)\<lparr>global_stats := \<lparr>packets_processed = 7, packets_bypassed = 5, responses_sent = 0,
     stat_errors = 3, last_process_time_ns = 400, min_process_time_ns = 250, max_process_time_ns = 900,
     avg_process_time_ns = 410, connections_active = - 1, connections_dropped = 2\<rparr>\<rparr>"

theorem tool_stats_report_witness:
  "\<exists>text p1. tool_main sample_libc [''nanonet_control'', ''stats''] ([], sample_counts) = Inr (0, l_printf sample_libc text p1)
    \<and> read_report text = [(''Packets Processed'', 7), (''Packets Bypassed'', 5), (''Responses Sent'', 0), (''Errors'', 3),
        (''Active Connections'', - 1), (''Dropped Connections'', 2), (''Min Process Time'', 250),
        (''Max Process Time'', 900), (''Avg Process Time'', 410)]"
proof -
  have close: "l_close sample_libc fd q = q" for fd q by (simp add: sample_libc_def)
  show ?thesis
    using tool_stats_report [OF sample_device sample_user_memory, of "([], sample_counts)"
        "[''nanonet_control'', ''stats'']" "global_stats sample_counts"]
    by (auto simp: close sample_libc_def [THEN arg_cong, of l_uninit] sample_libc_def [THEN arg_cong, of l_open] sample_counts_def)
qed

text \<open>\<open>reset\<close> and \<open>clear-connections\<close> reach the module as well.\<close>

lemma tool_reset_effect:
  assumes "device_laws K L md dev" and "dev p fd"
  shows "fst (tool_reset L fd p) = 0 \<and> global_stats (md (snd (tool_reset L fd p))) = reset_stats (global_stats (md p))
    \<and> connection_hash (md (snd (tool_reset L fd p))) = connection_hash (md p)"
proof -
  obtain ret buf p1 where i: "l_ioctl L fd TOOL_IOC_RESET_STATS [] p = ((ret, buf), p1)" by (metis surj_pair)
  obtain arg w r s where h: "nanonet_ioctl K TOOL_IOC_RESET_STATS arg ((md p)\<lparr>world := w\<rparr>) = (r, s)"
    and ret: "ret = (if r < 0 then - 1 else r)" and same: "same_module s (md p1)"
    by (rule ioctl_reaches [OF assms i])
  have "r = 0 \<and> global_stats s = reset_stats (global_stats (md p)) \<and> connection_hash s = connection_hash (md p)"
    using h by (auto simp: nanonet_ioctl_def tool_ioc_numbers frame_simps upd_stats_def)
  then show ?thesis
    using i ret same_module_simps [OF same] device_keeps(1,2) [OF assms(1)] by (simp add: tool_reset_def)
qed

lemma tool_clear_effect:
  assumes "device_laws K L md dev" and "dev p fd"
  shows "fst (tool_clear L fd p) = 0 \<and> (\<forall>i < 1024. connection_hash (md (snd (tool_clear L fd p))) i = [])
    \<and> global_config (md (snd (tool_clear L fd p))) = global_config (md p)"
proof -
  obtain ret buf p1 where i: "l_ioctl L fd TOOL_IOC_CLEAR_CONNECTIONS [] p = ((ret, buf), p1)" by (metis surj_pair)
  obtain arg w r s where h: "nanonet_ioctl K TOOL_IOC_CLEAR_CONNECTIONS arg ((md p)\<lparr>world := w\<rparr>) = (r, s)"
    and ret: "ret = (if r < 0 then - 1 else r)" and same: "same_module s (md p1)"
    by (rule ioctl_reaches [OF assms i])
  have "r = 0 \<and> (\<forall>i < 1024. connection_hash s i = []) \<and> global_config s = global_config (md p)"
    using h by (auto simp: nanonet_ioctl_def tool_ioc_numbers frame_simps nanonet_clear_tcp_connections_def fold_clear_bucket)
  then show ?thesis
    using i ret same_module_simps [OF same] device_keeps(1,2) [OF assms(1)] by (simp add: tool_clear_def)
qed

text \<open>The port of a configuration is the number given, cut to 16 bits.\<close>

lemma tool_target_port: "n < 2 ^ 31 \<Longrightarrow> ntohs (tc_target_port (tool_target ip (fmt_u n) proto)) = of_nat n"
  by (simp add: tool_target_def atoi_fmt_u)

text \<open>C27. Every use of an argument in the tool is a read that faults when the argument is missing. It happens exactly
  when the tool is started without a name, or with the five arguments \<open>config\<close>, a valid address,
  a port, \<open>udp\<close> and \<open>multicast\<close> on a device that opens: the group would be the sixth, and
  with it the multicast part is skipped.\<close>

theorem tool_faults_iff:
  "isl (tool_main L argv p) \<longleftrightarrow> argv = []
     \<or> 0 \<le> fst (l_open L ''/dev/nanonet'' p) \<and> length argv = 6 \<and> argv ! 1 = ''config'' \<and> argv ! 4 = ''udp''
       \<and> argv ! 5 = ''multicast'' \<and> l_inet_aton L (argv ! 2) \<noteq> None"
proof (cases "length argv < 2")
  case True
  then show ?thesis by (cases argv) (auto simp: tool_main_def)
next
  case False
  have name: "arg_at argv 0 = Inr (argv ! 0)" using False by (intro arg_at_simps) auto
  have "isl (tool_configure L argv fd q) \<longleftrightarrow> length argv = 6 \<and> argv ! 4 = ''udp'' \<and> argv ! 5 = ''multicast''
      \<and> l_inet_aton L (argv ! 2) \<noteq> None" for fd q
  proof (cases "length argv < 5")
    case True
    then show ?thesis by (simp add: tool_configure_def name)
  next
    case False
    then show ?thesis by (auto simp: tool_configure_def name Let_def split: option.split)
  qed
  moreover have "arg_at argv 1 = Inr (argv ! 1)" using False by simp
  ultimately show ?thesis using False
    by (cases "l_open L ''/dev/nanonet'' p") (auto simp: tool_main_def name)
qed

end
