(* ===== verification/Packet_Generator.thy ===== *)
theory Packet_Generator
  imports C_Library Packet_Processor
begin

text \<open>
  tools/packet_generator.c: a client that sends a thousand market-data messages, over TCP or
  UDP, a millisecond apart. The socket functions, the clock and the sleep are parameters.
\<close>

section \<open>The program\<close>

datatype sock_type = SOCK_STREAM | SOCK_DGRAM

record sockaddr_in =
  sin_port :: u16
  sin_addr :: u32

record 'p sock_libc = "'p libc" +
  l_socket :: "sock_type \<Rightarrow> 'p \<Rightarrow> int \<times> 'p"
  l_add_membership :: "int \<Rightarrow> u32 \<Rightarrow> 'p \<Rightarrow> int \<times> 'p"
  l_connect :: "int \<Rightarrow> sockaddr_in \<Rightarrow> 'p \<Rightarrow> int \<times> 'p"
  l_sendto :: "int \<Rightarrow> u8 list \<Rightarrow> sockaddr_in \<Rightarrow> 'p \<Rightarrow> int \<times> 'p"
  l_send :: "int \<Rightarrow> u8 list \<Rightarrow> 'p \<Rightarrow> int \<times> 'p"
  l_time :: "'p \<Rightarrow> u64 \<times> 'p"
  l_usleep :: "nat \<Rightarrow> 'p \<Rightarrow> 'p"

definition generator_usage :: "string \<Rightarrow> string" where
  "generator_usage name =
     ''Usage: '' @ name @ '' <ip> <port> <protocol> [multicast <group>]'' @ nl
     @ ''Example: '' @ name @ '' 192.168.1.100 8080 udp multicast 239.1.1.1'' @ nl"

text \<open>The message: every number is in network byte order.\<close>

definition generator_packet :: "u64 \<Rightarrow> market_data" where
  "generator_packet ns = \<lparr>md_symbol = ascii_bytes ''AAPL    '', md_price = htonl 9999, md_quantity = htonl 1000,
     md_timestamp = htobe64 ns\<rparr>"

function send_packets :: "'p sock_libc \<Rightarrow> int \<Rightarrow> bool \<Rightarrow> sockaddr_in \<Rightarrow> nat \<Rightarrow> 'p \<Rightarrow> 'p" where
  "send_packets L sock udp dest i p =
     (if 1000 \<le> i then p
      else
        let (now, p) = l_time L p;
            packet = market_bytes (generator_packet (now * 1000000000 + of_nat (i * 1000000)));
            (sent, p) = (if udp then l_sendto L sock packet dest p else l_send L sock packet p)
        in if sent < 0 then l_perror L ''Failed to send packet'' p
           else send_packets L sock udp dest (Suc i) (l_usleep L 1000 p))"
  by pat_completeness auto
termination by (relation "measure (\<lambda>(L, sock, udp, dest, i, p). 1000 - i)") auto

declare send_packets.simps [simp del]

text \<open>The rest of \<open>main\<close> from the connection on; the first reading of the clock is overwritten in the loop.\<close>

definition generator_run :: "'p sock_libc \<Rightarrow> string list \<Rightarrow> int \<Rightarrow> sockaddr_in \<Rightarrow> 'p \<Rightarrow> fault + (int \<times> 'p)" where
  "generator_run L argv sock dest p =
     and_then (arg_at argv 3) (\<lambda>proto.
       let (connected, p) = (if proto = ''tcp'' then l_connect L sock dest p else (0, p))
       in if connected < 0 then Inr (1, l_close L sock (l_perror L ''Failed to connect'' p))
          else
            let (_, p) = l_time L p
            in Inr (0, l_close L sock (send_packets L sock (proto = ''udp'') dest 0 p)))"

definition generator_group :: "'p sock_libc \<Rightarrow> string list \<Rightarrow> int \<Rightarrow> sockaddr_in \<Rightarrow> 'p \<Rightarrow> fault + (int \<times> 'p)" where
  "generator_group L argv sock dest p =
     and_then (and_also (Inr (length argv = 5)) (and_also (arg_is argv 3 ''udp'') (arg_is argv 4 ''multicast''))) (\<lambda>multicast.
       if multicast
       then and_then (arg_at argv 5) (\<lambda>group.
         case l_inet_aton L group of
           None \<Rightarrow> Inr (1, l_close L sock (l_printf L (''Invalid multicast group: '' @ group @ nl) p))
         | Some g \<Rightarrow>
             let (joined, p) = l_add_membership L sock g p
             in if joined < 0 then Inr (1, l_close L sock (l_perror L ''Failed to join multicast group'' p))
                else generator_run L argv sock (dest\<lparr>sin_addr := g\<rparr>) p)
       else generator_run L argv sock dest p)"

definition generator_main :: "'p sock_libc \<Rightarrow> string list \<Rightarrow> 'p \<Rightarrow> fault + (int \<times> 'p)" where
  "generator_main L argv p =
     and_then (or_else (Inr (length argv < 4)) (and_also (arg_is argv 3 ''multicast'') (Inr (length argv \<noteq> 5)))) (\<lambda>wrong.
       if wrong then and_then (arg_at argv 0) (\<lambda>name. Inr (1, l_printf L (generator_usage name) p))
       else and_then (arg_at argv 3) (\<lambda>proto.
         if proto \<noteq> ''tcp'' \<and> proto \<noteq> ''udp'' then Inr (1, l_printf L (''Invalid protocol: '' @ proto @ nl) p)
         else
           let (sock, p) = l_socket L (if proto = ''tcp'' then SOCK_STREAM else SOCK_DGRAM) p
           in if sock < 0 then Inr (1, l_perror L ''Failed to create socket'' p)
              else and_then (arg_at argv 2) (\<lambda>port. and_then (arg_at argv 1) (\<lambda>addr.
                case l_inet_aton L addr of
                  None \<Rightarrow> Inr (1, l_close L sock (l_printf L (''Invalid IP address: '' @ addr @ nl) p))
                | Some ip \<Rightarrow> generator_group L argv sock \<lparr>sin_port = htons (of_int (atoi port)), sin_addr = ip\<rparr> p))))"

section \<open>What it sends\<close>

lemma generator_market_ok: "market_ok (generator_packet ns)"
  by (simp add: market_ok_def generator_packet_def ascii_bytes_def)

text \<open>The module reads the price without changing its byte order.\<close>

lemma generator_price: "md_price (market_of (market_bytes (generator_packet ns))) = 0x0F270000"
  using md.dec_enc [OF generator_market_ok, of ns]
  by (simp add: generator_packet_def ntohl_def stw_def ldw_def le_bytes_numeral)

lemma generator_no_order:
  "process_market_data K (Some (market_bytes (generator_packet ns) @ rest)) 24 s = Inr (0, None, s)"
proof -
  have "peek (market_bytes (generator_packet ns) @ rest) 0 24 = Some (market_bytes (generator_packet ns))"
    using md.length_enc [OF generator_market_ok, of ns] by (simp add: peek_def)
  then show ?thesis
    by (simp add: process_market_data_def generator_price)
qed

text \<open>
  The messages that left: \<open>sent\<close> of the process state grows by each message a send function
  takes, and by nothing else.
\<close>

definition send_laws :: "'p sock_libc \<Rightarrow> ('p \<Rightarrow> u8 list list) \<Rightarrow> bool" where
  "send_laws L sent \<longleftrightarrow>
     (\<forall>k bs d p. sent (snd (l_sendto L k bs d p)) = sent p @ (if fst (l_sendto L k bs d p) < 0 then [] else [bs]))
   \<and> (\<forall>k bs p. sent (snd (l_send L k bs p)) = sent p @ (if fst (l_send L k bs p) < 0 then [] else [bs]))
   \<and> (\<forall>t p. sent (snd (l_socket L t p)) = sent p) \<and> (\<forall>k g p. sent (snd (l_add_membership L k g p)) = sent p)
   \<and> (\<forall>k d p. sent (snd (l_connect L k d p)) = sent p) \<and> (\<forall>p. sent (snd (l_time L p)) = sent p)
   \<and> (\<forall>n p. sent (l_usleep L n p) = sent p) \<and> (\<forall>msg p. sent (l_printf L msg p) = sent p)
   \<and> (\<forall>msg p. sent (l_perror L msg p) = sent p) \<and> (\<forall>k p. sent (l_close L k p) = sent p)"

lemma sent_frame:
  assumes "send_laws L sent"
  shows "sent (snd (l_socket L t p)) = sent p" "sent (snd (l_connect L k d p)) = sent p"
    "sent (snd (l_time L p)) = sent p" "sent (l_usleep L n p) = sent p" "sent (l_printf L msg p) = sent p"
    "sent (l_perror L msg p) = sent p" "sent (l_close L k p) = sent p"
  using assms by (simp_all add: send_laws_def)

definition sends_succeed :: "'p sock_libc \<Rightarrow> bool" where
  "sends_succeed L \<longleftrightarrow> (\<forall>k bs d p. 0 \<le> fst (l_sendto L k bs d p)) \<and> (\<forall>k bs p. 0 \<le> fst (l_send L k bs p))"

abbreviation messages :: "u64 list \<Rightarrow> u8 list list" where
  "messages ts \<equiv> map (\<lambda>t. market_bytes (generator_packet t)) ts"

lemma send_packets_sent:
  assumes "send_laws L sent"
  shows "i \<le> 1000 \<Longrightarrow> \<exists>ts. sent (send_packets L k udp d i p) = sent p @ messages ts \<and> length ts + i \<le> 1000
    \<and> (sends_succeed L \<longrightarrow> length ts + i = 1000)"
proof (induction "1000 - i" arbitrary: i p)
  case 0
  then show ?case by (simp add: send_packets.simps [of L k udp d 1000 p])
next
  case (Suc n)
  obtain now p1 where c: "l_time L p = (now, p1)" by fastforce
  define t where "t = now * 1000000000 + of_nat (i * 1000000)"
  let ?m = "market_bytes (generator_packet t)"
  obtain r p2 where r: "(if udp then l_sendto L k ?m d p1 else l_send L k ?m p1) = (r, p2)" by fastforce
  have p1: "sent p1 = sent p" using sent_frame(3) [OF assms, of p] c by simp
  then have p2: "sent p2 = sent p @ (if r < 0 then [] else [?m])"
    using assms r unfolding send_laws_def by (metis (no_types, lifting) fst_conv snd_conv)
  have step: "send_packets L k udp d i p = (if r < 0 then l_perror L ''Failed to send packet'' p2
      else send_packets L k udp d (Suc i) (l_usleep L 1000 p2))"
    unfolding send_packets.simps [of L k udp d i p] c Let_def prod.case t_def [symmetric] r
    using Suc.hyps(2) by auto
  show ?case
  proof (cases "r < 0")
    case True
    then have "\<not> sends_succeed L"
      using r unfolding sends_succeed_def by (metis fst_conv linorder_not_less)
    with True assms step p2 Suc.prems show ?thesis
      by (intro exI [of _ "[]"]) (simp add: send_laws_def)
  next
    case False
    have q: "sent (l_usleep L 1000 p2) = sent p @ [?m]" using assms p2 False by (simp add: send_laws_def)
    have "n = 1000 - Suc i" "Suc i \<le> 1000" using Suc.hyps(2) by auto
    from Suc.hyps(1) [OF this, of "l_usleep L 1000 p2"] obtain ts
      where ts: "sent (send_packets L k udp d (Suc i) (l_usleep L 1000 p2)) = sent (l_usleep L 1000 p2) @ messages ts"
        "length ts + Suc i \<le> 1000" "sends_succeed L \<longrightarrow> length ts + Suc i = 1000" by blast
    with False step q show ?thesis by (intro exI [of _ "t # ts"]) simp
  qed
qed

lemma generator_run_sent:
  assumes L: "send_laws L sent" and run: "generator_run L argv k d p = Inr x"
  shows "\<exists>ts. sent (snd x) = sent p @ messages ts \<and> length ts \<le> 1000"
proof -
  obtain proto where proto: "arg_at argv 3 = Inr proto"
    using run by (cases "arg_at argv 3") (auto simp: generator_run_def)
  obtain r p1 where c: "(if proto = ''tcp'' then l_connect L k d p else (0, p)) = (r, p1)" by fastforce
  then have p1: "sent p1 = sent p"
    using sent_frame(2) [OF L, of k d p] by (auto split: if_splits)
  note run = run [unfolded generator_run_def proto and_then_simps c Let_def prod.case]
  show ?thesis
  proof (cases "r < 0")
    case True
    with run have "sent (snd x) = sent p"
      using p1 by (auto simp: sent_frame [OF L])
    then show ?thesis by (intro exI [of _ "[]"]) simp
  next
    case False
    with run have "sent (snd x) = sent (send_packets L k (proto = ''udp'') d 0 (snd (l_time L p1)))"
      by (auto simp: sent_frame [OF L] split_beta)
    with send_packets_sent [OF L, of 0 k "proto = ''udp''" d "snd (l_time L p1)"] p1 show ?thesis
      by (auto simp: sent_frame [OF L])
  qed
qed

text \<open>
  The multicast part runs when \<open>argv\<close> has five entries, and then reads the missing sixth: a run
  that returns has skipped it.
\<close>

lemma generator_group_run:
  assumes "generator_group L argv k d p = Inr x"
  shows "generator_run L argv k d p = Inr x"
  using assms by (auto simp: generator_group_def and_then_eq_Inr and_also_def arg_at_def need_eq_Inr split: if_splits)

lemma generator_main_sent:
  assumes L: "send_laws L sent" and main: "generator_main L argv p = Inr x"
  shows "\<exists>ts. sent (snd x) = sent p @ messages ts \<and> length ts \<le> 1000"
proof -
  consider (quit) c q where "x = (c, q)" "sent q = sent p"
    | (run) k d q where "generator_group L argv k d q = Inr x" "sent q = sent p"
  proof -
    have socket: "sent q = sent p" if "l_socket L t p = (k, q)" for t k q
      using that sent_frame(1) [OF L, of t p] by simp
    show ?thesis
      using main that sent_frame(5-7) [OF L] socket
      by (auto simp: generator_main_def and_then_eq_Inr split: if_splits option.splits prod.splits)
  qed
  then show ?thesis
  proof cases
    case quit
    then show ?thesis by (intro exI [of _ "[]"]) simp
  next
    case run
    with generator_run_sent [OF L generator_group_run [OF run(1)]] show ?thesis by simp
  qed
qed

text \<open>With the five arguments it asks for, the multicast form reads the missing sixth.\<close>

lemma generator_multicast_faults:
  assumes "length argv = 5" and "argv ! 3 = ''udp''" and "argv ! 4 = ''multicast''"
    and "0 \<le> fst (l_socket L SOCK_DGRAM p)" and "l_inet_aton L (argv ! 1) \<noteq> None"
  shows "generator_main L argv p = Inl MemFault"
  using assms by (cases "l_socket L SOCK_DGRAM p") (auto simp: generator_main_def generator_group_def)

text \<open>C28. The generator triggers no order: whatever it is asked to send goes out as at most a thousand 24-byte messages,
  and the module's application logic answers none of them, because the price it reads is the
  byte-reversed one.\<close>

theorem generator_triggers_no_order:
  assumes "send_laws L sent" and "generator_main L argv p = Inr (code, p')"
  shows "\<exists>ms. sent p' = sent p @ ms \<and> length ms \<le> 1000
    \<and> (\<forall>m \<in> set ms. length m = 24 \<and> process_market_data K (Some m) 24 s = Inr (0, None, s))"
proof -
  obtain ts where "sent p' = sent p @ messages ts" "length ts \<le> 1000"
    using generator_main_sent [OF assms] by auto
  then show ?thesis
    using md.length_enc [OF generator_market_ok] generator_no_order [where rest = "[]"]
    by (intro exI [of _ "messages ts"]) auto
qed

text \<open>A network that takes every message; the process state is the list of messages.\<close>

definition sample_network :: "u8 list list sock_libc" where
  "sample_network = \<lparr>l_printf = (\<lambda>_ p. p), l_perror = (\<lambda>_ p. p), l_close = (\<lambda>_ p. p),
     l_inet_aton = (\<lambda>a. Some 0x6401A8C0), l_socket = (\<lambda>_ p. (3, p)), l_add_membership = (\<lambda>_ _ p. (0, p)),
     l_connect = (\<lambda>_ _ p. (0, p)), l_sendto = (\<lambda>_ bs _ p. (24, p @ [bs])), l_send = (\<lambda>_ bs p. (24, p @ [bs])),
     l_time = (\<lambda>p. (1700000000, p)), l_usleep = (\<lambda>_ p. p)\<rparr>"

lemma sample_network_laws: "send_laws sample_network id" "sends_succeed sample_network"
  by (simp_all add: send_laws_def sends_succeed_def sample_network_def)

theorem generator_triggers_no_order_witness:
  "\<exists>ms. generator_main sample_network [''packet_generator'', ''192.168.1.100'', ''8080'', ''udp''] [] = Inr (0, ms)
    \<and> length ms = 1000 \<and> (\<forall>m \<in> set ms. process_market_data sample_kernel (Some m) 24 (sample_state 17) = Inr (0, None, sample_state 17))"
proof -
  let ?argv = "[''packet_generator'', ''192.168.1.100'', ''8080'', ''udp'']"
  let ?d = "\<lparr>sin_port = htons (of_int (atoi ''8080'')), sin_addr = 0x6401A8C0\<rparr>"
  define ms where "ms = send_packets sample_network 3 True ?d 0 []"
  have m: "generator_main sample_network ?argv [] = Inr (0, ms)"
    unfolding ms_def by (simp add: generator_main_def generator_group_def generator_run_def sample_network_def)
  have "length ms = 1000"
    using send_packets_sent [OF sample_network_laws(1), of 0 3 True ?d "[]"] sample_network_laws(2)
    by (auto simp: ms_def)
  with m generator_triggers_no_order [OF sample_network_laws(1) m, of sample_kernel "sample_state 17"] show ?thesis
    by auto
qed

end
