(* ===== verification/Spec2Isabelle.thy ===== *)
theory Spec2Isabelle
  imports Liveness Interleaving Control_Tool Packet_Generator
begin

text \<open>
  NanoNet-ULL: a verification of the kernel module and its two tools.

  \<^bold>\<open>The program.\<close> NanoNet-ULL is a Linux kernel module that takes selected packets out of the
  network stack, hands their payload to an application and answers from a pool of preallocated
  buffers. Its parts, by source file:

  \<^item> include/nanonet.h: packet headers, configuration, statistics, connection records;
  \<^item> src/nanonet.c: the netfilter hook, loading and unloading, the timing statistics;
  \<^item> src/micro_stack.c: the packet parser and the Internet checksum;
  \<^item> src/security.c: the table of TCP connections, validation, permissions;
  \<^item> src/optimizations.c: the pool of response buffers, the raw send, a second parser;
  \<^item> src/response_sender.c: building and sending a response;
  \<^item> src/packet_processor.c: the application, which answers cheap quotes with an order;
  \<^item> src/control_interface.c: the device /dev/nanonet, its commands, /proc/nanonet;
  \<^item> src/debug.c: the error log, the debugfs file, the trace event;
  \<^item> tools/nanonet_control.c: the command line tool for the device;
  \<^item> tools/packet_generator.c: a client that sends market data.

  A packet passes through \<open>nanonet_hook\<close>: parser, validation, the tests on address, protocol and
  port, the connection table for TCP, the application, which may send a response, and the
  statistics. Commands on the device change the configuration, the statistics and the table.

  \<^bold>\<open>The theories.\<close> Every definition that models code carries the name of its C function or
  struct, or of the function it is a step of.

  \<^item> NanoNet_Prelude: machine words, bytes in memory, decimal output, error numbers, faults, and
    the interfaces \<open>struct_layout\<close>, \<open>packed_layout\<close> (a struct and its bytes) and \<open>machine\<close>
    (operations that keep an invariant);
  \<^item> Headers: the four packet headers with their layouts;
  \<^item> NanoNet_State: configuration, statistics and connections, socket buffers, the record
    \<open>kernel\<close> of the kernel services, the record \<open>nanonet\<close> of all globals of the module;
  \<^item> Kernel_Laws: what is assumed of the services, as predicates; Samples: a concrete kernel,
    packets and states on which the hypotheses hold;
  \<^item> Debug, Micro_Stack, Security, Optimizations, Response_Sender, Packet_Processor,
    Control_Interface, Nanonet: one theory per source file;
  \<^item> Resources: the accounts of loading, unloading and sending;
  \<^item> Module_Runs: the loaded module as a transition system of packets, commands and changes in
    the rest of the kernel; Liveness: its hook always returns; Interleaving: the accesses to
    the statistics in any order;
  \<^item> C_Library, Control_Tool, Packet_Generator: the tools.

  \<^bold>\<open>How the code is modelled.\<close> Integers have their C width and wrap around. A C function becomes a
  function on the state that returns its result and the new state. Kernel services are fields
  of the record \<open>kernel\<close> and act on a state \<open>'w\<close> of the rest of the kernel, of which nothing
  is assumed unless a theorem says so. Errors are the negative numbers of the code. A read or
  write outside a buffer, an overrun of a socket buffer and a division by zero are values of
  the type \<open>fault\<close>, and in the parser the value \<open>None\<close>. The tools have records of library
  functions in the same way, and a use of the null pointer \<open>argv[argc]\<close> is a fault.
  The folding loop of the checksum, the filling of the pool and the sending loop of the
  generator are recursive functions with termination proofs. No definition has fuel. Bounds
  are those of the code: 1024 hash lists, 256 pool slots, 256-byte log buffers, 1000 messages.
  The machine is 64-bit and little-endian, as the packed bit fields of the headers assume.

  \<^bold>\<open>What is shown.\<close>

  \<^item> Hook. Counters agree with verdicts over any sequence of packets; what is stolen was
    selected; a packet with a correct checksum is never processed; packets of the other
    protocol are stolen whatever their port. Timing statistics are the last, least and
    greatest time and a mean with a proved error bound.
  \<^item> Module. From loading on, every reachable state has a well-formed connection table with the
    right count (unless the statistics were reset) and a well-formed pool; an unconfigured
    module accepts every packet; the hook returns on every packet whose lengths stay inside
    it. A timing step divides by zero exactly when no packet was counted since the last reset.
  \<^item> Resources. A failed load returns everything; load and unload balance; unloading does not
    free tracked connections; a response keeps a reference on the device.
  \<^item> Parser and checksum. The checksum is that of RFC 1071 on even lengths and differs on odd
    ones; accepted packets have header and payload where their protocol puts them; the parser
    returns when the lengths a packet announces stay inside it, and the packets on which it
    reads outside the buffer are characterised exactly; the shorter parser agrees with the
    longer one.
  \<^item> Connections. The hash lists refine a finite map, through the interface \<open>conn_map\<close>;
    clearing frees each connection once.
  \<^item> Responses. The pool refines a finite supply, through \<open>buffer_supply\<close>: 255 buffers, once.
    The effect of sending is given on every path; headers have correct checksums, which the
    module's own parser refuses. Properties of the pool that survive a draw survive the whole
    hook, through \<open>pool_property\<close>, which is used twice.
  \<^item> Application, control, debug. The order built from a quote; the commands, with a round trip
    of the configuration and the effect of a failing one; the text the error log keeps. Two
    orders share an identifier exactly when they fall into the same ten milliseconds.
  \<^item> Tools. Every command of the tool that carries a configuration fails, because its struct
    has another size and the size is part of the command number; statistics arrive unchanged;
    and can be read back from the printed text; when a missing argument is read, with every
    use of \<open>argv\<close> a read that can fault; the generator's messages trigger no order.

  \<^bold>\<open>Assumptions.\<close> \<open>kernel_ledger\<close>: which service acquires or releases what. \<open>user_memory\<close>: a copy
  to user memory can be read back. \<open>allocator_laws\<close> (Liveness): allocators return blocks and
  buffers of the size asked for, and \<open>NET_IP_ALIGN\<close> is small. \<open>device_laws\<close> (Control_Tool):
  \<open>ioctl\<close> on the opened device runs the module's handler on the caller's buffer. \<open>send_laws\<close> (Packet_Generator): the
  send functions send what they are given. Each theorem that uses one has an instance on the
  concrete kernel, library or network.

  \<^bold>\<open>Reading the code.\<close> The sources do not compile as they are: \<open>udp_hdr->check\<close> in the parser is read as
  \<open>(*udp_hdr)->check\<close>, and functions and variables used without a declaration are those of
  the same name in the other files. \<open>skb->data\<close> is taken to point at the Ethernet header, as
  the parser expects.

  \<^bold>\<open>Not modelled.\<close> Locks, because the steps of the module are atomic in the transition system;
  concurrent access is treated for the statistics only, where the code has no lock. The file
  operation tables and the \<open>single_open\<close> functions of /proc and debugfs, which only name
  the functions that are modelled. The per-CPU statistics and packet ring of
  src/optimizations.c, which no code uses. Non-linear socket buffers, which the code does not handle. Latency. The shell and
  Python scripts, which build, install and exercise the module.
\<close>

end
